(* ===== verification/Prelude.thy ===== *)
theory Prelude
  imports Main "HOL-Library.AList"
begin

text \<open>
  Shared vocabulary of the development. An exception of the TypeScript sources is a value
  of \<open>exn\<close>; an asynchronous function that may throw is a function into
  \<open>exn + 'a\<close>, threaded with the state it mutates. State changes made before a throw
  are kept, as in the program, so the pair \<open>(exn + 'a) \<times> 's\<close> carries the state on both
  sides. The combinators \<open>and_then\<close> (sequencing after \<^verbatim>\<open>await\<close>) and \<open>catching\<close>
  (\<^verbatim>\<open>try\<close>/\<^verbatim>\<open>catch\<close>) and the rules in \<open>effect_simps\<close> are used by every
  orchestration component.
\<close>

named_theorems effect_simps
named_theorems status_simps

datatype exn =
    GenericError string
  | TypeErr string
  | CommandErr string string string
  | HostKeyErr string
  | NativeErr string string
  | TransportErr string "string option" exn
  | InvalidUtf8Err string
  | KnownHostsErr string
  | LiveProbeErr string

text \<open>
  \<open>CommandErr message stdout stderr\<close> is \<^verbatim>\<open>CommandError\<close>, \<open>HostKeyErr\<close> is
  \<^verbatim>\<open>HostKeyVerificationError\<close>, \<open>KnownHostsErr\<close> is \<^verbatim>\<open>KnownHostsValidationError\<close>,
  \<open>LiveProbeErr\<close> is \<^verbatim>\<open>LiveSshdPortProbeError\<close>,
  \<open>InvalidUtf8Err\<close> is \<^verbatim>\<open>InvalidUtf8OutputError\<close>, \<open>NativeErr code message\<close> an error with a
  \<^verbatim>\<open>code\<close> property and \<open>TransportErr code detail cause\<close> is
  \<^verbatim>\<open>TransportError\<close> with the \<^verbatim>\<open>detail\<close> property of its cause, whose message is the
  message of the cause.
\<close>

fun exn_message :: "exn \<Rightarrow> string" where
  "exn_message (GenericError m) = m"
| "exn_message (TypeErr m) = m"
| "exn_message (CommandErr m _ _) = m"
| "exn_message (HostKeyErr m) = m"
| "exn_message (NativeErr _ m) = m"
| "exn_message (TransportErr _ _ cause) = exn_message cause"
| "exn_message (InvalidUtf8Err m) = m"
| "exn_message (KnownHostsErr m) = m"
| "exn_message (LiveProbeErr m) = m"

fun exn_name :: "exn \<Rightarrow> string" where
  "exn_name (GenericError _) = ''Error''"
| "exn_name (TypeErr _) = ''TypeError''"
| "exn_name (CommandErr _ _ _) = ''CommandError''"
| "exn_name (HostKeyErr _) = ''HostKeyVerificationError''"
| "exn_name (NativeErr _ _) = ''Error''"
| "exn_name (TransportErr _ _ _) = ''TransportError''"
| "exn_name (InvalidUtf8Err _) = ''InvalidUtf8OutputError''"
| "exn_name (KnownHostsErr _) = ''KnownHostsValidationError''"
| "exn_name (LiveProbeErr _) = ''LiveSshdPortProbeError''"

definition exn_to_string :: "exn \<Rightarrow> string" where
  "exn_to_string e = exn_name e @ '': '' @ exn_message e"

type_synonym 'a result = "exn + 'a"

type_synonym ('a, 's) effect = "'s \<Rightarrow> 'a result \<times> 's"

subsection \<open>Sequencing and handling\<close>

definition and_then ::
  "'a result \<times> 's \<Rightarrow> ('a \<Rightarrow> 's \<Rightarrow> 'b result \<times> 's) \<Rightarrow> 'b result \<times> 's" where
  "and_then r k = (case r of (Inl e, s) \<Rightarrow> (Inl e, s) | (Inr x, s) \<Rightarrow> k x s)"

definition catching ::
  "'a result \<times> 's \<Rightarrow> (exn \<Rightarrow> 's \<Rightarrow> 'a result \<times> 's) \<Rightarrow> 'a result \<times> 's" where
  "catching r h = (case r of (Inl e, s) \<Rightarrow> h e s | (Inr x, s) \<Rightarrow> (Inr x, s))"

lemma and_then_simps [simp, effect_simps]:
  "and_then (Inl e, s) k = (Inl e, s)"
  "and_then (Inr x, s) k = k x s"
  by (simp_all add: and_then_def)

lemma catching_simps [simp, effect_simps]:
  "catching (Inl e, s) h = h e s"
  "catching (Inr x, s) h = (Inr x, s)"
  by (simp_all add: catching_def)

lemma and_then_split:
  "P (and_then r k) \<longleftrightarrow>
     (\<forall>e s. r = (Inl e, s) \<longrightarrow> P (Inl e, s)) \<and> (\<forall>x s. r = (Inr x, s) \<longrightarrow> P (k x s))"
  by (cases r; cases "fst r") auto

lemma and_then_split_asm:
  "P (and_then r k) \<longleftrightarrow>
     \<not> ((\<exists>e s. r = (Inl e, s) \<and> \<not> P (Inl e, s)) \<or> (\<exists>x s. r = (Inr x, s) \<and> \<not> P (k x s)))"
  by (cases r; cases "fst r") auto

lemma catching_split:
  "P (catching r h) \<longleftrightarrow>
     (\<forall>e s. r = (Inl e, s) \<longrightarrow> P (h e s)) \<and> (\<forall>x s. r = (Inr x, s) \<longrightarrow> P (Inr x, s))"
  by (cases r; cases "fst r") auto

lemma catching_split_asm:
  "P (catching r h) \<longleftrightarrow>
     \<not> ((\<exists>e s. r = (Inl e, s) \<and> \<not> P (h e s)) \<or> (\<exists>x s. r = (Inr x, s) \<and> \<not> P (Inr x, s)))"
  by (cases r; cases "fst r") auto

lemmas effect_splits = and_then_split catching_split

lemmas effect_split_asms = and_then_split_asm catching_split_asm

lemma and_then_Inr_iff:
  "and_then r k = (Inr y, s') \<longleftrightarrow> (\<exists>x s. r = (Inr x, s) \<and> k x s = (Inr y, s'))"
  by (cases r; cases "fst r") auto

lemma and_then_assoc:
  "and_then (and_then r k) l = and_then r (\<lambda>x s. and_then (k x s) l)"
  by (cases r; cases "fst r") simp_all

lemma Inr_effect: "\<not> isl (fst p) \<Longrightarrow> p = (Inr (projr (fst p)), snd p)"
  by (cases p; cases "fst p") simp_all

subsection \<open>Lists\<close>

lemma list_all_last: "list_all P xs \<Longrightarrow> xs \<noteq> [] \<Longrightarrow> P (last xs)"
  by (simp add: list_all_iff)

lemma takeWhile_all [simp]: "(\<And>x. x \<in> set xs \<Longrightarrow> P x) \<Longrightarrow> takeWhile P xs = xs"
  by (induction xs) auto

subsection \<open>JavaScript objects used as maps\<close>

text \<open>
  A \<^verbatim>\<open>Record\<close> or \<^verbatim>\<open>Map\<close> with string keys is an association list in insertion
  order: assigning to an existing key keeps its position, assigning to a new key appends,
  which is \<open>AList.update\<close>. \<open>js_assign\<close> is \<^verbatim>\<open>Object.assign\<close>.
\<close>

type_synonym 'v js_object = "(string \<times> 'v) list"

definition js_assign :: "'v js_object \<Rightarrow> 'v js_object \<Rightarrow> 'v js_object" where
  "js_assign target source = foldl (\<lambda>acc (k, v). AList.update k v acc) target source"

definition js_keys :: "'v js_object \<Rightarrow> string list" where
  "js_keys obj = map fst obj"

definition has_own :: "'v js_object \<Rightarrow> string \<Rightarrow> bool" where
  "has_own obj k \<longleftrightarrow> map_of obj k \<noteq> None"

definition wf_object :: "'v js_object \<Rightarrow> bool" where
  "wf_object obj \<longleftrightarrow> distinct (js_keys obj)"

lemma wf_object_update [simp]: "wf_object obj \<Longrightarrow> wf_object (AList.update k v obj)"
  by (simp add: wf_object_def js_keys_def distinct_update)

lemma wf_object_empty [simp]: "wf_object []"
  by (simp add: wf_object_def js_keys_def)

lemma js_keys_update: "set (js_keys (AList.update k v obj)) = insert k (set (js_keys obj))"
  by (simp add: js_keys_def dom_update)

lemma js_assign_Nil [simp]: "js_assign t [] = t"
  by (simp add: js_assign_def)

lemma js_assign_Cons [simp]: "js_assign t ((k, v) # s) = js_assign (AList.update k v t) s"
  by (simp add: js_assign_def)

lemma wf_object_assign [simp]: "wf_object t \<Longrightarrow> wf_object (js_assign t s)"
  by (induction s arbitrary: t) auto

lemma map_of_js_assign: "map_of (js_assign t s) = map_of t ++ map_of (rev s)"
proof (induction s arbitrary: t)
  case (Cons kv s)
  obtain k v where kv: "kv = (k, v)" by (cases kv)
  show ?case
    by (rule ext) (simp add: kv Cons.IH update_conv' map_add_def split: option.splits)
qed simp

lemma js_keys_assign: "set (js_keys (js_assign t s)) = set (js_keys t) \<union> set (js_keys s)"
proof (induction s arbitrary: t)
  case Nil
  then show ?case by (simp add: js_keys_def)
next
  case (Cons kv s)
  then show ?case by (cases kv) (auto simp: js_keys_update, auto simp: js_keys_def)
qed

lemma update_append_fresh:
  "k \<notin> fst ` set t \<Longrightarrow> AList.update k v t = t @ [(k, v)]"
  by (induction t) auto

lemma js_assign_append:
  assumes "distinct (map fst s)" and "fst ` set t \<inter> fst ` set s = {}"
  shows "js_assign t s = t @ s"
  using assms
proof (induction s arbitrary: t)
  case (Cons kv s)
  obtain k v where kv: "kv = (k, v)" by (cases kv)
  have "AList.update k v t = t @ [(k, v)]"
    using Cons.prems kv by (intro update_append_fresh) auto
  then show ?case
    using Cons.prems kv Cons.IH [of "t @ [(k, v)]"] by auto
qed simp

lemma js_assign_copy: "wf_object s \<Longrightarrow> js_assign [] s = s"
  by (rule js_assign_append [of s "[]", simplified]) (simp add: wf_object_def js_keys_def)

end
