(* ===== verification/JsString.thy ===== *)
theory JsString
  imports Prelude
begin

text \<open>
  The string operations of the JavaScript standard library that the sources call, on
  \<open>string\<close> (a list of code units below 256, the Latin-1 range): \<^verbatim>\<open>trim\<close>,
  \<^verbatim>\<open>split\<close>, \<^verbatim>\<open>startsWith\<close>, \<^verbatim>\<open>indexOf\<close>, \<^verbatim>\<open>js_includes\<close>, \<^verbatim>\<open>replaceAll\<close>,
  \<^verbatim>\<open>toLowerCase\<close> and the character classes of the regular expressions. The white
  space of \<^verbatim>\<open>trim\<close> and of the class \<^verbatim>\<open>\s\<close> in that range is TAB to CR, space and NBSP.
\<close>

subsection \<open>Character classes\<close>

definition code :: "char \<Rightarrow> nat" where
  "code c = of_char c"

abbreviation dquote :: char where "dquote \<equiv> CHR 0x22"
abbreviation squote :: char where "squote \<equiv> CHR 0x27"
abbreviation backslash :: char where "backslash \<equiv> CHR 0x5C"
abbreviation newline :: char where "newline \<equiv> CHR 0x0A"
abbreviation carriage_return :: char where "carriage_return \<equiv> CHR 0x0D"
abbreviation nul :: char where "nul \<equiv> CHR 0x00"

definition char_between :: "nat \<Rightarrow> nat \<Rightarrow> char \<Rightarrow> bool" where
  "char_between lo hi c \<longleftrightarrow> lo \<le> code c \<and> code c \<le> hi"

definition js_space :: "char \<Rightarrow> bool" where
  "js_space c \<longleftrightarrow> char_between 9 13 c \<or> code c = 32 \<or> code c = 160"

definition is_upper :: "char \<Rightarrow> bool" where
  "is_upper c \<longleftrightarrow> char_between 65 90 c"

definition is_lower :: "char \<Rightarrow> bool" where
  "is_lower c \<longleftrightarrow> char_between 97 122 c"

definition is_alpha :: "char \<Rightarrow> bool" where
  "is_alpha c \<longleftrightarrow> is_upper c \<or> is_lower c"

definition is_digit :: "char \<Rightarrow> bool" where
  "is_digit c \<longleftrightarrow> char_between 48 57 c"

definition is_word :: "char \<Rightarrow> bool" where
  "is_word c \<longleftrightarrow> is_alpha c \<or> is_digit c \<or> c = CHR ''_''"

definition lower_char :: "char \<Rightarrow> char" where
  "lower_char c =
     (if is_upper c \<or> (char_between 192 222 c \<and> code c \<noteq> 215)
      then char_of (code c + 32) else c)"

definition to_lower :: "string \<Rightarrow> string" where
  "to_lower s = map lower_char s"

lemmas char_class_defs =
  code_def char_between_def js_space_def is_upper_def is_lower_def is_alpha_def is_digit_def
  is_word_def

lemma word_not_space: "is_word c \<Longrightarrow> \<not> js_space c"
  by (auto simp: char_class_defs)

subsection \<open>Trimming\<close>

definition trim_start :: "string \<Rightarrow> string" where
  "trim_start s = dropWhile js_space s"

definition trim_end :: "string \<Rightarrow> string" where
  "trim_end s = rev (dropWhile js_space (rev s))"

definition trim :: "string \<Rightarrow> string" where
  "trim s = trim_end (trim_start s)"

definition trimmed :: "string \<Rightarrow> bool" where
  "trimmed s \<longleftrightarrow> s = [] \<or> (\<not> js_space (hd s) \<and> \<not> js_space (last s))"

lemma dropWhile_id: "xs = [] \<or> \<not> P (hd xs) \<Longrightarrow> dropWhile P xs = xs"
  by (cases xs) auto

lemma trim_id: "trimmed s \<Longrightarrow> trim s = s"
  by (cases "s = []")
     (auto simp: trimmed_def trim_def trim_start_def trim_end_def dropWhile_id hd_rev)

lemma hd_trim_end: "trim_end s \<noteq> [] \<Longrightarrow> hd (trim_end s) = hd s"
proof -
  assume ne: "trim_end s \<noteq> []"
  have "s = trim_end s @ rev (takeWhile js_space (rev s))"
    unfolding trim_end_def by (metis rev_append rev_rev_ident takeWhile_dropWhile_id)
  then show ?thesis using ne by (metis hd_append2)
qed

lemma last_trim_end: "trim_end s \<noteq> [] \<Longrightarrow> \<not> js_space (last (trim_end s))"
  unfolding trim_end_def by (metis hd_dropWhile last_rev rev.simps(1))

lemma trimmed_trim: "trimmed (trim s)"
proof (cases "trim s = []")
  case False
  have "trim_start s \<noteq> []"
    using False by (auto simp: trim_def trim_end_def)
  then have "\<not> js_space (hd (trim_start s))"
    unfolding trim_start_def by (metis hd_dropWhile)
  then show ?thesis
    using False hd_trim_end [of "trim_start s"] last_trim_end [of "trim_start s"]
    by (simp add: trimmed_def trim_def)
qed (simp add: trimmed_def)

lemma trim_idem [simp]: "trim (trim s) = trim s"
  by (rule trim_id) (rule trimmed_trim)

lemma set_trim: "set (trim s) \<subseteq> set s"
  by (auto simp: trim_def trim_start_def trim_end_def dest!: set_dropWhileD)

subsection \<open>Splitting and searching\<close>

fun split_on :: "char \<Rightarrow> string \<Rightarrow> string list" where
  "split_on sep [] = [[]]"
| "split_on sep (c # cs) =
     (if c = sep then [] # split_on sep cs
      else (case split_on sep cs of [] \<Rightarrow> [[c]] | p # ps \<Rightarrow> (c # p) # ps))"

definition starts_with :: "string \<Rightarrow> string \<Rightarrow> bool" where
  "starts_with s p \<longleftrightarrow> take (length p) s = p"

definition ends_with :: "string \<Rightarrow> string \<Rightarrow> bool" where
  "ends_with s p \<longleftrightarrow> length p \<le> length s \<and> drop (length s - length p) s = p"

fun index_of :: "char \<Rightarrow> string \<Rightarrow> nat option" where
  "index_of c [] = None"
| "index_of c (x # xs) = (if x = c then Some 0 else map_option Suc (index_of c xs))"

fun js_includes :: "string \<Rightarrow> string \<Rightarrow> bool" where
  "js_includes [] p = (p = [])"
| "js_includes (c # cs) p = (starts_with (c # cs) p \<or> js_includes cs p)"

fun join_with :: "string \<Rightarrow> string list \<Rightarrow> string" where
  "join_with sep [] = []"
| "join_with sep [p] = p"
| "join_with sep (p # q # ps) = p @ sep @ join_with sep (q # ps)"

lemma split_on_nonempty [simp]: "split_on sep s \<noteq> []"
  by (induction s) (auto split: list.splits)

lemma split_on_no_sep: "p \<in> set (split_on sep s) \<Longrightarrow> sep \<notin> set p"
proof (induction s arbitrary: p)
  case (Cons c cs)
  obtain q qs where q: "split_on sep cs = q # qs"
    by (cases "split_on sep cs") auto
  have "sep \<notin> set q" using Cons.IH [of q] q by simp
  then show ?case using Cons q by (auto split: if_splits)
qed simp

lemma split_on_chars: "p \<in> set (split_on sep s) \<Longrightarrow> set p \<subseteq> set s"
proof (induction s arbitrary: p)
  case (Cons c cs)
  obtain q qs where q: "split_on sep cs = q # qs"
    by (cases "split_on sep cs") auto
  have "set q \<subseteq> set cs" using Cons.IH [of q] q by simp
  then show ?case using Cons q by (fastforce split: if_splits)
qed simp

lemma join_split_on: "join_with [sep] (split_on sep s) = s"
proof (induction s)
  case (Cons c cs)
  obtain q qs where q: "split_on sep cs = q # qs"
    by (cases "split_on sep cs") auto
  show ?case using Cons q by (cases qs) auto
qed simp

lemma split_on_id: "sep \<notin> set s \<Longrightarrow> split_on sep s = [s]"
  by (induction s) auto

lemma split_on_append:
  "sep \<notin> set p \<Longrightarrow> split_on sep (p @ sep # s) = p # split_on sep s"
  by (induction p) auto

lemma split_on_join:
  "ps \<noteq> [] \<Longrightarrow> list_all (\<lambda>p. sep \<notin> set p) ps \<Longrightarrow> split_on sep (join_with [sep] ps) = ps"
  by (induction "[sep]" ps rule: join_with.induct) (auto simp: split_on_id split_on_append)

lemma index_of_Some:
  "index_of c s = Some i \<Longrightarrow> i < length s \<and> s ! i = c \<and> c \<notin> set (take i s)"
  by (induction s arbitrary: i) (auto split: if_splits)

lemma index_of_None: "index_of c s = None \<longleftrightarrow> c \<notin> set s"
  by (induction s) auto

lemma index_of_append: "c \<notin> set p \<Longrightarrow> index_of c (p @ c # s) = Some (length p)"
  by (induction p) auto

lemma starts_with_append [simp]: "starts_with (p @ s) p"
  by (simp add: starts_with_def)

lemma starts_with_iff: "starts_with s p \<longleftrightarrow> (\<exists>r. s = p @ r)"
  by (auto simp: starts_with_def) (metis append_take_drop_id)

lemma includes_iff: "js_includes s p \<longleftrightarrow> (\<exists>a b. s = a @ p @ b)"
proof (induction s)
  case (Cons c cs)
  show ?case
  proof
    assume "js_includes (c # cs) p"
    then consider "starts_with (c # cs) p" | "js_includes cs p" by auto
    then show "\<exists>a b. c # cs = a @ p @ b"
    proof cases
      case 1
      then show ?thesis by (metis append_Nil starts_with_iff)
    next
      case 2
      then show ?thesis using Cons.IH by (metis append_Cons)
    qed
  next
    assume "\<exists>a b. c # cs = a @ p @ b"
    then obtain a b where ab: "c # cs = a @ p @ b" by blast
    show "js_includes (c # cs) p"
    proof (cases a)
      case Nil
      then have "starts_with (c # cs) p" using ab by (auto simp: starts_with_iff)
      then show ?thesis by simp
    next
      case (Cons x xs)
      then show ?thesis using ab Cons.IH by auto
    qed
  qed
qed auto

lemma includes_single: "js_includes s [c] \<longleftrightarrow> c \<in> set s"
  by (auto simp: includes_iff) (metis append_Cons append_Nil in_set_conv_decomp)

subsection \<open>Replacing\<close>

text \<open>
  \<^verbatim>\<open>replaceAll\<close> with a non-empty string pattern: leftmost matches, not overlapping.
  The counter \<open>skip\<close> is the number of characters of the current match that are still to
  be consumed.
\<close>

fun replace_from :: "nat \<Rightarrow> string \<Rightarrow> string \<Rightarrow> string \<Rightarrow> string" where
  "replace_from skip pat rep [] = []"
| "replace_from (Suc n) pat rep (c # cs) = replace_from n pat rep cs"
| "replace_from 0 pat rep (c # cs) =
     (if pat \<noteq> [] \<and> starts_with (c # cs) pat
      then rep @ replace_from (length pat - 1) pat rep cs
      else c # replace_from 0 pat rep cs)"

definition replace_all :: "string \<Rightarrow> string \<Rightarrow> string \<Rightarrow> string" where
  "replace_all pat rep s = replace_from 0 pat rep s"

lemma replace_from_drop: "replace_from n pat rep s = replace_from 0 pat rep (drop n s)"
proof (induction n arbitrary: s)
  case (Suc n)
  then show ?case by (cases s) auto
qed simp

lemma replace_all_Nil [simp]: "replace_all pat rep [] = []"
  by (simp add: replace_all_def)

lemma replace_all_match:
  assumes "pat \<noteq> []"
  shows "replace_all pat rep (pat @ s) = rep @ replace_all pat rep s"
proof -
  obtain c cs where pat: "pat = c # cs" using assms by (cases pat) auto
  have "replace_from 0 pat rep (c # cs @ s) = rep @ replace_from (length cs) pat rep (cs @ s)"
    by (simp add: pat starts_with_def)
  then show ?thesis
    by (simp add: replace_all_def pat replace_from_drop [of "length cs"])
qed

lemma replace_all_step:
  "\<not> starts_with (c # cs) pat \<Longrightarrow> replace_all pat rep (c # cs) = c # replace_all pat rep cs"
  by (simp add: replace_all_def)

lemma replace_all_single [simp]:
  "replace_all [p] rep (c # cs) =
     (if c = p then rep @ replace_all [p] rep cs else c # replace_all [p] rep cs)"
  by (simp add: replace_all_def starts_with_def)

lemma replace_all_id: "\<not> js_includes s pat \<Longrightarrow> replace_all pat rep s = s"
proof (induction s)
  case (Cons c cs)
  then show ?case by (simp add: replace_all_step)
qed simp

lemma replace_all_single_append:
  "replace_all [p] rep (s @ t) = replace_all [p] rep s @ replace_all [p] rep t"
  by (induction s) auto

subsection \<open>Numbers and JSON strings in messages\<close>

definition digit_char :: "nat \<Rightarrow> char" where
  "digit_char d = char_of (48 + d)"

fun show_nat :: "nat \<Rightarrow> string" where
  "show_nat n = (if n < 10 then [digit_char n] else show_nat (n div 10) @ [digit_char (n mod 10)])"

declare show_nat.simps [simp del]

definition show_int :: "int \<Rightarrow> string" where
  "show_int i = (if i < 0 then CHR ''-'' # show_nat (nat (- i)) else show_nat (nat i))"

definition hex_digit :: "nat \<Rightarrow> char" where
  "hex_digit d = (if d < 10 then char_of (48 + d) else char_of (87 + d))"

definition json_char :: "char \<Rightarrow> string" where
  "json_char c =
     (if c = CHR 0x22 then [CHR 0x5C, CHR 0x22]
      else if c = CHR 0x5C then [CHR 0x5C, CHR 0x5C]
      else if code c = 8 then [CHR 0x5C, CHR ''b'']
      else if code c = 9 then [CHR 0x5C, CHR ''t'']
      else if code c = 10 then [CHR 0x5C, CHR ''n'']
      else if code c = 12 then [CHR 0x5C, CHR ''f'']
      else if code c = 13 then [CHR 0x5C, CHR ''r'']
      else if code c < 32
        then [CHR 0x5C, CHR ''u'', CHR ''0'', CHR ''0'', hex_digit (code c div 16), hex_digit (code c mod 16)]
      else [c])"

definition json_stringify :: "string \<Rightarrow> string" where
  "json_stringify s = [CHR 0x22] @ concat (map json_char s) @ [CHR 0x22]"

text \<open>\<^verbatim>\<open>s.indexOf(pat)\<close>.\<close>

fun find_text :: "string \<Rightarrow> string \<Rightarrow> nat option" where
  "find_text pat [] = (if pat = [] then Some 0 else None)"
| "find_text pat (c # cs) = (if starts_with (c # cs) pat then Some 0 else map_option Suc (find_text pat cs))"

text \<open>UTF-8 length of a Latin-1 string, as \<^verbatim>\<open>Buffer.byteLength(s, "utf8")\<close>.\<close>

definition utf8_length :: "string \<Rightarrow> nat" where
  "utf8_length s = sum_list (map (\<lambda>c. if code c < 128 then 1 else 2) s)"

lemma digit_char_digit: "d < 10 \<Longrightarrow> is_digit (digit_char d)"
  by (simp add: digit_char_def char_class_defs)

lemma show_nat_digits: "list_all is_digit (show_nat n) \<and> show_nat n \<noteq> []"
proof (induction n rule: show_nat.induct)
  case (1 n)
  then show ?case
    by (simp add: show_nat.simps [of n] digit_char_digit)
qed

lemma join_with_snoc: "ls \<noteq> [] \<Longrightarrow> join_with sep (ls @ [l]) = join_with sep ls @ sep @ l"
  by (induction sep ls rule: join_with.induct) auto

end
