(* ===== verification/Environment.thy ===== *)
theory Environment
  imports JsString
begin

text \<open>
  The environment of a run (\<^verbatim>\<open>environment.ts\<close>, \<^verbatim>\<open>types.ts\<close>): scalar or lazy values
  under string keys, the \<^verbatim>\<open>.env\<close> loader with its key allow-list and value checks,
  \<^verbatim>\<open>mergeEnvironment\<close>, the resolvers, and the \<^verbatim>\<open>--env\<close> option of \<^verbatim>\<open>cli.ts\<close>. A
  function value is represented by the closure that the sources build: a caller's
  function, or one of the wrappers of \<^verbatim>\<open>meta.ts\<close>. The main results are the allow-list
  invariant of every loaded map and the round trip of double-quoted values.
\<close>

subsection \<open>Values\<close>

datatype scalar = SBool bool | SNum int | SStr string

datatype value_type = VBoolean | VNumber | VString

text \<open>
  \<open>UserFn i m\<close> is the caller's function object \<open>i\<close>; \<open>m\<close> tells whether it carries the
  per-access marker property.
\<close>

datatype env_value =
    EScalar scalar
  | EFun closure
and closure =
    UserFn nat bool
  | ConstFn scalar
  | WrapFn closure bool
  | MemoFn env_entry
  | PerAccessFn env_entry
and env_entry =
    EnvEntry (ee_name: string) (ee_resolution: "string option") (ee_resolve: closure)
      (ee_value_type: value_type) (ee_explicit: "bool option")

type_synonym environment = "env_value js_object"

definition scalar_type :: "scalar \<Rightarrow> value_type" where
  "scalar_type s = (case s of SBool _ \<Rightarrow> VBoolean | SNum _ \<Rightarrow> VNumber | SStr _ \<Rightarrow> VString)"

definition show_scalar :: "scalar \<Rightarrow> string" where
  "show_scalar s =
     (case s of SBool b \<Rightarrow> (if b then ''true'' else ''false'') | SNum i \<Rightarrow> show_int i | SStr t \<Rightarrow> t)"

subsection \<open>Keys\<close>

definition identifier_pattern :: "string \<Rightarrow> bool" where
  "identifier_pattern key =
     (case key of [] \<Rightarrow> False | c # cs \<Rightarrow> (is_alpha c \<or> c = CHR ''_'') \<and> list_all is_word cs)"

definition environment_key_pattern :: "string \<Rightarrow> bool" where
  "environment_key_pattern key = identifier_pattern key"

definition environment_forbidden_keys :: "string list" where
  "environment_forbidden_keys = [''__proto__'', ''constructor'', ''prototype'']"

definition allowed_key :: "string \<Rightarrow> bool" where
  "allowed_key key \<longleftrightarrow> environment_key_pattern key \<and> key \<notin> set environment_forbidden_keys"

definition validate_dot_environment_key :: "string \<Rightarrow> nat \<Rightarrow> string \<Rightarrow> unit result" where
  "validate_dot_environment_key file_path line_number key =
     (if \<not> environment_key_pattern key
      then Inl (GenericError (''Invalid env key in '' @ file_path @ '' line '' @ show_nat line_number
             @ '': '' @ (if key = [] then ''(empty)'' else json_stringify key)
             @ '' (expected [A-Za-z_][A-Za-z0-9_]*)''))
      else if key \<in> set environment_forbidden_keys
      then Inl (GenericError (''Forbidden env key in '' @ file_path @ '' line '' @ show_nat line_number
             @ '': '' @ json_stringify key @ '' (reserved JavaScript identifier)''))
      else Inr ())"

subsection \<open>Values of a dotenv file\<close>

definition environment_file_byte_limit :: nat where
  "environment_file_byte_limit = 1 * (1024 * 1024)"

definition environment_value_byte_limit :: nat where
  "environment_value_byte_limit = 64 * 1024"

definition forbidden_control_character :: "char \<Rightarrow> bool" where
  "forbidden_control_character c \<longleftrightarrow>
     code c \<le> 8 \<or> code c = 11 \<or> code c = 12 \<or> char_between 14 31 c \<or> code c = 127"

definition validate_dot_environment_value :: "string \<Rightarrow> nat \<Rightarrow> string \<Rightarrow> unit result" where
  "validate_dot_environment_value file_path line_number value =
     (if utf8_length value > environment_value_byte_limit
      then Inl (GenericError (''Invalid env value in '' @ file_path @ '' line '' @ show_nat line_number
             @ '': value exceeds the '' @ show_nat environment_value_byte_limit @ ''-byte cap''))
      else if list_ex forbidden_control_character value
      then Inl (GenericError (''Invalid env value in '' @ file_path @ '' line '' @ show_nat line_number
             @ '': contains a forbidden control byte''))
      else Inr ())"

definition assert_dot_environment_file_byte_length :: "string \<Rightarrow> nat \<Rightarrow> unit result" where
  "assert_dot_environment_file_byte_length file_path n =
     (if n > environment_file_byte_limit
      then Inl (GenericError (''Refusing to load env file '' @ file_path @ '': size '' @ show_nat n
             @ '' bytes exceeds the '' @ show_nat environment_file_byte_limit @ ''-byte cap''))
      else Inr ())"

definition assert_dot_environment_file_size :: "string \<Rightarrow> string \<Rightarrow> unit result" where
  "assert_dot_environment_file_size file_path content =
     assert_dot_environment_file_byte_length file_path (utf8_length content)"

text \<open>
  The file system is a parameter: \<open>stat_size\<close> is what \<^verbatim>\<open>stat\<close> reports, \<open>content\<close>
  what the later \<^verbatim>\<open>readFile\<close> returns (the file may have changed in between).
\<close>

definition read_dot_environment_content :: "string \<Rightarrow> nat \<Rightarrow> string \<Rightarrow> string result" where
  "read_dot_environment_content file_path stat_size content =
     (case assert_dot_environment_file_byte_length file_path stat_size of
        Inl e \<Rightarrow> Inl e
      | Inr _ \<Rightarrow>
          (case assert_dot_environment_file_size file_path content of
             Inl e \<Rightarrow> Inl e
           | Inr _ \<Rightarrow> Inr content))"

text \<open>\<open>search_comment\<close> is \<^verbatim>\<open>raw.search(/\s#/v)\<close>: the first white space before a \<^verbatim>\<open>#\<close>.\<close>

fun search_comment :: "string \<Rightarrow> nat option" where
  "search_comment (c # d # cs) =
     (if js_space c \<and> d = CHR ''#'' then Some 0 else map_option Suc (search_comment (d # cs)))"
| "search_comment _ = None"

definition unescape_double_quoted :: "string \<Rightarrow> string" where
  "unescape_double_quoted body =
     replace_all [nul] [backslash]
       (replace_all [backslash, dquote] [dquote]
         (replace_all [backslash, CHR ''n''] [newline]
           (replace_all [backslash, backslash] [nul] body)))"

definition process_value :: "string \<Rightarrow> string \<Rightarrow> nat \<Rightarrow> string result" where
  "process_value raw file_path line_number =
     (if nul \<in> set raw
      then Inl (GenericError (''Invalid env value in '' @ file_path @ '' line '' @ show_nat line_number
             @ '': contains a NUL byte''))
      else if carriage_return \<in> set raw
      then Inl (GenericError (''Invalid env value in '' @ file_path @ '' line '' @ show_nat line_number
             @ '': contains a carriage return''))
      else if length raw \<ge> 2 \<and> starts_with raw [dquote] \<and> ends_with raw [dquote]
      then Inr (unescape_double_quoted (butlast (tl raw)))
      else if length raw \<ge> 2 \<and> starts_with raw [squote] \<and> ends_with raw [squote]
      then Inr (butlast (tl raw))
      else (case search_comment raw of
              None \<Rightarrow> Inr raw
            | Some i \<Rightarrow> Inr (trim_end (take i raw))))"

fun load_dot_lines :: "string \<Rightarrow> nat \<Rightarrow> string list \<Rightarrow> environment \<Rightarrow> environment result" where
  "load_dot_lines file_path index [] environment = Inr environment"
| "load_dot_lines file_path index (line # lines) environment =
     (let trimmed_line = trim line in
      if trimmed_line = [] \<or> starts_with trimmed_line ''#''
      then load_dot_lines file_path (Suc index) lines environment
      else (case index_of (CHR ''='') trimmed_line of
              None \<Rightarrow> load_dot_lines file_path (Suc index) lines environment
            | Some eq_index \<Rightarrow>
                (let key = trim (take eq_index trimmed_line) in
                 (case validate_dot_environment_key file_path (index + 1) key of
                    Inl e \<Rightarrow> Inl e
                  | Inr _ \<Rightarrow>
                      (case process_value (trim (drop (eq_index + 1) trimmed_line)) file_path (index + 1) of
                         Inl e \<Rightarrow> Inl e
                       | Inr value \<Rightarrow>
                           (case validate_dot_environment_value file_path (index + 1) value of
                              Inl e \<Rightarrow> Inl e
                            | Inr _ \<Rightarrow>
                                load_dot_lines file_path (Suc index) lines
                                  (AList.update key (EScalar (SStr value)) environment)))))))"

definition load_dot_environment :: "string \<Rightarrow> nat \<Rightarrow> string \<Rightarrow> environment result" where
  "load_dot_environment file_path stat_size content =
     (case read_dot_environment_content file_path stat_size content of
        Inl e \<Rightarrow> Inl e
      | Inr text \<Rightarrow> load_dot_lines file_path 0 (split_on newline text) [])"

subsection \<open>Merging and resolving\<close>

definition merge_environment :: "environment option list \<Rightarrow> environment" where
  "merge_environment envs =
     foldl (\<lambda>acc e. case e of None \<Rightarrow> acc | Some env \<Rightarrow> js_assign acc env) [] envs"

text \<open>The call of a lazy value is an effect of the caller's function: \<open>call\<close> is a parameter.\<close>

definition resolve_environment ::
  "(closure \<Rightarrow> (scalar, 's) effect) \<Rightarrow> environment \<Rightarrow> string \<Rightarrow> (scalar, 's) effect" where
  "resolve_environment call environment key s =
     (case map_of environment key of
        None \<Rightarrow> (Inl (GenericError (''Env key '' @ [dquote] @ key @ [dquote] @ '' is not defined'')), s)
      | Some (EScalar v) \<Rightarrow> (Inr v, s)
      | Some (EFun f) \<Rightarrow> call f s)"

definition resolve_environment_as_string ::
  "(closure \<Rightarrow> (scalar, 's) effect) \<Rightarrow> environment \<Rightarrow> string \<Rightarrow> (string, 's) effect" where
  "resolve_environment_as_string call environment key s =
     and_then (resolve_environment call environment key s) (\<lambda>v s. (Inr (show_scalar v), s))"

subsection \<open>The \<^verbatim>\<open>--env key=value\<close> option\<close>

text \<open>A failed check prints a message and exits with code 2; \<open>Inl\<close> carries the message.\<close>

definition collect_environment ::
  "string \<Rightarrow> string js_object \<Rightarrow> string + string js_object" where
  "collect_environment value previous =
     (case index_of (CHR ''='') value of
        None \<Rightarrow> Inl (''Invalid --env format: '' @ value @ '' (expected key=value)'')
      | Some eq_index \<Rightarrow>
          (let key = take eq_index value; v = drop (eq_index + 1) value in
           if \<not> environment_key_pattern key
           then Inl (''Invalid --env name: '' @ (if key = [] then ''(empty)'' else key)
                  @ '' (expected [A-Za-z_][A-Za-z0-9_]*)'')
           else if key \<in> set environment_forbidden_keys
           then Inl (''Forbidden --env name: '' @ key @ '' (reserved JavaScript identifier)'')
           else Inr (js_assign (js_assign [] previous) [(key, v)])))"

subsection \<open>Every loaded key is on the allow-list\<close>

definition env_ok :: "environment \<Rightarrow> bool" where
  "env_ok env \<longleftrightarrow> wf_object env \<and> list_all allowed_key (js_keys env)"

definition dot_value_ok :: "string \<Rightarrow> bool" where
  "dot_value_ok v \<longleftrightarrow>
     utf8_length v \<le> environment_value_byte_limit \<and> \<not> list_ex forbidden_control_character v"

lemma env_ok_empty [simp]: "env_ok []"
  by (simp add: env_ok_def js_keys_def)

lemma env_ok_update: "env_ok env \<Longrightarrow> allowed_key k \<Longrightarrow> env_ok (AList.update k v env)"
  by (simp add: env_ok_def list_all_iff js_keys_update)

lemma env_ok_assign: "env_ok t \<Longrightarrow> list_all allowed_key (js_keys s) \<Longrightarrow> env_ok (js_assign t s)"
  by (auto simp: env_ok_def list_all_iff js_keys_assign)

lemma validate_dot_environment_key_Inr:
  "validate_dot_environment_key f n k = Inr u \<longleftrightarrow> allowed_key k"
  by (auto simp: validate_dot_environment_key_def allowed_key_def)

lemma validate_dot_environment_value_Inr:
  "validate_dot_environment_value f n v = Inr u \<longleftrightarrow> dot_value_ok v"
  by (auto simp: validate_dot_environment_value_def dot_value_ok_def)

definition string_value :: "env_value \<Rightarrow> bool" where
  "string_value v \<longleftrightarrow> (\<exists>t. v = EScalar (SStr t) \<and> dot_value_ok t)"

lemma ran_update: "v \<in> ran (map_of (AList.update k x env)) \<Longrightarrow> v = x \<or> v \<in> ran (map_of env)"
  by (auto simp: update_conv' ran_def split: if_splits)

lemma load_dot_lines_cons:
  assumes "load_dot_lines f i (l # ls) env = Inr env'"
  shows "load_dot_lines f (Suc i) ls env = Inr env' \<or>
    (\<exists>k v. allowed_key k \<and> dot_value_ok v \<and>
       load_dot_lines f (Suc i) ls (AList.update k (EScalar (SStr v)) env) = Inr env')"
proof (cases "trim l = [] \<or> starts_with (trim l) ''#'' \<or> index_of (CHR ''='') (trim l) = None")
  case True
  then show ?thesis using assms by (simp add: Let_def split: if_splits option.splits)
next
  case False
  then obtain q where q: "index_of (CHR ''='') (trim l) = Some q" by auto
  let ?key = "trim (take q (trim l))"
  obtain u where key: "validate_dot_environment_key f (i + 1) ?key = Inr u"
    using assms False q
    by (cases "validate_dot_environment_key f (i + 1) ?key") (simp_all add: Let_def)
  obtain v where pv: "process_value (trim (drop (q + 1) (trim l))) f (i + 1) = Inr v"
    using assms False q key
    by (cases "process_value (trim (drop (q + 1) (trim l))) f (i + 1)") (simp_all add: Let_def)
  obtain w where val: "validate_dot_environment_value f (i + 1) v = Inr w"
    using assms False q key pv
    by (cases "validate_dot_environment_value f (i + 1) v") (simp_all add: Let_def)
  have "load_dot_lines f (Suc i) ls (AList.update ?key (EScalar (SStr v)) env) = Inr env'"
    using assms False q key pv val by (simp add: Let_def)
  then show ?thesis
    using key val
    unfolding validate_dot_environment_key_Inr validate_dot_environment_value_Inr by blast
qed

lemma load_dot_lines_ok:
  assumes "load_dot_lines f i ls env = Inr env'" and "env_ok env"
    and "\<forall>v \<in> ran (map_of env). string_value v"
  shows "env_ok env' \<and> (\<forall>v \<in> ran (map_of env'). string_value v)"
  using assms
proof (induction ls arbitrary: i env)
  case (Cons l ls)
  from load_dot_lines_cons [OF Cons.prems(1)] show ?case
  proof (elim disjE exE conjE)
    assume "load_dot_lines f (Suc i) ls env = Inr env'"
    then show ?thesis using Cons.IH Cons.prems(2,3) by blast
  next
    fix k v
    assume k: "allowed_key k" and v: "dot_value_ok v"
      and rest: "load_dot_lines f (Suc i) ls (AList.update k (EScalar (SStr v)) env) = Inr env'"
    have "string_value (EScalar (SStr v))"
      using v by (auto simp: string_value_def)
    then have "\<forall>x \<in> ran (map_of (AList.update k (EScalar (SStr v)) env)). string_value x"
      using Cons.prems(3) by (auto dest: ran_update)
    then show ?thesis
      using Cons.IH [OF rest env_ok_update [OF Cons.prems(2) k]] by blast
  qed
qed auto

subsection \<open>Round trip of double-quoted values\<close>

text \<open>The documented escapes of a double-quoted value: newline, quote and backslash.\<close>

definition escape_char :: "char \<Rightarrow> string" where
  "escape_char c =
     (if c = backslash then [backslash, backslash]
      else if c = newline then [backslash, CHR ''n'']
      else if c = dquote then [backslash, dquote]
      else [c])"

definition dot_quote :: "string \<Rightarrow> string" where
  "dot_quote v = dquote # concat (map escape_char v) @ [dquote]"

lemma unescape_step1:
  "replace_all [backslash, backslash] [nul] (concat (map escape_char v)) =
     concat (map (\<lambda>c. if c = backslash then [nul] else escape_char c) v)"
proof (induction v)
  case (Cons c v)
  show ?case
  proof (cases "c = backslash")
    case True
    then show ?thesis
      using Cons replace_all_match [of "[backslash, backslash]" "[nul]"]
      by (simp add: escape_char_def)
  next
    case False
    then show ?thesis
      using Cons by (auto simp: escape_char_def replace_all_step starts_with_def)
  qed
qed simp

lemma unescape_step2:
  "replace_all [backslash, CHR ''n''] [newline]
     (concat (map (\<lambda>c. if c = backslash then [nul] else escape_char c) v)) =
   concat (map (\<lambda>c. if c = backslash then [nul] else if c = newline then [newline]
      else escape_char c) v)"
proof (induction v)
  case (Cons c v)
  show ?case
  proof (cases "c = newline")
    case True
    then show ?thesis
      using Cons replace_all_match [of "[backslash, CHR ''n'']" "[newline]"]
      by (simp add: escape_char_def)
  next
    case False
    then show ?thesis
      using Cons by (auto simp: escape_char_def replace_all_step starts_with_def)
  qed
qed simp

lemma unescape_step3:
  "replace_all [backslash, dquote] [dquote]
     (concat (map (\<lambda>c. if c = backslash then [nul] else if c = newline then [newline]
        else escape_char c) v)) =
   map (\<lambda>c. if c = backslash then nul else c) v"
proof (induction v)
  case (Cons c v)
  show ?case
  proof (cases "c = dquote")
    case True
    then show ?thesis
      using Cons replace_all_match [of "[backslash, dquote]" "[dquote]"]
      by (simp add: escape_char_def)
  next
    case False
    then show ?thesis
      using Cons by (auto simp: escape_char_def replace_all_step starts_with_def)
  qed
qed simp

lemma unescape_step4:
  "nul \<notin> set v \<Longrightarrow> replace_all [nul] [backslash] (map (\<lambda>c. if c = backslash then nul else c) v) = v"
  by (induction v) auto

lemma unescape_escape:
  "nul \<notin> set v \<Longrightarrow> unescape_double_quoted (concat (map escape_char v)) = v"
  by (simp add: unescape_double_quoted_def unescape_step1 unescape_step2 unescape_step3
      unescape_step4)

lemma set_escape: "set (concat (map escape_char v)) \<subseteq> set v \<union> {backslash, CHR ''n''}"
  by (auto simp: escape_char_def split: if_splits)

lemma newline_not_in_escape: "newline \<notin> set (concat (map escape_char v))"
  by (auto simp: escape_char_def split: if_splits)

lemma process_value_dot_quote:
  assumes "nul \<notin> set v" and "carriage_return \<notin> set v"
  shows "process_value (dot_quote v) f n = Inr v"
proof -
  have "nul \<notin> set (dot_quote v)" "carriage_return \<notin> set (dot_quote v)"
    using assms set_escape [of v] by (auto simp: dot_quote_def)
  moreover have "starts_with (dot_quote v) [dquote]" "ends_with (dot_quote v) [dquote]"
    by (simp_all add: dot_quote_def starts_with_def ends_with_def)
  moreover have "butlast (tl (dot_quote v)) = concat (map escape_char v)"
    by (simp add: dot_quote_def butlast_append)
  moreover have "length (dot_quote v) \<ge> 2"
    by (simp add: dot_quote_def)
  ultimately show ?thesis
    using unescape_escape [OF assms(1)] by (simp add: process_value_def)
qed

definition dot_line :: "string \<times> string \<Rightarrow> string" where
  "dot_line kv = fst kv @ CHR ''='' # dot_quote (snd kv)"

definition render_dot_file :: "(string \<times> string) list \<Rightarrow> string" where
  "render_dot_file kvs = join_with [newline] (map dot_line kvs)"

definition plain_pair :: "string \<times> string \<Rightarrow> bool" where
  "plain_pair kv \<longleftrightarrow> allowed_key (fst kv) \<and> dot_value_ok (snd kv)
     \<and> carriage_return \<notin> set (snd kv)"

lemma allowed_key_chars:
  assumes "allowed_key k"
  shows "k \<noteq> [] \<and> list_all is_word k \<and> hd k \<noteq> CHR ''#''"
  using assms
  by (cases k)
     (auto simp: allowed_key_def environment_key_pattern_def identifier_pattern_def is_word_def
       char_class_defs)

lemma key_clean:
  assumes "list_all is_word k"
  shows "CHR ''='' \<notin> set k" "newline \<notin> set k" "list_all (\<lambda>c. \<not> js_space c) k"
proof -
  have "\<not> is_word (CHR ''='')" "\<not> is_word newline"
    by (simp_all add: char_class_defs)
  then show "CHR ''='' \<notin> set k" "newline \<notin> set k" "list_all (\<lambda>c. \<not> js_space c) k"
    using assms word_not_space by (auto simp: list_all_iff)
qed

lemma trimmed_word: "list_all (\<lambda>c. \<not> js_space c) k \<Longrightarrow> trimmed k"
  by (cases "k = []") (auto simp: trimmed_def list_all_iff)

lemma trim_dot_quote: "trim (dot_quote v) = dot_quote v"
  by (rule trim_id) (simp add: trimmed_def dot_quote_def char_class_defs)

lemma trim_dot_line: "plain_pair kv \<Longrightarrow> trim (dot_line kv) = dot_line kv"
proof (rule trim_id)
  assume "plain_pair kv"
  then obtain c cs where k: "fst kv = c # cs" and "is_word c"
    using allowed_key_chars [of "fst kv"] by (cases "fst kv") (auto simp: plain_pair_def)
  then show "trimmed (dot_line kv)"
    using word_not_space [of c]
    by (auto simp: trimmed_def dot_line_def dot_quote_def char_class_defs)
qed

lemma nul_forbidden: "dot_value_ok v \<Longrightarrow> nul \<notin> set v"
  by (auto simp: dot_value_ok_def list_ex_iff forbidden_control_character_def code_def)

lemma load_dot_lines_plain:
  assumes "plain_pair kv"
  shows "load_dot_lines f i (dot_line kv # ls) env =
         load_dot_lines f (Suc i) ls (AList.update (fst kv) (EScalar (SStr (snd kv))) env)"
proof -
  note key = allowed_key_chars [of "fst kv"]
  have ok: "allowed_key (fst kv)" "dot_value_ok (snd kv)" "carriage_return \<notin> set (snd kv)"
    using assms by (simp_all add: plain_pair_def)
  have "list_all is_word (fst kv)" using key ok by blast
  then have clean: "CHR ''='' \<notin> set (fst kv)" "trim (fst kv) = fst kv"
    using key_clean [of "fst kv"] by (blast, blast intro: trim_id trimmed_word)
  have eq: "index_of (CHR ''='') (dot_line kv) = Some (length (fst kv))"
    using clean by (simp add: dot_line_def index_of_append)
  obtain c cs where k: "fst kv = c # cs" "c \<noteq> CHR ''#''"
    using key ok by (cases "fst kv") auto
  have ne: "dot_line kv \<noteq> []" "\<not> starts_with (dot_line kv) ''#''"
    using k by (simp_all add: dot_line_def starts_with_def)
  have parts: "take (length (fst kv)) (dot_line kv) = fst kv"
      "drop (length (fst kv) + 1) (dot_line kv) = dot_quote (snd kv)"
    by (simp_all add: dot_line_def)
  have checks: "validate_dot_environment_key f (i + 1) (fst kv) = Inr ()"
      "validate_dot_environment_value f (i + 1) (snd kv) = Inr ()"
      "process_value (dot_quote (snd kv)) f (i + 1) = Inr (snd kv)"
    using ok nul_forbidden [of "snd kv"]
    by (simp_all only: validate_dot_environment_key_Inr validate_dot_environment_value_Inr
        process_value_dot_quote not_False_eq_True)
  show ?thesis
    using assms ne eq parts checks clean
    by (simp add: trim_dot_line trim_dot_quote Let_def del: Suc_eq_plus1)
qed

lemma load_dot_lines_render:
  assumes "list_all plain_pair kvs"
  shows "load_dot_lines f i (map dot_line kvs) env =
         Inr (js_assign env (map (\<lambda>(k, v). (k, EScalar (SStr v))) kvs))"
  using assms
proof (induction kvs arbitrary: i env)
  case (Cons kv kvs)
  then show ?case
    by (cases kv) (simp add: load_dot_lines_plain del: load_dot_lines.simps(2))
qed simp

lemma newline_not_in_dot_line: "plain_pair kv \<Longrightarrow> newline \<notin> set (dot_line kv)"
  using allowed_key_chars [of "fst kv"] key_clean [of "fst kv"] newline_not_in_escape [of "snd kv"]
  by (auto simp: plain_pair_def dot_line_def dot_quote_def)

subsection \<open>Lookup after a merge\<close>

lemma merge_environment_snoc:
  "merge_environment (es @ [None]) = merge_environment es"
  "merge_environment (es @ [Some env]) = js_assign (merge_environment es) env"
  by (simp_all add: merge_environment_def)

lemma map_of_rev_wf: "wf_object env \<Longrightarrow> map_of (rev env) = map_of env"
  by (rule ext) (metis distinct_rev js_keys_def map_of_eq_Some_iff not_Some_eq rev_map set_rev
      wf_object_def)

lemma js_assign_lookup:
  "wf_object s \<Longrightarrow> map_of (js_assign t s) = map_of t ++ map_of s"
  by (simp add: map_of_js_assign map_of_rev_wf)

lemma merge_environment_ok:
  "list_all (\<lambda>e. case e of None \<Rightarrow> True | Some env \<Rightarrow> list_all allowed_key (js_keys env)) es \<Longrightarrow>
   env_ok (merge_environment es)"
proof (induction es rule: rev_induct)
  case (snoc e es)
  then show ?case
    by (cases e) (auto simp: merge_environment_snoc env_ok_assign)
qed (simp add: merge_environment_def)

text \<open>The value of a key is the one of the last map that has it.\<close>

fun last_binding :: "environment option list \<Rightarrow> string \<Rightarrow> env_value option" where
  "last_binding [] k = None"
| "last_binding (e # es) k =
     (case last_binding es k of
        Some v \<Rightarrow> Some v
      | None \<Rightarrow> (case e of None \<Rightarrow> None | Some env \<Rightarrow> map_of env k))"

lemma last_binding_snoc:
  "last_binding (es @ [e]) k =
     (case (case e of None \<Rightarrow> None | Some env \<Rightarrow> map_of env k) of
        Some v \<Rightarrow> Some v | None \<Rightarrow> last_binding es k)"
  by (induction es) (auto split: option.splits)

lemma merge_environment_last:
  "list_all (\<lambda>e. case e of None \<Rightarrow> True | Some env \<Rightarrow> wf_object env) es \<Longrightarrow>
   map_of (merge_environment es) k = last_binding es k"
proof (induction es rule: rev_induct)
  case (snoc e es)
  then show ?case
    by (cases e)
       (auto simp: merge_environment_snoc last_binding_snoc js_assign_lookup map_add_def
         split: option.splits)
qed (simp add: merge_environment_def)

subsection \<open>Properties\<close>

lemma load_rendered:
  assumes "list_all plain_pair kvs"
    and "utf8_length (render_dot_file kvs) \<le> environment_file_byte_limit"
    and "stat_size \<le> environment_file_byte_limit"
  shows "load_dot_environment file_path stat_size (render_dot_file kvs) =
    Inr (js_assign [] (map (\<lambda>(k, v). (k, EScalar (SStr v))) kvs))"
proof -
  have "load_dot_lines file_path 0 (split_on newline (render_dot_file kvs)) [] =
      load_dot_lines file_path 0 (map dot_line kvs) []"
  proof (cases "kvs = []")
    case True
    then show ?thesis by (simp add: render_dot_file_def Let_def trim_def trim_end_def trim_start_def)
  next
    case False
    have "split_on newline (render_dot_file kvs) = map dot_line kvs"
      unfolding render_dot_file_def
      using False assms(1) newline_not_in_dot_line
      by (intro split_on_join) (auto simp: list_all_iff)
    then show ?thesis by simp
  qed
  then show ?thesis
    using assms load_dot_lines_render [OF assms(1), of file_path 0 "[]"]
    by (simp add: load_dot_environment_def read_dot_environment_content_def
        assert_dot_environment_file_size_def assert_dot_environment_file_byte_length_def Let_def)
qed

lemma sample_pair: "list_all plain_pair [(''A'', ''b # c'')]"
  by (simp add: plain_pair_def allowed_key_def environment_key_pattern_def identifier_pattern_def
      environment_forbidden_keys_def dot_value_ok_def environment_value_byte_limit_def
      utf8_length_def forbidden_control_character_def char_class_defs)

lemma sample_sizes:
  "utf8_length (render_dot_file [(''A'', ''b # c'')]) \<le> environment_file_byte_limit"
  "(9::nat) \<le> environment_file_byte_limit"
  by (simp_all add: environment_file_byte_limit_def render_dot_file_def dot_line_def dot_quote_def
      escape_char_def utf8_length_def code_def)

text \<open>
  a dotenv file that loads gives a map without duplicate keys in which every key
  matches the key pattern and is not a reserved JavaScript name, and every value is a
  string within the byte limit and free of control characters.
\<close>

theorem load_dot_environment_allow_list:
  assumes "load_dot_environment file_path stat_size content = Inr env"
  shows "env_ok env \<and> (\<forall>v \<in> ran (map_of env). string_value v)"
proof -
  obtain t where "load_dot_lines file_path 0 (split_on newline t) [] = Inr env"
    using assms by (auto simp: load_dot_environment_def split: sum.splits)
  then show ?thesis by (rule load_dot_lines_ok) simp_all
qed

theorem load_dot_environment_allow_list_witness:
  "\<exists>env. load_dot_environment ''.env'' 9 (render_dot_file [(''A'', ''b # c'')]) = Inr env \<and>
     env_ok env \<and> (\<forall>v \<in> ran (map_of env). string_value v)"
  using load_rendered [OF sample_pair sample_sizes] load_dot_environment_allow_list by blast

text \<open>
  C34: the double-quoted rendering of a dotenv file is read back exactly: every pair whose
  key is allowed and whose value passes the value checks and has no carriage return comes
  back, in order, later pairs overriding earlier ones.
\<close>

theorem dot_environment_round_trip:
  assumes "list_all plain_pair kvs"
    and "utf8_length (render_dot_file kvs) \<le> environment_file_byte_limit"
    and "stat_size \<le> environment_file_byte_limit"
  shows "load_dot_environment file_path stat_size (render_dot_file kvs) =
    Inr (js_assign [] (map (\<lambda>(k, v). (k, EScalar (SStr v))) kvs))"
  using assms by (rule load_rendered)

theorem dot_environment_round_trip_witness:
  "load_dot_environment ''.env'' 9 (render_dot_file [(''A'', ''b # c'')]) =
   Inr [(''A'', EScalar (SStr ''b # c''))]"
  using dot_environment_round_trip [OF sample_pair sample_sizes, of "''.env''"] by simp

text \<open>
  after a merge, every key has the value of the last given map that defines it: CLI
  overrides win over the definition's environment, which wins over the dotenv file.
\<close>

theorem merge_environment_last_wins:
  assumes "list_all (\<lambda>e. case e of None \<Rightarrow> True | Some env \<Rightarrow> wf_object env) envs"
  shows "map_of (merge_environment envs) k = last_binding envs k"
  using assms by (rule merge_environment_last)

theorem merge_environment_last_wins_witness:
  "map_of (merge_environment
     [Some [(''A'', EScalar (SStr ''file''))], None, Some [(''A'', EScalar (SStr ''cli''))]]) ''A'' =
   last_binding
     [Some [(''A'', EScalar (SStr ''file''))], None, Some [(''A'', EScalar (SStr ''cli''))]] ''A''"
  by (rule merge_environment_last_wins) (simp add: wf_object_def js_keys_def)

end
