(* ===== verification/HostLabel.thy ===== *)
theory HostLabel
  imports JsString
begin

text \<open>
  Host labels (\<^verbatim>\<open>hostValidation.ts\<close>) and TCP ports (\<^verbatim>\<open>isValidTcpPort\<close>). The label is
  written into known_hosts lines, so a valid one must not be able to alter such a line.
\<close>

datatype host_validation_failure = HvControl | HvEmpty | HvMetacharacter | HvType | HvWhitespace

definition contains_control_character :: "string \<Rightarrow> bool" where
  "contains_control_character value = list_ex (\<lambda>c. code c \<le> 31 \<or> code c = 127) value"

definition host_metacharacter :: "char \<Rightarrow> bool" where
  "host_metacharacter c \<longleftrightarrow> c = CHR ''*'' \<or> c = CHR '','' \<or> c = CHR ''?'' \<or> c = CHR ''!''"

text \<open>
  The value is typed \<^verbatim>\<open>unknown\<close> in the source: \<open>None\<close> stands for a value that is not
  a string.
\<close>

definition validate_host_label :: "string option \<Rightarrow> host_validation_failure option" where
  "validate_host_label value =
     (case value of
        None \<Rightarrow> Some HvType
      | Some s \<Rightarrow>
          (if s = [] then Some HvEmpty
           else if contains_control_character s then Some HvControl
           else if list_ex js_space s then Some HvWhitespace
           else if list_ex host_metacharacter s then Some HvMetacharacter
           else None))"

definition describe_host_validation_failure :: "host_validation_failure \<Rightarrow> string" where
  "describe_host_validation_failure failure =
     (case failure of
        HvControl \<Rightarrow> ''must not contain control characters''
      | HvEmpty \<Rightarrow> ''must be a non-empty string''
      | HvMetacharacter \<Rightarrow> ''must not contain OpenSSH known_hosts pattern metacharacters''
      | HvType \<Rightarrow> ''must be a string''
      | HvWhitespace \<Rightarrow> ''must not contain whitespace'')"

definition max_tcp_port :: int where
  "max_tcp_port = 65535"

definition is_valid_tcp_port :: "int \<Rightarrow> bool" where
  "is_valid_tcp_port value \<longleftrightarrow> value \<ge> 1 \<and> value \<le> max_tcp_port"

definition host_char_ok :: "char \<Rightarrow> bool" where
  "host_char_ok c \<longleftrightarrow>
     31 < code c \<and> code c \<noteq> 127 \<and> \<not> js_space c \<and> \<not> host_metacharacter c"

lemma validate_host_label_None:
  "validate_host_label (Some s) = None \<longleftrightarrow> s \<noteq> [] \<and> (\<forall>c \<in> set s. host_char_ok c)"
  unfolding validate_host_label_def contains_control_character_def host_char_ok_def
  by (simp add: list_ex_iff) (metis not_le)

lemma valid_host_label_separators:
  assumes "validate_host_label (Some s) = None"
  shows "CHR '' '' \<notin> set s" "CHR '','' \<notin> set s" "CHR 0x0A \<notin> set s" "CHR ''*'' \<notin> set s"
    "s \<noteq> []"
proof -
  have ok: "\<forall>c \<in> set s. host_char_ok c" and "s \<noteq> []"
    using assms unfolding validate_host_label_None by auto
  have "\<not> host_char_ok (CHR '' '')" "\<not> host_char_ok (CHR '','')" "\<not> host_char_ok (CHR 0x0A)"
    "\<not> host_char_ok (CHR ''*'')"
    by (simp_all add: host_char_ok_def char_class_defs host_metacharacter_def)
  with ok show "CHR '' '' \<notin> set s" "CHR '','' \<notin> set s" "CHR 0x0A \<notin> set s" "CHR ''*'' \<notin> set s"
    by blast+
  show "s \<noteq> []" by fact
qed

subsection \<open>Properties\<close>

text \<open>
  a label passes the validation exactly when it is not empty and has no control
  character, white space or known_hosts metacharacter; so a known_hosts line built from it
  cannot gain a field, a pattern or a second line.
\<close>

theorem host_label_safe:
  "validate_host_label (Some s) = None \<longleftrightarrow> s \<noteq> [] \<and> list_all host_char_ok s"
  by (simp add: validate_host_label_None list_all_iff)

end
