(* ===== verification/Meta.thy ===== *)
theory Meta
  imports Environment HostLabel
begin

text \<open>
  Typed meta entries (\<^verbatim>\<open>meta.ts\<close>, \<^verbatim>\<open>environmentResolutionPolicy.ts\<close>): how modules pass
  values to later modules and requests to the runner. The field types of an entry are
  those TypeScript declares; the run-time checks that the types do not already imply
  (non-empty name, resolution policy, port range, host label) are modelled, with their
  messages. The resolvers that \<^verbatim>\<open>mergeEnvironmentFromMeta\<close> installs are modelled twice:
  as closures in the environment, and as the state machine of their promise cache.
\<close>

datatype meta_entry =
    MetaEnv env_entry
  | MetaSshdPort int
  | MetaSystemHost string
  | MetaSystemReboot

fun is_environment_meta_entry :: "meta_entry \<Rightarrow> bool" where
  "is_environment_meta_entry (MetaEnv _) = True"
| "is_environment_meta_entry _ = False"

fun is_sshd_port_meta_entry :: "meta_entry \<Rightarrow> bool" where
  "is_sshd_port_meta_entry (MetaSshdPort _) = True"
| "is_sshd_port_meta_entry _ = False"

fun is_system_host_meta_entry :: "meta_entry \<Rightarrow> bool" where
  "is_system_host_meta_entry (MetaSystemHost _) = True"
| "is_system_host_meta_entry _ = False"

fun is_system_reboot_meta_entry :: "meta_entry \<Rightarrow> bool" where
  "is_system_reboot_meta_entry MetaSystemReboot = True"
| "is_system_reboot_meta_entry _ = False"

subsection \<open>Constructors and validation\<close>

definition per_access_resolution :: string where
  "per_access_resolution = ''per-access''"

fun closure_marked :: "closure \<Rightarrow> bool" where
  "closure_marked (UserFn _ m) = m"
| "closure_marked (ConstFn _) = False"
| "closure_marked (WrapFn _ m) = m"
| "closure_marked (MemoFn _) = False"
| "closure_marked (PerAccessFn _) = True"

definition has_per_access_resolution :: "env_value \<Rightarrow> bool" where
  "has_per_access_resolution value =
     (case value of EScalar _ \<Rightarrow> False | EFun f \<Rightarrow> closure_marked f)"

definition has_valid_meta_name :: "string \<Rightarrow> bool" where
  "has_valid_meta_name name \<longleftrightarrow> length name > 0"

definition infer_meta_value_type :: "env_value \<Rightarrow> value_type option \<Rightarrow> value_type" where
  "infer_meta_value_type value explicit =
     (case explicit of
        Some t \<Rightarrow> t
      | None \<Rightarrow> (case value of EScalar (SBool _) \<Rightarrow> VBoolean | EScalar (SNum _) \<Rightarrow> VNumber | _ \<Rightarrow> VString))"

definition normalize_meta_value_resolver :: "env_value \<Rightarrow> closure" where
  "normalize_meta_value_resolver value =
     (case value of
        EFun f \<Rightarrow> WrapFn f (has_per_access_resolution value)
      | EScalar s \<Rightarrow> ConstFn s)"

definition environment_meta :: "string \<Rightarrow> env_value \<Rightarrow> value_type option \<Rightarrow> env_entry result" where
  "environment_meta name value value_type =
     (if \<not> has_valid_meta_name name
      then Inl (TypeErr ''Meta env entry name must be a non-empty string'')
      else Inr (EnvEntry name
             (if has_per_access_resolution value then Some per_access_resolution else None)
             (normalize_meta_value_resolver value)
             (infer_meta_value_type value value_type)
             (Some (value_type \<noteq> None))))"

definition sshd_port_meta :: "int \<Rightarrow> meta_entry result" where
  "sshd_port_meta port =
     (if \<not> is_valid_tcp_port port
      then Inl (TypeErr ''Meta entry sshd.port requires an integer port between 1 and 65535'')
      else Inr (MetaSshdPort port))"

definition system_host_meta :: "string \<Rightarrow> meta_entry result" where
  "system_host_meta host =
     (case validate_host_label (Some host) of
        Some failure \<Rightarrow>
          Inl (TypeErr (''Meta entry system.host invalid host: ''
                 @ describe_host_validation_failure failure))
      | None \<Rightarrow> Inr (MetaSystemHost host))"

definition system_reboot_meta :: meta_entry where
  "system_reboot_meta = MetaSystemReboot"

definition assert_valid_resolution_policy :: "string option \<Rightarrow> unit result" where
  "assert_valid_resolution_policy resolution =
     (if resolution \<noteq> None \<and> resolution \<noteq> Some per_access_resolution
      then Inl (TypeErr ''Invalid env meta entry: resolution must be per-access or undefined'')
      else Inr ())"

definition assert_valid_environment_meta_entry :: "env_entry \<Rightarrow> unit result" where
  "assert_valid_environment_meta_entry candidate =
     (case assert_valid_resolution_policy (ee_resolution candidate) of
        Inl e \<Rightarrow> Inl e
      | Inr _ \<Rightarrow>
          (if \<not> has_valid_meta_name (ee_name candidate)
           then Inl (TypeErr ''Invalid env meta entry: name must be a non-empty string'')
           else Inr ()))"

definition assert_valid_sshd_port_meta_entry :: "int \<Rightarrow> unit result" where
  "assert_valid_sshd_port_meta_entry port =
     (if \<not> is_valid_tcp_port port
      then Inl (TypeErr ''Invalid sshd.port meta entry: port must be an integer between 1 and 65535'')
      else Inr ())"

definition assert_valid_system_host_meta_entry :: "string \<Rightarrow> unit result" where
  "assert_valid_system_host_meta_entry host =
     (case validate_host_label (Some host) of
        Some failure \<Rightarrow>
          Inl (TypeErr (''Invalid system.host meta entry: host ''
                 @ describe_host_validation_failure failure))
      | None \<Rightarrow> Inr ())"

definition assert_valid_module_meta_entry :: "meta_entry \<Rightarrow> unit result" where
  "assert_valid_module_meta_entry entry =
     (case entry of
        MetaEnv e \<Rightarrow> assert_valid_environment_meta_entry e
      | MetaSshdPort p \<Rightarrow> assert_valid_sshd_port_meta_entry p
      | MetaSystemHost h \<Rightarrow> assert_valid_system_host_meta_entry h
      | MetaSystemReboot \<Rightarrow> Inr ())"

fun assert_valid_entries :: "meta_entry list \<Rightarrow> unit result" where
  "assert_valid_entries [] = Inr ()"
| "assert_valid_entries (entry # entries) =
     (case assert_valid_module_meta_entry entry of
        Inl e \<Rightarrow> Inl e
      | Inr _ \<Rightarrow> assert_valid_entries entries)"

definition assert_valid_module_meta_entries :: "meta_entry list option \<Rightarrow> unit result" where
  "assert_valid_module_meta_entries entries =
     (case entries of None \<Rightarrow> Inr () | Some es \<Rightarrow> assert_valid_entries es)"

subsection \<open>Names and the merge\<close>

definition is_allowed_meta_environment_name :: "string \<Rightarrow> bool" where
  "is_allowed_meta_environment_name name =
     (if length name = 0 then False
      else list_all identifier_pattern (split_on (CHR ''.'') name))"

definition assert_allowed_environment_meta_name :: "string \<Rightarrow> unit result" where
  "assert_allowed_environment_meta_name name =
     (if \<not> is_allowed_meta_environment_name name
      then Inl (GenericError (''Invalid env meta name '' @ json_stringify name
             @ '': expected [A-Za-z_]'' @ [CHR 0x5C] @ ''w*('' @ [CHR 0x5C] @ ''.[A-Za-z_]''
             @ [CHR 0x5C] @ ''w*)*''))
      else if name \<in> set environment_forbidden_keys
      then Inl (GenericError (''Forbidden env meta entry name: '' @ json_stringify name
             @ '' (reserved JavaScript identifier)''))
      else Inr ())"

definition meta_resolver :: "env_entry \<Rightarrow> closure" where
  "meta_resolver entry =
     (if ee_resolution entry = Some per_access_resolution \<or> closure_marked (ee_resolve entry)
      then PerAccessFn entry else MemoFn entry)"

fun merge_meta_entries :: "environment \<Rightarrow> meta_entry list \<Rightarrow> environment result" where
  "merge_meta_entries environment [] = Inr environment"
| "merge_meta_entries environment (MetaEnv entry # entries) =
     (case assert_valid_resolution_policy (ee_resolution entry) of
        Inl e \<Rightarrow> Inl e
      | Inr _ \<Rightarrow>
          (case assert_allowed_environment_meta_name (ee_name entry) of
             Inl e \<Rightarrow> Inl e
           | Inr _ \<Rightarrow>
               merge_meta_entries
                 (AList.update (ee_name entry) (EFun (meta_resolver entry)) environment) entries))"
| "merge_meta_entries environment (_ # entries) = merge_meta_entries environment entries"

definition merge_environment_from_meta ::
  "environment \<Rightarrow> meta_entry list option \<Rightarrow> environment result" where
  "merge_environment_from_meta environment entries =
     (case entries of
        None \<Rightarrow> Inr environment
      | Some [] \<Rightarrow> Inr environment
      | Some es \<Rightarrow> merge_meta_entries (js_assign [] environment) es)"

fun environment_to_meta_entries :: "environment \<Rightarrow> meta_entry list result" where
  "environment_to_meta_entries [] = Inr []"
| "environment_to_meta_entries ((name, value) # rest) =
     (case environment_meta name value None of
        Inl e \<Rightarrow> Inl e
      | Inr entry \<Rightarrow>
          (case environment_to_meta_entries rest of
             Inl e \<Rightarrow> Inl e
           | Inr entries \<Rightarrow> Inr (MetaEnv entry # entries)))"

subsection \<open>Invariant of the merge\<close>

definition meta_key_ok :: "string \<Rightarrow> bool" where
  "meta_key_ok k \<longleftrightarrow> is_allowed_meta_environment_name k \<and> k \<notin> set environment_forbidden_keys"

lemma assert_allowed_environment_meta_name_Inr:
  "assert_allowed_environment_meta_name name = Inr u \<longleftrightarrow> meta_key_ok name"
  by (auto simp: assert_allowed_environment_meta_name_def meta_key_ok_def)

lemma allowed_key_meta_key_ok: "allowed_key k \<Longrightarrow> meta_key_ok k"
proof -
  assume k: "allowed_key k"
  then have "list_all is_word k" "k \<noteq> []" using allowed_key_chars [of k] by blast+
  moreover have "\<not> is_word (CHR ''.'')" by (simp add: char_class_defs)
  ultimately have "split_on (CHR ''.'') k = [k]"
    by (intro split_on_id) (auto simp: list_all_iff)
  then show ?thesis
    using k \<open>k \<noteq> []\<close>
    by (simp add: meta_key_ok_def is_allowed_meta_environment_name_def allowed_key_def
        environment_key_pattern_def)
qed

lemma merge_meta_entries_cons:
  "merge_meta_entries env (entry # es) = Inr env' \<Longrightarrow>
   merge_meta_entries env es = Inr env' \<or>
   (\<exists>e. entry = MetaEnv e \<and> meta_key_ok (ee_name e) \<and>
      merge_meta_entries (AList.update (ee_name e) (EFun (meta_resolver e)) env) es = Inr env')"
  by (cases entry)
     (auto split: sum.splits simp: assert_allowed_environment_meta_name_Inr)

lemma merge_meta_entries_keys:
  assumes "merge_meta_entries env es = Inr env'" and "wf_object env"
  shows "wf_object env' \<and> set (js_keys env) \<subseteq> set (js_keys env') \<and>
    list_all (\<lambda>k. meta_key_ok k \<or> k \<in> set (js_keys env)) (js_keys env')"
  using assms
proof (induction es arbitrary: env)
  case Nil
  then show ?case by (auto simp: list_all_iff)
next
  case (Cons entry es)
  from merge_meta_entries_cons [OF Cons.prems(1)] show ?case
  proof (elim disjE exE conjE)
    assume "merge_meta_entries env es = Inr env'"
    then show ?thesis using Cons by blast
  next
    fix e
    let ?env1 = "AList.update (ee_name e) (EFun (meta_resolver e)) env"
    assume ok: "meta_key_ok (ee_name e)" and rest: "merge_meta_entries ?env1 es = Inr env'"
    show ?thesis
      using Cons.IH [OF rest] Cons.prems(2) ok by (auto simp: list_all_iff js_keys_update)
  qed
qed

lemma merge_environment_from_meta_keys:
  assumes "merge_environment_from_meta env entries = Inr env'" and "wf_object env"
  shows "wf_object env' \<and> set (js_keys env) \<subseteq> set (js_keys env') \<and>
    list_all (\<lambda>k. meta_key_ok k \<or> k \<in> set (js_keys env)) (js_keys env')"
  using assms merge_meta_entries_keys [of env _ env']
  by (auto simp: merge_environment_from_meta_def js_assign_copy list_all_iff
      split: option.splits list.splits)

lemma merge_meta_entries_ignores_control:
  "merge_meta_entries env (filter is_environment_meta_entry es) = merge_meta_entries env es"
proof (induction es arbitrary: env)
  case (Cons entry es)
  then show ?case by (cases entry) (auto split: sum.splits)
qed simp

lemma merge_meta_entries_append:
  "merge_meta_entries env (es @ fs) =
     (case merge_meta_entries env es of Inl e \<Rightarrow> Inl e | Inr env' \<Rightarrow> merge_meta_entries env' fs)"
proof (induction es arbitrary: env)
  case (Cons entry es)
  then show ?case by (cases entry) (auto split: sum.splits)
qed simp

text \<open>A merge of well-formed maps is the sequential merge of the entries.\<close>

lemma merge_environment_from_meta_eq:
  "wf_object env \<Longrightarrow>
   merge_environment_from_meta env entries =
     (case entries of None \<Rightarrow> Inr env | Some es \<Rightarrow> merge_meta_entries env es)"
  by (auto simp: merge_environment_from_meta_def js_assign_copy split: option.splits list.splits)

subsection \<open>Properties\<close>

text \<open>
  merging module meta into an environment keeps every key and adds only keys that are
  dotted identifiers and not reserved JavaScript names; no key is duplicated.
\<close>

theorem meta_merge_key_invariant:
  assumes "merge_environment_from_meta env entries = Inr env'" and "wf_object env"
  shows "wf_object env' \<and> set (js_keys env) \<subseteq> set (js_keys env') \<and>
    list_all (\<lambda>k. meta_key_ok k \<or> k \<in> set (js_keys env)) (js_keys env')"
  using assms by (rule merge_environment_from_meta_keys)

theorem meta_merge_key_invariant_witness:
  "\<exists>env'. merge_environment_from_meta [(''A'', EScalar (SBool True))]
      (Some [MetaEnv (EnvEntry ''db.url'' None (ConstFn (SStr ''x'')) VString None), MetaSshdPort 22])
      = Inr env' \<and> wf_object env' \<and> set (js_keys env') \<supseteq> {''A''} \<and>
      list_all (\<lambda>k. meta_key_ok k \<or> k \<in> {''A''}) (js_keys env')"
proof -
  have "\<exists>env'. merge_environment_from_meta [(''A'', EScalar (SBool True))]
      (Some [MetaEnv (EnvEntry ''db.url'' None (ConstFn (SStr ''x'')) VString None), MetaSshdPort 22])
      = Inr env'"
    by (simp add: merge_environment_from_meta_def assert_valid_resolution_policy_def
        assert_allowed_environment_meta_name_def is_allowed_meta_environment_name_def
        identifier_pattern_def environment_forbidden_keys_def char_class_defs)
  moreover have "wf_object [(''A'', EScalar (SBool True))]"
    by (simp add: wf_object_def js_keys_def)
  ultimately show ?thesis
    using meta_merge_key_invariant by (fastforce simp: js_keys_def)
qed

text \<open>
  control-plane entries (ports, hosts, reboots) never reach the environment, and a merge
  of two lists of entries is the merge of the first and then the second.
\<close>

theorem meta_merge_ignores_control_plane:
  "merge_meta_entries env (filter is_environment_meta_entry (es @ fs)) =
     (case merge_meta_entries env es of Inl e \<Rightarrow> Inl e | Inr env' \<Rightarrow> merge_meta_entries env' fs)"
  by (simp only: merge_meta_entries_ignores_control merge_meta_entries_append)

end
