(* ===== verification/EnvResolver.thy ===== *)
theory EnvResolver
  imports Meta
begin

text \<open>
  The promise cache inside the resolvers that \<^verbatim>\<open>mergeEnvironmentFromMeta\<close> installs:
  \<^verbatim>\<open>createMemoizedEnvironmentResolver\<close> keeps a resolved promise and forgets a rejected
  one; \<^verbatim>\<open>createPerAccessEnvironmentResolver\<close> keeps a promise only while it is in flight.
  An access and the settlement of the provider's promise are separate events, since other
  accesses can run between them.
\<close>

datatype raw_value = RawScalar scalar | RawOther string

datatype cached_promise = InFlight | Fulfilled scalar

record resolver_state =
  cached :: "cached_promise option"
  provider_calls :: nat

datatype resolver_event = Access | Settle "exn + raw_value"

definition resolver_init :: resolver_state where
  "resolver_init = \<lparr>cached = None, provider_calls = 0\<rparr>"

definition type_name :: "value_type \<Rightarrow> string" where
  "type_name t = (case t of VBoolean \<Rightarrow> ''boolean'' | VNumber \<Rightarrow> ''number'' | VString \<Rightarrow> ''string'')"

definition raw_type :: "raw_value \<Rightarrow> string" where
  "raw_type r = (case r of RawScalar s \<Rightarrow> type_name (scalar_type s) | RawOther t \<Rightarrow> t)"

definition validate_resolved_meta_value ::
  "raw_value \<Rightarrow> value_type \<Rightarrow> bool \<Rightarrow> string \<Rightarrow> scalar result" where
  "validate_resolved_meta_value r declared enforce entry_key =
     (case r of
        RawOther t \<Rightarrow>
          Inl (TypeErr (''Env meta entry '' @ json_stringify entry_key @ '' resolved to typeof ''
                 @ t @ '', expected boolean, number, or string''))
      | RawScalar s \<Rightarrow>
          (if enforce \<and> scalar_type s \<noteq> declared
           then Inl (TypeErr (''Env meta entry '' @ json_stringify entry_key @ '' resolved to typeof ''
                 @ type_name (scalar_type s) @ '', expected '' @ type_name declared))
           else Inr s))"

definition settled_value :: "env_entry \<Rightarrow> exn + raw_value \<Rightarrow> scalar result" where
  "settled_value entry r =
     (case r of
        Inl e \<Rightarrow> Inl e
      | Inr raw \<Rightarrow>
          validate_resolved_meta_value raw (ee_value_type entry) (ee_explicit entry \<noteq> Some False)
            (ee_name entry))"

fun memoized_resolver_step ::
  "env_entry \<Rightarrow> resolver_state \<Rightarrow> resolver_event \<Rightarrow> resolver_state" where
  "memoized_resolver_step entry s Access =
     (if cached s \<noteq> None then s
      else s\<lparr>cached := Some InFlight, provider_calls := Suc (provider_calls s)\<rparr>)"
| "memoized_resolver_step entry s (Settle r) =
     (if cached s = Some InFlight
      then (case settled_value entry r of
              Inl _ \<Rightarrow> s\<lparr>cached := None\<rparr>
            | Inr v \<Rightarrow> s\<lparr>cached := Some (Fulfilled v)\<rparr>)
      else s)"

fun per_access_resolver_step ::
  "env_entry \<Rightarrow> resolver_state \<Rightarrow> resolver_event \<Rightarrow> resolver_state" where
  "per_access_resolver_step entry s Access =
     (if cached s \<noteq> None then s
      else s\<lparr>cached := Some InFlight, provider_calls := Suc (provider_calls s)\<rparr>)"
| "per_access_resolver_step entry s (Settle r) =
     (if cached s = Some InFlight then s\<lparr>cached := None\<rparr> else s)"

fun resolver_run ::
  "(resolver_state \<Rightarrow> resolver_event \<Rightarrow> resolver_state) \<Rightarrow> resolver_state
     \<Rightarrow> resolver_event list \<Rightarrow> resolver_state" where
  "resolver_run step s [] = s"
| "resolver_run step s (ev # evs) = resolver_run step (step s ev) evs"

fun failed_settles :: "env_entry \<Rightarrow> resolver_event list \<Rightarrow> nat" where
  "failed_settles entry [] = 0"
| "failed_settles entry (Access # evs) = failed_settles entry evs"
| "failed_settles entry (Settle r # evs) =
     (case settled_value entry r of Inl _ \<Rightarrow> 1 | Inr _ \<Rightarrow> 0) + failed_settles entry evs"

fun accesses :: "resolver_event list \<Rightarrow> nat" where
  "accesses [] = 0"
| "accesses (Access # evs) = Suc (accesses evs)"
| "accesses (Settle r # evs) = accesses evs"

lemma resolver_run_append:
  "resolver_run step s (xs @ ys) = resolver_run step (resolver_run step s xs) ys"
  by (induction xs arbitrary: s) auto

lemma memo_step_fulfilled:
  "cached s = Some (Fulfilled v) \<Longrightarrow> memoized_resolver_step entry s ev = s"
  by (cases ev) auto

lemma memo_fulfilled_stays:
  "cached s = Some (Fulfilled v) \<Longrightarrow> resolver_run (memoized_resolver_step entry) s evs = s"
  by (induction evs) (simp_all add: memo_step_fulfilled)

definition memo_debt :: "resolver_state \<Rightarrow> nat" where
  "memo_debt s = (if cached s = None then 0 else 1)"

lemma memo_calls_bound:
  "provider_calls (resolver_run (memoized_resolver_step entry) s evs) + memo_debt s
   \<le> provider_calls s + failed_settles entry evs + 1"
proof (induction evs arbitrary: s)
  case (Cons ev evs)
  show ?case
  proof (cases ev)
    case Access
    show ?thesis
      using Cons.IH [of "memoized_resolver_step entry s Access"]
      by (auto simp: Access memo_debt_def split: if_splits)
  next
    case (Settle r)
    show ?thesis
      using Cons.IH [of "memoized_resolver_step entry s (Settle r)"]
      by (auto simp: Settle memo_debt_def split: if_splits sum.splits)
  qed
qed (simp add: memo_debt_def)

lemma per_access_calls_bound:
  "provider_calls (resolver_run (per_access_resolver_step entry) s evs)
     \<le> provider_calls s + accesses evs"
proof (induction evs arbitrary: s)
  case (Cons ev evs)
  show ?case
    using Cons.IH [of "per_access_resolver_step entry s ev"]
    by (cases ev) (auto split: if_splits)
qed simp

definition not_fulfilled :: "resolver_state \<Rightarrow> bool" where
  "not_fulfilled s \<longleftrightarrow> cached s = None \<or> cached s = Some InFlight"

lemma per_access_never_fulfilled:
  "not_fulfilled s \<Longrightarrow> not_fulfilled (resolver_run (per_access_resolver_step entry) s evs)"
proof (induction evs arbitrary: s)
  case (Cons ev evs)
  then show ?case
    by (cases ev) (auto simp: not_fulfilled_def)
qed simp

subsection \<open>Properties\<close>

text \<open>
  a memoized resolver calls its provider at most once more than its resolutions failed,
  whatever the interleaving of accesses and settlements.
\<close>

theorem memoized_resolver_call_bound:
  "provider_calls (resolver_run (memoized_resolver_step entry) resolver_init evs)
     \<le> failed_settles entry evs + 1"
  using memo_calls_bound [of entry resolver_init evs] by (simp add: resolver_init_def)

text \<open>
  once a memoized resolver has a value it keeps it and never calls the provider again; a
  per-access resolver never keeps a value at all.
\<close>

theorem memoized_value_is_final:
  assumes "cached (resolver_run (memoized_resolver_step entry) resolver_init evs) = Some (Fulfilled v)"
  shows "resolver_run (memoized_resolver_step entry) resolver_init (evs @ later) =
           resolver_run (memoized_resolver_step entry) resolver_init evs \<and>
         cached (resolver_run (per_access_resolver_step entry) resolver_init evs) \<noteq> Some (Fulfilled v)"
proof
  show "resolver_run (memoized_resolver_step entry) resolver_init (evs @ later) =
      resolver_run (memoized_resolver_step entry) resolver_init evs"
    using memo_fulfilled_stays [OF assms] by (simp add: resolver_run_append)
  have "not_fulfilled (resolver_run (per_access_resolver_step entry) resolver_init evs)"
    by (rule per_access_never_fulfilled) (simp add: not_fulfilled_def resolver_init_def)
  then show "cached (resolver_run (per_access_resolver_step entry) resolver_init evs) \<noteq> Some (Fulfilled v)"
    by (auto simp: not_fulfilled_def)
qed

theorem memoized_value_is_final_witness:
  "resolver_run (memoized_resolver_step (EnvEntry ''A'' None (ConstFn (SStr ''x'')) VString None))
     resolver_init ([Access, Settle (Inl (GenericError ''no'')), Access, Settle (Inr (RawScalar (SStr ''x'')))]
       @ [Access, Access]) =
   \<lparr>cached = Some (Fulfilled (SStr ''x'')), provider_calls = 2\<rparr>"
proof -
  let ?evs = "[Access, Settle (Inl (GenericError ''no'')), Access, Settle (Inr (RawScalar (SStr ''x'')))]"
  have "resolver_run (memoized_resolver_step (EnvEntry ''A'' None (ConstFn (SStr ''x'')) VString None))
     resolver_init ?evs = \<lparr>cached = Some (Fulfilled (SStr ''x'')), provider_calls = 2\<rparr>"
    by (simp add: resolver_init_def settled_value_def validate_resolved_meta_value_def scalar_type_def)
  then show ?thesis
    using memoized_value_is_final
      [of "EnvEntry ''A'' None (ConstFn (SStr ''x'')) VString None" ?evs "SStr ''x''" "[Access, Access]"]
    by simp
qed

end
