(* ===== verification/Orchestration.thy ===== *)
theory Orchestration
  imports Meta
begin

text \<open>
  The data shared by all parts of the orchestration (\<^verbatim>\<open>types.ts\<close>, the hook types of
  \<^verbatim>\<open>signalOrchestration.ts\<close> and \<^verbatim>\<open>recipe.ts\<close>, \<^verbatim>\<open>RunStats\<close> of \<^verbatim>\<open>runner.ts\<close>): statuses,
  results, modules, and the state that a run mutates.

  A module is the source's object: its \<^verbatim>\<open>check\<close> and \<^verbatim>\<open>apply\<close> are arbitrary effects on the
  whole state (user code), a recipe also carries its children and signals. The state has
  the world outside the process (\<open>world\<close>, a type parameter), the SSH session as the
  runner sees it, the received shutdown signal, the run statistics, the guard memos of
  \<^verbatim>\<open>when(...)\<close> blocks and the calls made to the output layer.

  A shutdown signal is observed at macrotask boundaries only, that is while a module's
  effect or a connection attempt is awaited; those effects may set \<open>received\<close>. The
  microtask waits of the orchestration code itself cannot observe one.
\<close>

subsection \<open>Statuses, results and steps\<close>

datatype module_status = StChanged | StFailed | StOk | StSkipped

datatype check_result = CheckOk | NeedsApply

datatype shutdown_signal = SIGINT | SIGTERM

record module_result =
  mr_status :: module_status
  mr_meta :: "meta_entry list option"
  mr_flush :: bool
  mr_stop :: bool
  mr_detail :: "string option"
  mr_dry_run_detail :: "string option"
  mr_diff :: "string option"
  mr_error :: "exn option"

definition plain_result :: "module_status \<Rightarrow> module_result" where
  "plain_result status =
     \<lparr>mr_status = status, mr_meta = None, mr_flush = False, mr_stop = False, mr_detail = None,
      mr_dry_run_detail = None, mr_diff = None, mr_error = None\<rparr>"

text \<open>\<open>failed_result\<close> is \<^verbatim>\<open>failed(message)\<close> of \<^verbatim>\<open>moduleFailure.ts\<close>.\<close>

definition failed_result :: "string \<Rightarrow> module_result" where
  "failed_result message = (plain_result StFailed)\<lparr>mr_error := Some (GenericError message)\<rparr>"

record orchestration_step =
  os_env :: environment
  os_meta :: "meta_entry list option"
  os_status :: module_status
  os_flush :: bool
  os_stop :: bool

subsection \<open>The state of a run\<close>

record run_stats =
  rs_changed :: nat
  rs_failed :: nat
  rs_ok :: nat
  rs_signals :: nat
  rs_skipped :: nat

definition new_run_stats :: run_stats where
  "new_run_stats = \<lparr>rs_changed = 0, rs_failed = 0, rs_ok = 0, rs_signals = 0, rs_skipped = 0\<rparr>"

definition increment_signals :: "run_stats \<Rightarrow> run_stats" where
  "increment_signals s = s\<lparr>rs_signals := Suc (rs_signals s)\<rparr>"

definition update_stats :: "module_status \<Rightarrow> run_stats \<Rightarrow> run_stats" where
  "update_stats status s =
     (case status of
        StChanged \<Rightarrow> s\<lparr>rs_changed := Suc (rs_changed s)\<rparr>
      | StFailed \<Rightarrow> s\<lparr>rs_failed := Suc (rs_failed s)\<rparr>
      | StOk \<Rightarrow> s\<lparr>rs_ok := Suc (rs_ok s)\<rparr>
      | StSkipped \<Rightarrow> s\<lparr>rs_skipped := Suc (rs_skipped s)\<rparr>)"

text \<open>
  The fields of \<^verbatim>\<open>SshConnectionImpl\<close> that connecting, reconnecting and the runner read:
  the mutable host and port list, whether a client is attached and on which port (0 for
  none), and the state derived from that transport.
\<close>

datatype auth_method = AuthAgent | AuthPassword | AuthPrivateKey

record ssh_session =
  ss_host :: string
  ss_ports :: "int list"
  ss_client :: bool
  ss_connected_port :: int
  ss_auth_method :: "auth_method option"
  ss_agent_socket :: "string option"
  ss_sudo_probe_failed :: "exn option"
  ss_sudo_ready :: bool
  ss_credential_cache_primed :: bool
  ss_passwordless_sudo :: bool
  ss_cached_password :: "string option"
  ss_last_failure :: "(exn \<times> int) option"

text \<open>The calls into \<^verbatim>\<open>output.ts\<close> and \<^verbatim>\<open>console.error\<close>, in order.\<close>

datatype out_event =
    OutSpinner string
  | OutResult string module_status "string option" "string option"
  | OutRecipeResult string module_status "string option"
  | OutFailure exn bool
  | OutHeader string
  | OutSummary run_stats
  | OutInfo string
  | OutStderr string

record 'w run_state =
  world :: 'w
  ssh :: ssh_session
  received :: "shutdown_signal option"
  stats :: run_stats
  memos :: "nat \<Rightarrow> bool option"
  outlog :: "out_event list"

definition emit :: "out_event \<Rightarrow> 'w run_state \<Rightarrow> 'w run_state" where
  "emit e st = st\<lparr>outlog := outlog st @ [e]\<rparr>"

definition print_module_result ::
  "string \<Rightarrow> module_status \<Rightarrow> string option \<Rightarrow> string option \<Rightarrow> 'w run_state \<Rightarrow> 'w run_state" where
  "print_module_result name status detail diff = emit (OutResult name status detail diff)"

definition print_recipe_module_result ::
  "string \<Rightarrow> module_status \<Rightarrow> string option \<Rightarrow> 'w run_state \<Rightarrow> 'w run_state" where
  "print_recipe_module_result name status detail = emit (OutRecipeResult name status detail)"

definition print_command_failure :: "exn \<Rightarrow> bool \<Rightarrow> 'w run_state \<Rightarrow> 'w run_state" where
  "print_command_failure e verbose = emit (OutFailure e verbose)"

definition start_module_spinner :: "string \<Rightarrow> 'w run_state \<Rightarrow> 'w run_state" where
  "start_module_spinner name = emit (OutSpinner name)"

definition print_recipe_header :: "string \<Rightarrow> 'w run_state \<Rightarrow> 'w run_state" where
  "print_recipe_header name = emit (OutHeader name)"

subsection \<open>Modules\<close>

text \<open>\<open>Connection\<close> is the run's SSH connection, \<open>NoConnection\<close> the \<^verbatim>\<open>null\<close> of local modules.\<close>

datatype connection = NoConnection | Connection

record 'w signal_hooks =
  on_signal_started :: "'w run_state \<Rightarrow> 'w run_state"
  on_signal_finished :: "module_status \<Rightarrow> 'w run_state \<Rightarrow> 'w run_state"

type_synonym 'w step_hook = "orchestration_step \<Rightarrow> (unit, 'w run_state) effect"

text \<open>
  The optional third argument of \<^verbatim>\<open>apply\<close> and \<^verbatim>\<open>_applyDryRun\<close>. \<open>ao_shutdown\<close> tells
  whether the runner's shutdown getter was passed; without it a composite uses
  \<^verbatim>\<open>() => null\<close>.
\<close>

record 'w apply_options =
  ao_diff :: bool
  ao_on_child_step :: "'w step_hook option"
  ao_on_signal_step :: "'w step_hook option"
  ao_shutdown :: bool
  ao_signal_hooks :: "'w signal_hooks option"
  ao_verbose :: bool

definition no_options :: "'w apply_options" where
  "no_options =
     \<lparr>ao_diff = False, ao_on_child_step = None, ao_on_signal_step = None, ao_shutdown = False,
      ao_signal_hooks = None, ao_verbose = False\<rparr>"

type_synonym 'w check_fn = "connection \<Rightarrow> environment \<Rightarrow> (check_result, 'w run_state) effect"

type_synonym 'w apply_fn =
  "connection \<Rightarrow> environment \<Rightarrow> 'w apply_options \<Rightarrow> (module_result, 'w run_state) effect"

record 'w module_core =
  mc_name :: string
  mc_local :: bool
  mc_dry_run_blocker :: bool
  mc_dry_run_diff_producer :: bool
  mc_dry_run_meta_producer :: bool
  mc_supports_child_step_hook :: bool
  mc_apply_dry_run :: "'w apply_fn option"
  mc_prewarm_secrets :: "(unit, 'w run_state) effect option"
  mc_check :: "'w check_fn"
  mc_apply :: "'w apply_fn"

datatype (dead 'w) module =
    LeafModule "'w module_core"
  | RecipeModule "'w module_core" "'w module list" "'w module list option"

fun core :: "'w module \<Rightarrow> 'w module_core" where
  "core (LeafModule c) = c"
| "core (RecipeModule c _ _) = c"

fun is_recipe :: "'w module \<Rightarrow> bool" where
  "is_recipe (LeafModule _) = False"
| "is_recipe (RecipeModule _ _ _) = True"

abbreviation mod_name :: "'w module \<Rightarrow> string" where
  "mod_name m \<equiv> mc_name (core m)"

definition child_connection :: "'w module \<Rightarrow> connection \<Rightarrow> connection" where
  "child_connection m conn = (if mc_local (core m) then NoConnection else conn)"

definition poll_shutdown :: "bool \<Rightarrow> 'w run_state \<Rightarrow> shutdown_signal option" where
  "poll_shutdown supplied st = (if supplied then received st else None)"

text \<open>\<open>lift_result\<close> runs a check that cannot change the state but may throw.\<close>

definition lift_result :: "'a result \<Rightarrow> ('a, 's) effect" where
  "lift_result r s = (r, s)"

lemmas output_defs =
  emit_def print_module_result_def print_recipe_module_result_def print_command_failure_def start_module_spinner_def
  print_recipe_header_def

lemma emit_frame [simp, effect_simps]:
  "world (emit e st) = world st" "ssh (emit e st) = ssh st" "received (emit e st) = received st"
  "stats (emit e st) = stats st" "memos (emit e st) = memos st"
  "outlog (emit e st) = outlog st @ [e]"
  by (simp_all add: emit_def)

lemma print_module_result_frame [simp, effect_simps]:
  "world (print_module_result n s d f st) = world st"
  "ssh (print_module_result n s d f st) = ssh st"
  "received (print_module_result n s d f st) = received st"
  "stats (print_module_result n s d f st) = stats st"
  "memos (print_module_result n s d f st) = memos st"
  by (simp_all add: print_module_result_def)

lemma print_recipe_module_result_frame [simp, effect_simps]:
  "world (print_recipe_module_result n s d st) = world st"
  "ssh (print_recipe_module_result n s d st) = ssh st"
  "received (print_recipe_module_result n s d st) = received st"
  "stats (print_recipe_module_result n s d st) = stats st"
  "memos (print_recipe_module_result n s d st) = memos st"
  by (simp_all add: print_recipe_module_result_def)

lemma print_command_failure_frame [simp, effect_simps]:
  "world (print_command_failure e v st) = world st"
  "ssh (print_command_failure e v st) = ssh st"
  "received (print_command_failure e v st) = received st"
  "stats (print_command_failure e v st) = stats st"
  "memos (print_command_failure e v st) = memos st"
  by (simp_all add: print_command_failure_def)

lemma start_module_spinner_frame [simp, effect_simps]:
  "world (start_module_spinner n st) = world st"
  "ssh (start_module_spinner n st) = ssh st"
  "received (start_module_spinner n st) = received st"
  "stats (start_module_spinner n st) = stats st"
  "memos (start_module_spinner n st) = memos st"
  by (simp_all add: start_module_spinner_def)

lemma print_recipe_header_frame [simp, effect_simps]:
  "world (print_recipe_header n st) = world st"
  "ssh (print_recipe_header n st) = ssh st"
  "received (print_recipe_header n st) = received st"
  "stats (print_recipe_header n st) = stats st"
  "memos (print_recipe_header n st) = memos st"
  by (simp_all add: print_recipe_header_def)

definition stats_total :: "run_stats \<Rightarrow> nat" where
  "stats_total s = rs_changed s + rs_failed s + rs_ok s + rs_skipped s"

lemma update_stats_total [simp]: "stats_total (update_stats status s) = Suc (stats_total s)"
  by (cases status) (simp_all add: update_stats_def stats_total_def)

lemma update_stats_failed [simp]:
  "rs_failed (update_stats status s) = rs_failed s + (if status = StFailed then 1 else 0)"
  by (cases status) (simp_all add: update_stats_def)

lemma update_stats_changed [simp]:
  "rs_changed (update_stats status s) = rs_changed s + (if status = StChanged then 1 else 0)"
  by (cases status) (simp_all add: update_stats_def)

lemma update_stats_signals [simp]: "rs_signals (update_stats status s) = rs_signals s"
  by (cases status) (simp_all add: update_stats_def)

lemma increment_signals_frame [simp]:
  "stats_total (increment_signals s) = stats_total s"
  "rs_failed (increment_signals s) = rs_failed s"
  "rs_changed (increment_signals s) = rs_changed s"
  "rs_signals (increment_signals s) = Suc (rs_signals s)"
  by (simp_all add: increment_signals_def stats_total_def)

subsection \<open>Small modules and states\<close>

text \<open>
  A module whose check and apply always give the same answer and leave the state alone, the
  session of a connection on one port, and the state in which a run starts. They are the
  concrete inputs of the witnesses.
\<close>

definition fixed_core :: "string \<Rightarrow> check_result \<Rightarrow> module_result \<Rightarrow> 'w module_core" where
  "fixed_core name checked result =
     \<lparr>mc_name = name, mc_local = False, mc_dry_run_blocker = False,
      mc_dry_run_diff_producer = False, mc_dry_run_meta_producer = False,
      mc_supports_child_step_hook = False, mc_apply_dry_run = None, mc_prewarm_secrets = None,
      mc_check = (\<lambda>_ _ st. (Inr checked, st)), mc_apply = (\<lambda>_ _ _ st. (Inr result, st))\<rparr>"

definition fixed_module :: "string \<Rightarrow> check_result \<Rightarrow> module_result \<Rightarrow> 'w module" where
  "fixed_module name checked result = LeafModule (fixed_core name checked result)"

definition fresh_session :: ssh_session where
  "fresh_session =
     \<lparr>ss_host = ''web'', ss_ports = [22], ss_client = True, ss_connected_port = 22,
      ss_auth_method = Some AuthAgent, ss_agent_socket = Some ''/agent'', ss_sudo_probe_failed = None,
      ss_sudo_ready = False, ss_credential_cache_primed = False, ss_passwordless_sudo = False,
      ss_cached_password = None, ss_last_failure = None\<rparr>"

definition fresh_state :: "'w \<Rightarrow> 'w run_state" where
  "fresh_state w =
     \<lparr>world = w, ssh = fresh_session, received = None, stats = new_run_stats,
      memos = (\<lambda>_. None), outlog = []\<rparr>"

lemmas sample_defs = fixed_module_def fixed_core_def fresh_session_def fresh_state_def

end
