(* ===== verification/Loops.thy ===== *)
theory Loops
  imports Prelude
begin

text \<open>
  The shape every module loop of the program has: run one step per element, in order, and
  stop at the first step that throws or breaks. \<open>run_until\<close> is that shape; the locale
  \<open>breaking_loop\<close> states that a loop of the program has it, and its lemmas (the sequence
  law, the break law, the frame and invariant rules, the congruence) are proved once for
  all of them. A step returns \<open>Inl b\<close> to leave the loop with \<open>b\<close> and \<open>Inr a\<close> to go on.
\<close>

fun run_until ::
  "('m \<Rightarrow> 'a \<Rightarrow> ('b + 'a, 's) effect) \<Rightarrow> 'm list \<Rightarrow> 'a \<Rightarrow> ('b + 'a, 's) effect" where
  "run_until step [] a s = (Inr (Inr a), s)"
| "run_until step (m # ms) a s =
     and_then (step m a s)
       (\<lambda>r s1. case r of Inl b \<Rightarrow> (Inr (Inl b), s1) | Inr a' \<Rightarrow> run_until step ms a' s1)"

lemma run_until_append:
  "run_until step (xs @ ys) a s =
     and_then (run_until step xs a s)
       (\<lambda>r s1. case r of Inl b \<Rightarrow> (Inr (Inl b), s1) | Inr a' \<Rightarrow> run_until step ys a' s1)"
proof (induction xs arbitrary: a s)
  case (Cons x xs)
  show ?case
    by (cases "step x a s"; cases "fst (step x a s)")
       (auto simp: Cons.IH split: sum.splits)
qed simp

text \<open>A loop left the list early: by a throw or by a break.\<close>

definition left_early :: "('b + 'a) result \<times> 's \<Rightarrow> bool" where
  "left_early r \<longleftrightarrow> (case fst r of Inl _ \<Rightarrow> True | Inr (Inl _) \<Rightarrow> True | Inr (Inr _) \<Rightarrow> False)"

definition loop_value :: "('a \<Rightarrow> 'b) \<Rightarrow> 'b + 'a \<Rightarrow> 'b" where
  "loop_value finish r = (case r of Inl b \<Rightarrow> b | Inr a \<Rightarrow> finish a)"

lemma loop_value_simps [simp]:
  "loop_value finish (Inl b) = b" "loop_value finish (Inr a) = finish a"
  by (simp_all add: loop_value_def)

lemma run_until_left_early:
  "left_early (run_until step xs a s) \<Longrightarrow> run_until step (xs @ ys) a s = run_until step xs a s"
  by (auto simp: run_until_append left_early_def and_then_def split: prod.splits sum.splits)

locale breaking_loop =
  fixes loop :: "'m list \<Rightarrow> 'a \<Rightarrow> ('b, 's) effect"
    and step :: "'m \<Rightarrow> 'a \<Rightarrow> ('b + 'a, 's) effect"
    and finish :: "'a \<Rightarrow> 'b"
  assumes loop_Nil: "loop [] a s = (Inr (finish a), s)"
    and loop_Cons: "loop (m # ms) a s =
      and_then (step m a s)
        (\<lambda>r s1. case r of Inl b \<Rightarrow> (Inr b, s1) | Inr a' \<Rightarrow> loop ms a' s1)"
begin

lemma loop_run_until:
  "loop ms a s = and_then (run_until step ms a s) (\<lambda>r s1. (Inr (loop_value finish r), s1))"
proof (induction ms arbitrary: a s)
  case (Cons m ms)
  show ?case
    by (cases "step m a s"; cases "fst (step m a s)")
       (auto simp: loop_Cons Cons.IH split: sum.splits)
qed (simp add: loop_Nil)

lemma loop_append:
  "loop (xs @ ys) a s =
     and_then (run_until step xs a s)
       (\<lambda>r s1. case r of Inl b \<Rightarrow> (Inr b, s1) | Inr a' \<Rightarrow> loop ys a' s1)"
  by (auto simp: loop_run_until run_until_append and_then_def split: prod.splits sum.splits)

text \<open>Nothing after the element that ended the loop has any effect.\<close>

lemma loop_left_early:
  "left_early (run_until step xs a s) \<Longrightarrow> loop (xs @ ys) a s = loop xs a s"
  by (simp add: loop_run_until run_until_left_early)

lemma loop_frame:
  assumes "\<And>m a s. m \<in> set ms \<Longrightarrow> R s (snd (step m a s))" and "reflp R" and "transp R"
  shows "R s (snd (loop ms a s))"
  using assms(1)
proof (induction ms arbitrary: a s)
  case Nil
  then show ?case using assms(2) by (simp add: loop_Nil reflpD)
next
  case (Cons m ms)
  obtain r s1 where r: "step m a s = (r, s1)" by (cases "step m a s")
  have "R s (snd (step m a s))" by (rule Cons.prems) simp
  then have "R s s1" by (simp add: r)
  moreover have "R s1 (snd (loop ms a' s1))" for a' using Cons by simp
  ultimately show ?case
    using assms(3) by (auto simp: loop_Cons r and_then_def split: sum.splits elim: transpE)
qed

lemma loop_invariant:
  assumes "P a s"
    and step: "\<And>m a s r s'. m \<in> set ms \<Longrightarrow> P a s \<Longrightarrow> step m a s = (Inr r, s') \<Longrightarrow>
           (case r of Inl b \<Rightarrow> Q b s' | Inr a' \<Rightarrow> P a' s')"
    and fin: "\<And>a s. P a s \<Longrightarrow> Q (finish a) s"
    and "loop ms a s = (Inr b, s')"
  shows "Q b s'"
  using assms(1,4) step
proof (induction ms arbitrary: a s)
  case Nil
  then show ?case using fin by (auto simp: loop_Nil)
next
  case (Cons m ms)
  obtain r s1 where r: "step m a s = (Inr r, s1)"
    using Cons.prems(2) by (auto simp: loop_Cons and_then_Inr_iff)
  have rs: "case r of Inl b \<Rightarrow> Q b s1 | Inr a' \<Rightarrow> P a' s1"
    by (rule Cons.prems(3) [OF _ Cons.prems(1) r]) simp
  show ?case
  proof (cases r)
    case (Inl x)
    then show ?thesis using Cons.prems(2) rs by (simp add: loop_Cons r)
  next
    case (Inr a')
    have rest: "loop ms a' s1 = (Inr b, s')" and a': "P a' s1"
      using Cons.prems(2) rs Inr by (simp_all add: loop_Cons r)
    show ?thesis
      by (rule Cons.IH [OF a' rest]) (rule Cons.prems(3), simp_all)
  qed
qed

lemma loop_never_throws:
  assumes "\<And>m a s. m \<in> set ms \<Longrightarrow> \<exists>r s'. step m a s = (Inr r, s')"
  shows "\<exists>b s'. loop ms a s = (Inr b, s')"
  using assms
proof (induction ms arbitrary: a s)
  case (Cons m ms)
  have "\<exists>r s'. step m a s = (Inr r, s')" by (rule Cons.prems) simp
  then obtain r s1 where r: "step m a s = (Inr r, s1)" by blast
  have "\<exists>b s'. loop ms a' s1 = (Inr b, s')" for a'
    by (rule Cons.IH) (rule Cons.prems, simp)
  then show ?case by (cases r) (simp_all add: loop_Cons r)
qed (simp add: loop_Nil)

lemma loop_map_cong:
  assumes "\<And>m a s. m \<in> set ms \<Longrightarrow> step (f m) a s = step m a s"
  shows "loop (map f ms) a s = loop ms a s"
  using assms
proof (induction ms arbitrary: a s)
  case (Cons m ms)
  then show ?case
    by (cases "step m a s"; cases "fst (step m a s)")
       (auto simp: loop_Cons split: sum.splits)
qed simp

end

end
