(* ===== verification/Signals.thy ===== *)
theory Signals
  imports Orchestration Loops
begin

text \<open>
  Signal lists (\<^verbatim>\<open>signalOrchestration.ts\<close>): the handlers that run after a change. A list
  stops at its first failed signal; a thrown error counts as a failed signal; the list
  itself never throws.
\<close>

datatype signal_run_status = SignalChanged | SignalFailed

definition signal_started :: "'w signal_hooks option \<Rightarrow> 'w run_state \<Rightarrow> 'w run_state" where
  "signal_started hooks st = (case hooks of None \<Rightarrow> st | Some h \<Rightarrow> on_signal_started h st)"

definition signal_finished ::
  "'w signal_hooks option \<Rightarrow> module_status \<Rightarrow> 'w run_state \<Rightarrow> 'w run_state" where
  "signal_finished hooks status st =
     (case hooks of None \<Rightarrow> st | Some h \<Rightarrow> on_signal_finished h status st)"

definition handle_signal_result ::
  "'w signal_hooks option \<Rightarrow> module_result \<Rightarrow> string \<Rightarrow> bool \<Rightarrow> 'w run_state
     \<Rightarrow> signal_run_status \<times> 'w run_state" where
  "handle_signal_result hooks result signal_name verbose st =
     (let st1 = print_module_result (''signal: '' @ signal_name) (mr_status result) None None st;
          st2 = (case mr_error result of
                   Some e \<Rightarrow> if mr_status result = StFailed then print_command_failure e verbose st1 else st1
                 | None \<Rightarrow> st1);
          st3 = signal_finished hooks (mr_status result) st2
      in (if mr_status result = StFailed then SignalFailed else SignalChanged, st3))"

definition handle_signal_failure ::
  "'w signal_hooks option \<Rightarrow> exn \<Rightarrow> string \<Rightarrow> bool \<Rightarrow> 'w run_state
     \<Rightarrow> signal_run_status \<times> 'w run_state" where
  "handle_signal_failure hooks e signal_name verbose st =
     (let st1 = print_module_result (''signal: '' @ signal_name) StFailed None None st;
          st2 = print_command_failure e verbose st1
      in (SignalFailed, signal_finished hooks StFailed st2))"

definition call_hook :: "'w step_hook option \<Rightarrow> 'w step_hook" where
  "call_hook hook step st = (case hook of None \<Rightarrow> (Inr (), st) | Some h \<Rightarrow> h step st)"

definition apply_signal_meta ::
  "environment \<Rightarrow> 'w step_hook option \<Rightarrow> module_result \<Rightarrow> (environment, 'w run_state) effect" where
  "apply_signal_meta current_environment on_signal_step result st =
     and_then (lift_result (assert_valid_module_meta_entries (mr_meta result)) st) (\<lambda>_ st.
     and_then
       (lift_result
          (if mr_status result = StFailed then Inr current_environment
           else merge_environment_from_meta current_environment (mr_meta result)) st)
       (\<lambda>next_environment st.
     and_then
       (call_hook on_signal_step
          \<lparr>os_env = next_environment, os_meta = mr_meta result, os_status = mr_status result,
           os_flush = False, os_stop = False\<rparr> st)
       (\<lambda>_ st. (Inr next_environment, st))))"

definition run_one_signal ::
  "environment \<Rightarrow> 'w signal_hooks option \<Rightarrow> 'w step_hook option \<Rightarrow> bool \<Rightarrow> 'w module
     \<Rightarrow> connection \<Rightarrow> bool \<Rightarrow> (environment \<times> signal_run_status, 'w run_state) effect" where
  "run_one_signal current_environment hooks on_signal_step shutdown signal conn verbose st =
     (let connection = child_connection signal conn;
          st1 = start_module_spinner (''signal: '' @ mod_name signal) st
      in and_then
           (mc_apply (core signal) connection current_environment
              (no_options\<lparr>ao_shutdown := shutdown\<rparr>) st1)
           (\<lambda>result st2.
         and_then (apply_signal_meta current_environment on_signal_step result st2)
           (\<lambda>next_environment st3.
              (let (status, st4) =
                     handle_signal_result hooks result (mod_name signal) verbose st3
               in (Inr (next_environment, status), st4)))))"

fun run_signal_modules ::
  "'w signal_hooks option \<Rightarrow> 'w step_hook option \<Rightarrow> bool \<Rightarrow> connection \<Rightarrow> bool
     \<Rightarrow> environment \<Rightarrow> 'w module list \<Rightarrow> 'w run_state \<Rightarrow> signal_run_status \<times> 'w run_state" where
  "run_signal_modules hooks on_signal_step shutdown conn verbose current_environment [] st =
     (SignalChanged, st)"
| "run_signal_modules hooks on_signal_step shutdown conn verbose current_environment (signal # signals) st =
     (if poll_shutdown shutdown st \<noteq> None then (SignalChanged, st)
      else (case run_one_signal current_environment hooks on_signal_step shutdown signal conn
                   verbose (signal_started hooks st) of
              (Inl e, st') \<Rightarrow> handle_signal_failure hooks e (mod_name signal) verbose st'
            | (Inr (next_environment, status), st') \<Rightarrow>
                (if status = SignalFailed then (SignalFailed, st')
                 else run_signal_modules hooks on_signal_step shutdown conn verbose
                        next_environment signals st')))"

subsection \<open>Laws of a signal list\<close>

lemma run_signal_modules_interrupted:
  "shutdown \<Longrightarrow> received st \<noteq> None \<Longrightarrow>
   run_signal_modules hooks on_step shutdown conn verbose env signals st = (SignalChanged, st)"
  by (cases signals) (simp_all add: poll_shutdown_def)

lemma run_signal_modules_failed_stops:
  assumes "fst (run_signal_modules hooks on_step shutdown conn verbose env signals st) = SignalFailed"
  shows "run_signal_modules hooks on_step shutdown conn verbose env (signals @ rest) st =
         run_signal_modules hooks on_step shutdown conn verbose env signals st"
  using assms
proof (induction signals arbitrary: env st)
  case (Cons s ss)
  then show ?case
    by (auto split: prod.splits sum.splits if_splits)
qed simp

text \<open>
  The statistics hooks of the runner: one started signal gives one finished status, so the
  counter of started signals and the sum of the statuses move together.
\<close>

definition stats_hooks :: "'w signal_hooks" where
  "stats_hooks =
     \<lparr>on_signal_started = (\<lambda>st. st\<lparr>stats := increment_signals (stats st)\<rparr>),
      on_signal_finished = (\<lambda>status st. st\<lparr>stats := update_stats status (stats st)\<rparr>)\<rparr>"

lemma stats_hooks_frame [simp]:
  "received (signal_started (Some stats_hooks) st) = received st"
  "received (signal_finished (Some stats_hooks) s st) = received st"
  "stats (signal_started (Some stats_hooks) st) = increment_signals (stats st)"
  "stats (signal_finished (Some stats_hooks) s st) = update_stats s (stats st)"
  "signal_started None st = st" "signal_finished None s st = st"
  by (simp_all add: signal_started_def signal_finished_def stats_hooks_def)

definition keeps_stats :: "('a, 'w run_state) effect \<Rightarrow> bool" where
  "keeps_stats f \<longleftrightarrow> (\<forall>st. stats (snd (f st)) = stats st)"

lemma keeps_statsD: "keeps_stats f \<Longrightarrow> f st = (r, st') \<Longrightarrow> stats st' = stats st"
  by (metis keeps_stats_def snd_conv)

lemma apply_signal_meta_stats:
  assumes hook: "\<And>step st. stats (snd (call_hook on_step step st)) = stats st"
    and res: "apply_signal_meta env on_step result st = (r, st')"
  shows "stats st' = stats st"
proof -
  have *: "call_hook on_step step s = (x, s') \<Longrightarrow> stats s' = stats s" for step s x s'
    using hook [of step s] by simp
  show ?thesis
    using res
    by (auto simp: apply_signal_meta_def lift_result_def dest!: *
        split: and_then_split_asm prod.splits sum.splits if_splits)
qed

subsection \<open>Properties\<close>

lemma run_one_signal_stats:
  assumes hook: "\<And>step st. stats (snd (call_hook on_step step st)) = stats st"
    and app: "\<And>opts env. keeps_stats (mc_apply (core signal) (child_connection signal conn) env opts)"
    and run: "run_one_signal env (Some stats_hooks) on_step shutdown signal conn verbose st = (r, st')"
  shows "case r of Inl _ \<Rightarrow> stats st' = stats st
    | Inr (_, status) \<Rightarrow>
        (\<exists>s. stats st' = update_stats s (stats st) \<and> (status = SignalFailed \<longleftrightarrow> s = StFailed))"
  using run keeps_statsD [OF app] apply_signal_meta_stats [OF hook]
  by (fastforce simp: run_one_signal_def Let_def handle_signal_result_def
      split: and_then_split_asm sum.splits prod.splits if_splits option.splits)

text \<open>
  a signal list never loses count. With the runner's statistics hooks, and handlers that
  do not touch the statistics themselves, every started signal adds exactly one status, so the
  number of signals and the sum of the statuses grow together, and the failure count grows by
  one exactly when the list reports a failure.
\<close>

theorem signal_list_accounting:
  assumes hook: "\<And>step st. stats (snd (call_hook on_step step st)) = stats st"
    and app: "\<And>m opts env. m \<in> set signals \<Longrightarrow> keeps_stats (mc_apply (core m) (child_connection m conn) env opts)"
    and run: "run_signal_modules (Some stats_hooks) on_step shutdown conn verbose env signals st = (status, st')"
  shows "stats_total (stats st') + rs_signals (stats st) = stats_total (stats st) + rs_signals (stats st') \<and>
    rs_failed (stats st') = rs_failed (stats st) + (if status = SignalFailed then 1 else 0)"
  using app run
proof (induction signals arbitrary: env st)
  case (Cons m ms)
  show ?case
  proof (cases "poll_shutdown shutdown st = None")
    case True
    let ?st = "signal_started (Some stats_hooks) st"
    obtain r st1 where one: "run_one_signal env (Some stats_hooks) on_step shutdown m conn verbose ?st = (r, st1)"
      by fastforce
    note acc = run_one_signal_stats [OF hook Cons.prems(1) one]
    show ?thesis
    proof (cases r)
      case (Inl e)
      then show ?thesis
        using Cons.prems(2) True one acc by (auto simp: handle_signal_failure_def Let_def)
    next
      case (Inr q)
      obtain env1 s1 where q: "q = (env1, s1)" by fastforce
      obtain s where s: "stats st1 = update_stats s (stats ?st)" "s1 = SignalFailed \<longleftrightarrow> s = StFailed"
        using acc Inr q by auto
      show ?thesis
        using Cons.prems True one Inr q s Cons.IH [of env1 st1] by (auto split: if_splits)
    qed
  qed (use Cons.prems in auto)
qed auto

theorem signal_list_accounting_witness:
  "rs_failed (stats (snd (run_signal_modules (Some stats_hooks) None True Connection False []
      [fixed_module ''a'' NeedsApply (plain_result StChanged), fixed_module ''b'' NeedsApply (failed_result ''no''),
       fixed_module ''c'' NeedsApply (plain_result StChanged)] (fresh_state ())))) = 1"
proof -
  let ?ms = "[fixed_module ''a'' NeedsApply (plain_result StChanged),
    fixed_module ''b'' NeedsApply (failed_result ''no''), fixed_module ''c'' NeedsApply (plain_result StChanged)]"
  let ?p = "run_signal_modules (Some stats_hooks) None True Connection False [] ?ms (fresh_state ())"
  obtain status st' where p: "?p = (status, st')" by fastforce
  have "keeps_stats (mc_apply (core m) (child_connection m Connection) env opts)"
    if "m \<in> set ?ms" for m :: "unit module" and opts env
    using that by (auto simp: sample_defs keeps_stats_def)
  moreover have "fst ?p = SignalFailed" by code_simp
  ultimately show ?thesis
    using signal_list_accounting [OF _ _ p] p
    by (simp add: call_hook_def fresh_state_def new_run_stats_def)
qed

end
