(* ===== verification/Recipe.thy ===== *)
theory Recipe
  imports Signals
begin

text \<open>
  Recipes (\<^verbatim>\<open>recipe.ts\<close>): a named list of modules with its own check-then-apply loop and
  its own signals. The loop keeps an environment, the collected meta entries, whether a
  signal is owed, a status and the stop flag (\<open>recipe_state\<close>), and stops at the first
  failed, stopping or interrupted child. The optional fields of the option objects are
  the fields of \<open>apply_options\<close>; \<open>ao_shutdown = False\<close> is the getter \<^verbatim>\<open>() => null\<close>.

  Durations and the indentation scope of the output are not modelled, so the
  \<^verbatim>\<open>startedAt\<close> arguments and \<^verbatim>\<open>withRecipeOutputScope\<close> have no counterpart.
\<close>

record recipe_state =
  rc_env :: environment
  rc_meta :: "meta_entry list option"
  rc_pending :: bool
  rc_status :: module_status
  rc_stop :: bool

datatype recipe_step = StepNone | StepInterrupted | StepDone orchestration_step

datatype recipe_child_execution = ChildFailed recipe_state | ChildStep recipe_step

datatype recipe_loop_step_result = LoopBreak recipe_state | LoopContinue recipe_state

definition report_recipe_child_result ::
  "'w module \<Rightarrow> module_result \<Rightarrow> bool \<Rightarrow> 'w run_state \<Rightarrow> 'w run_state" where
  "report_recipe_child_result m result verbose st =
     (let st1 = (if is_recipe m
                 then print_recipe_module_result (mod_name m) (mr_status result) (mr_detail result) st
                 else print_module_result (mod_name m) (mr_status result) (mr_detail result) None st)
      in case mr_error result of
           Some e \<Rightarrow> if mr_status result = StFailed then print_command_failure e verbose st1 else st1
         | None \<Rightarrow> st1)"

definition build_recipe_child_step ::
  "module_result \<Rightarrow> environment \<Rightarrow> orchestration_step result" where
  "build_recipe_child_step result current_environment =
     (case (if mr_status result = StFailed then Inr current_environment
            else merge_environment_from_meta current_environment (mr_meta result)) of
        Inl e \<Rightarrow> Inl e
      | Inr env \<Rightarrow>
          Inr \<lparr>os_env = env, os_meta = mr_meta result, os_status = mr_status result,
               os_flush = mr_flush result, os_stop = mr_stop result\<rparr>)"

definition apply_recipe_step_to_state ::
  "recipe_state \<Rightarrow> orchestration_step \<Rightarrow> bool \<Rightarrow> recipe_state" where
  "apply_recipe_step_to_state state step preserve_control_plane_meta =
     (let step_meta = (case os_meta step of
                         None \<Rightarrow> None
                       | Some es \<Rightarrow>
                           if preserve_control_plane_meta then Some es
                           else Some (filter is_environment_meta_entry es));
          old = (case rc_meta state of None \<Rightarrow> [] | Some es \<Rightarrow> es)
      in \<lparr>rc_env = os_env step,
          rc_meta = Some (case step_meta of None \<Rightarrow> old | Some es \<Rightarrow> old @ es),
          rc_pending = (if os_status step = StChanged then True else rc_pending state),
          rc_status = (if os_status step = StFailed then StFailed
                       else if os_status step = StChanged then StChanged else rc_status state),
          rc_stop = (if os_stop step then True else rc_stop state)\<rparr>)"

definition check_recipe_child ::
  "'w module \<Rightarrow> connection \<Rightarrow> environment \<Rightarrow> (check_result, 'w run_state) effect" where
  "check_recipe_child target conn env st =
     mc_check (core target) conn env (start_module_spinner (mod_name target) st)"

text \<open>The shutdown getter handed to a child is never null inside the recipe loop.\<close>

definition apply_recipe_child ::
  "'w module \<Rightarrow> connection \<Rightarrow> environment \<Rightarrow> 'w apply_options \<Rightarrow> (module_result, 'w run_state) effect"
where
  "apply_recipe_child target conn env opts =
     (if is_recipe target
      then mc_apply (core target) conn env
             (no_options\<lparr>ao_on_child_step := ao_on_child_step opts,
                         ao_on_signal_step := ao_on_signal_step opts,
                         ao_shutdown := ao_shutdown opts,
                         ao_signal_hooks := ao_signal_hooks opts,
                         ao_verbose := ao_verbose opts\<rparr>)
      else if mc_supports_child_step_hook (core target)
      then mc_apply (core target) conn env
             (no_options\<lparr>ao_on_child_step := ao_on_child_step opts, ao_shutdown := ao_shutdown opts\<rparr>)
      else mc_apply (core target) conn env no_options)"

definition execute_one_module ::
  "'w apply_options \<Rightarrow> connection \<Rightarrow> 'w module \<Rightarrow> environment \<Rightarrow> (recipe_step, 'w run_state) effect"
where
  "execute_one_module opts conn target current_environment st =
     (let connection = child_connection target conn
      in and_then (check_recipe_child target connection current_environment st) (\<lambda>checked st1.
           if checked = CheckOk
           then (Inr StepNone, print_module_result (mod_name target) StOk None None st1)
           else if poll_shutdown (ao_shutdown opts) st1 \<noteq> None then (Inr StepInterrupted, st1)
           else and_then (apply_recipe_child target connection current_environment opts st1)
                  (\<lambda>result st2.
                     (case build_recipe_child_step result current_environment of
                        Inl e \<Rightarrow> Inl e
                      | Inr step \<Rightarrow> Inr (StepDone step),
                      report_recipe_child_result target result (ao_verbose opts) st2))))"

definition failed_recipe_state :: "environment \<Rightarrow> recipe_state" where
  "failed_recipe_state env =
     \<lparr>rc_env = env, rc_meta = None, rc_pending = False, rc_status = StFailed, rc_stop = False\<rparr>"

definition execute_recipe_child_step ::
  "'w apply_options \<Rightarrow> connection \<Rightarrow> 'w module \<Rightarrow> environment \<Rightarrow> 'w run_state
     \<Rightarrow> recipe_child_execution \<times> 'w run_state" where
  "execute_recipe_child_step opts conn target current_environment st =
     (case execute_one_module opts conn target current_environment st of
        (Inr step, st1) \<Rightarrow> (ChildStep step, st1)
      | (Inl e, st1) \<Rightarrow>
          if poll_shutdown (ao_shutdown opts) st1 \<noteq> None then (ChildStep StepInterrupted, st1)
          else (ChildFailed (failed_recipe_state current_environment),
                print_command_failure e (ao_verbose opts)
                  (print_module_result (mod_name target) StFailed None None st1)))"

definition should_flush_recipe_signals ::
  "orchestration_step \<Rightarrow> recipe_state \<Rightarrow> 'w module list option \<Rightarrow> bool" where
  "should_flush_recipe_signals step state signals \<longleftrightarrow>
     os_flush step \<and> rc_pending state \<and> signals \<noteq> None"

definition apply_recipe_signal_status :: "recipe_state \<Rightarrow> signal_run_status \<Rightarrow> recipe_state" where
  "apply_recipe_signal_status state signal_status =
     state\<lparr>rc_pending := False,
           rc_status := (if signal_status = SignalFailed then StFailed else rc_status state)\<rparr>"

definition trigger_signals ::
  "'w apply_options \<Rightarrow> connection \<Rightarrow> environment \<Rightarrow> 'w module list \<Rightarrow> 'w run_state
     \<Rightarrow> signal_run_status \<times> 'w run_state" where
  "trigger_signals opts conn env signals =
     run_signal_modules (ao_signal_hooks opts) (ao_on_signal_step opts) (ao_shutdown opts) conn
       (ao_verbose opts) env signals"

definition loop_step_of :: "recipe_state \<Rightarrow> recipe_loop_step_result" where
  "loop_step_of state =
     (if rc_status state = StFailed \<or> rc_stop state then LoopBreak state else LoopContinue state)"

fun process_recipe_step ::
  "'w apply_options \<Rightarrow> connection \<Rightarrow> 'w module list option \<Rightarrow> recipe_state
     \<Rightarrow> recipe_child_execution \<Rightarrow> (recipe_loop_step_result, 'w run_state) effect" where
  "process_recipe_step opts conn signals state (ChildFailed failed) st = (Inr (LoopBreak failed), st)"
| "process_recipe_step opts conn signals state (ChildStep StepInterrupted) st =
     (Inr (LoopBreak state), st)"
| "process_recipe_step opts conn signals state (ChildStep StepNone) st =
     (Inr (loop_step_of state), st)"
| "process_recipe_step opts conn signals state (ChildStep (StepDone step)) st =
     and_then (call_hook (ao_on_child_step opts) step st) (\<lambda>_ st1.
       let next = apply_recipe_step_to_state state step (ao_on_child_step opts = None)
       in if should_flush_recipe_signals step next signals
          then (case trigger_signals opts conn (rc_env next) (the signals) st1 of
                  (signal_status, st2) \<Rightarrow>
                    (Inr (loop_step_of (apply_recipe_signal_status next signal_status)), st2))
          else (Inr (loop_step_of next), st1))"

fun execute_modules_loop ::
  "'w apply_options \<Rightarrow> connection \<Rightarrow> 'w module list option \<Rightarrow> 'w module list \<Rightarrow> recipe_state
     \<Rightarrow> (recipe_state, 'w run_state) effect" where
  "execute_modules_loop opts conn signals [] state st = (Inr state, st)"
| "execute_modules_loop opts conn signals (m # ms) state st =
     (if poll_shutdown (ao_shutdown opts) st \<noteq> None then (Inr state, st)
      else (case execute_recipe_child_step opts conn m (rc_env state) st of
              (execution, st1) \<Rightarrow>
                (case process_recipe_step opts conn signals state execution st1 of
                   (Inl e, st2) \<Rightarrow> (Inl e, st2)
                 | (Inr (LoopBreak next), st2) \<Rightarrow> (Inr next, st2)
                 | (Inr (LoopContinue next), st2) \<Rightarrow>
                     execute_modules_loop opts conn signals ms next st2)))"

definition initial_recipe_state :: "environment \<Rightarrow> recipe_state" where
  "initial_recipe_state environment =
     \<lparr>rc_env = js_assign [] environment, rc_meta = None, rc_pending = False, rc_status = StOk,
      rc_stop = False\<rparr>"

definition execute_modules ::
  "'w apply_options \<Rightarrow> connection \<Rightarrow> 'w module list option \<Rightarrow> 'w module list \<Rightarrow> environment
     \<Rightarrow> (recipe_state, 'w run_state) effect" where
  "execute_modules opts conn signals modules environment =
     execute_modules_loop opts conn signals modules (initial_recipe_state environment)"

definition should_run_recipe_signals_at_end :: "recipe_state \<Rightarrow> 'w module list option \<Rightarrow> bool" where
  "should_run_recipe_signals_at_end state signals \<longleftrightarrow>
     rc_pending state \<and> rc_status state = StChanged \<and> signals \<noteq> None"

definition signal_status_of :: "signal_run_status \<Rightarrow> module_status" where
  "signal_status_of s = (case s of SignalChanged \<Rightarrow> StChanged | SignalFailed \<Rightarrow> StFailed)"

definition recipe_result :: "recipe_state \<Rightarrow> module_result" where
  "recipe_result state =
     (plain_result (rc_status state))\<lparr>mr_meta := rc_meta state, mr_stop := rc_stop state\<rparr>"

definition apply_recipe ::
  "string \<Rightarrow> 'w module list \<Rightarrow> 'w module list option \<Rightarrow> 'w apply_fn" where
  "apply_recipe name modules signals conn environment opts st =
     and_then
       (execute_modules opts conn signals modules environment (print_recipe_header name st))
       (\<lambda>state st1.
          if should_run_recipe_signals_at_end state signals
          then (case trigger_signals opts conn (rc_env state) (the signals) st1 of
                  (signal_status, st2) \<Rightarrow>
                    (Inr (recipe_result (state\<lparr>rc_status := signal_status_of signal_status\<rparr>)), st2))
          else (Inr (recipe_result state), st1))"

definition annotate_recipe_child_error :: "string \<Rightarrow> exn \<Rightarrow> exn" where
  "annotate_recipe_child_error name e =
     (let prefix = ''['' @ name @ ''] ''
      in case e of
           CommandErr m out_text err_text \<Rightarrow> CommandErr (prefix @ m) out_text err_text
         | _ \<Rightarrow> GenericError (prefix @ exn_message e))"

text \<open>
  \<^verbatim>\<open>recipe(...).check\<close>: the runner's abort signal is aborted exactly when a shutdown
  signal was received.
\<close>

fun recipe_check :: "'w module list \<Rightarrow> 'w check_fn" where
  "recipe_check [] conn env st = (Inr CheckOk, st)"
| "recipe_check (m # ms) conn env st =
     (if received st \<noteq> None then (Inr NeedsApply, st)
      else (case mc_check (core m) (child_connection m conn) env st of
              (Inl e, st1) \<Rightarrow> (Inl (annotate_recipe_child_error (mod_name m) e), st1)
            | (Inr NeedsApply, st1) \<Rightarrow> (Inr NeedsApply, st1)
            | (Inr CheckOk, st1) \<Rightarrow> recipe_check ms conn env st1))"

definition recipe :: "string \<Rightarrow> 'w module list \<Rightarrow> 'w module list option \<Rightarrow> 'w module" where
  "recipe name modules signals =
     RecipeModule
       \<lparr>mc_name = name, mc_local = False, mc_dry_run_blocker = False,
        mc_dry_run_diff_producer = False, mc_dry_run_meta_producer = False,
        mc_supports_child_step_hook = True, mc_apply_dry_run = None, mc_prewarm_secrets = None,
        mc_check = recipe_check modules, mc_apply = apply_recipe name modules signals\<rparr>
       modules signals"

lemmas recipe_eval =
  apply_recipe_def execute_modules_def initial_recipe_state_def execute_recipe_child_step_def
  execute_one_module_def check_recipe_child_def build_recipe_child_step_def
  apply_recipe_child_def apply_recipe_step_to_state_def loop_step_of_def recipe_result_def

subsection \<open>The loop as a breaking loop\<close>

definition recipe_loop_step ::
  "'w apply_options \<Rightarrow> connection \<Rightarrow> 'w module list option \<Rightarrow> 'w module \<Rightarrow> recipe_state
     \<Rightarrow> (recipe_state + recipe_state, 'w run_state) effect" where
  "recipe_loop_step opts conn signals m state st =
     (if poll_shutdown (ao_shutdown opts) st \<noteq> None then (Inr (Inl state), st)
      else (case execute_recipe_child_step opts conn m (rc_env state) st of
              (execution, st1) \<Rightarrow>
                (case process_recipe_step opts conn signals state execution st1 of
                   (Inl e, st2) \<Rightarrow> (Inl e, st2)
                 | (Inr (LoopBreak next), st2) \<Rightarrow> (Inr (Inl next), st2)
                 | (Inr (LoopContinue next), st2) \<Rightarrow> (Inr (Inr next), st2))))"

interpretation recipe_loop:
  breaking_loop "execute_modules_loop opts conn signals" "recipe_loop_step opts conn signals"
    "\<lambda>state. state"
  for opts :: "'w apply_options" and conn :: connection and signals :: "'w module list option"
  by unfold_locales
    (auto simp: recipe_loop_step_def split: prod.splits sum.splits recipe_loop_step_result.splits)

declare execute_modules_loop.simps(2) [simp del]

lemma loop_step_of_simps:
  "loop_step_of s = LoopBreak n \<longleftrightarrow> n = s \<and> (rc_status s = StFailed \<or> rc_stop s)"
  "loop_step_of s = LoopContinue n \<longleftrightarrow> n = s \<and> rc_status s \<noteq> StFailed \<and> \<not> rc_stop s"
  by (auto simp: loop_step_of_def)

lemma process_step_interrupted:
  "process_recipe_step opts conn signals state execution st = (Inr r, st') \<Longrightarrow>
   execution = ChildStep StepInterrupted \<Longrightarrow> r = LoopBreak state \<and> st' = st"
  by simp

lemma execute_one_module_interrupted:
  assumes "execute_one_module opts conn m env st = (Inr StepInterrupted, st')"
  shows "poll_shutdown (ao_shutdown opts) st' \<noteq> None"
  using assms
  by (auto simp: execute_one_module_def Let_def split: if_splits sum.splits and_then_split_asm)

lemma child_step_cases:
  assumes "execute_recipe_child_step opts conn m env st = (execution, st1)"
  obtains (failed) "execution = ChildFailed (failed_recipe_state env)"
  | (interrupted) "execution = ChildStep StepInterrupted" "poll_shutdown (ao_shutdown opts) st1 \<noteq> None"
  | (none) "execution = ChildStep StepNone"
      "execute_one_module opts conn m env st = (Inr StepNone, st1)"
  | (ran) step where "execution = ChildStep (StepDone step)"
      "execute_one_module opts conn m env st = (Inr (StepDone step), st1)"
  using assms execute_one_module_interrupted [of opts conn m env st]
  by (auto simp: execute_recipe_child_step_def split: prod.splits sum.splits if_splits recipe_step.splits)
     (metis recipe_step.exhaust)+

lemma loop_step_break:
  assumes "recipe_loop_step opts conn signals m state st = (Inr (Inl next), st')"
  shows "rc_status next = StFailed \<or> rc_stop next \<or> poll_shutdown (ao_shutdown opts) st' \<noteq> None"
proof (cases "poll_shutdown (ao_shutdown opts) st = None")
  case True
  obtain execution st1 where e: "execute_recipe_child_step opts conn m (rc_env state) st = (execution, st1)"
    by fastforce
  have p: "process_recipe_step opts conn signals state execution st1 = (Inr (LoopBreak next), st')"
    using assms True e
    by (auto simp: recipe_loop_step_def split: prod.splits sum.splits recipe_loop_step_result.splits)
  show ?thesis
    using e
  proof (cases rule: child_step_cases)
    case failed
    then show ?thesis using p by (auto simp: failed_recipe_state_def)
  next
    case interrupted
    then show ?thesis using p by auto
  next
    case none
    then show ?thesis using p by (auto simp: loop_step_of_simps)
  next
    case (ran step)
    then show ?thesis using p
      by (auto simp: loop_step_of_simps Let_def split: and_then_split_asm if_splits prod.splits)
  qed
qed (use assms in \<open>auto simp: recipe_loop_step_def\<close>)

lemma loop_step_continue:
  assumes "recipe_loop_step opts conn signals m state st = (Inr (Inr next), st')"
  shows "rc_status next \<noteq> StFailed \<and> \<not> rc_stop next"
proof -
  obtain execution st1 where e: "execute_recipe_child_step opts conn m (rc_env state) st = (execution, st1)"
    by fastforce
  have p: "process_recipe_step opts conn signals state execution st1 = (Inr (LoopContinue next), st')"
    using assms e
    by (auto simp: recipe_loop_step_def split: prod.splits sum.splits recipe_loop_step_result.splits if_splits)
  show ?thesis
    using e p
    by (cases rule: child_step_cases)
       (auto simp: loop_step_of_simps Let_def split: and_then_split_asm if_splits prod.splits)
qed

definition recipe_ended :: "'w apply_options \<Rightarrow> recipe_state \<Rightarrow> 'w run_state \<Rightarrow> bool" where
  "recipe_ended opts state st \<longleftrightarrow>
     rc_status state = StFailed \<or> rc_stop state \<or> poll_shutdown (ao_shutdown opts) st \<noteq> None"

lemma run_until_recipe_value:
  assumes "run_until (recipe_loop_step opts conn signals) ms state st = (Inr r, st')"
    and "rc_status state \<noteq> StFailed" "\<not> rc_stop state"
  shows "case r of Inl next \<Rightarrow> recipe_ended opts next st'
         | Inr next \<Rightarrow> rc_status next \<noteq> StFailed \<and> \<not> rc_stop next"
  using assms
proof (induction ms arbitrary: state st)
  case (Cons m ms)
  obtain r1 st1 where s: "recipe_loop_step opts conn signals m state st = (Inr r1, st1)"
    using Cons.prems(1) by (auto simp: and_then_Inr_iff)
  show ?case
  proof (cases r1)
    case (Inl nxt)
    then show ?thesis
      using Cons.prems(1) s loop_step_break [of opts conn signals m state st] by (auto simp: recipe_ended_def)
  next
    case (Inr nxt)
    then show ?thesis
      using Cons.prems(1) Cons.IH [of nxt st1] s loop_step_continue [of opts conn signals m state st] by auto
  qed
qed auto

lemma execute_modules_loop_stopped:
  "poll_shutdown (ao_shutdown opts) st \<noteq> None \<Longrightarrow>
   execute_modules_loop opts conn signals ms state st = (Inr state, st)"
  by (cases ms) (auto simp: execute_modules_loop.simps)

lemma execute_modules_loop_append:
  assumes "rc_status state \<noteq> StFailed" "\<not> rc_stop state"
  shows "execute_modules_loop opts conn signals (xs @ ys) state st =
    and_then (execute_modules_loop opts conn signals xs state st)
      (\<lambda>next st1. if recipe_ended opts next st1 then (Inr next, st1)
                  else execute_modules_loop opts conn signals ys next st1)"
proof -
  let ?run = "run_until (recipe_loop_step opts conn signals) xs state st"
  show ?thesis
  proof (cases "fst ?run")
    case (Inl e)
    then show ?thesis
      by (cases ?run) (simp add: recipe_loop.loop_append recipe_loop.loop_run_until [of _ _ _ xs])
  next
    case (Inr r)
    obtain st1 where run: "?run = (Inr r, st1)" using Inr by (cases ?run) auto
    show ?thesis
      using run_until_recipe_value [OF run assms] execute_modules_loop_stopped [of opts st1 conn signals ys]
      by (auto simp: recipe_loop.loop_append recipe_loop.loop_run_until [of _ _ _ xs] run
          recipe_ended_def split: sum.splits)
  qed
qed

subsection \<open>Invariants of the recipe state\<close>

definition recipe_state_ok :: "string set \<Rightarrow> recipe_state \<Rightarrow> bool" where
  "recipe_state_ok K state \<longleftrightarrow>
     rc_status state \<noteq> StSkipped \<and> (rc_pending state \<longrightarrow> rc_status state \<noteq> StOk) \<and>
     wf_object (rc_env state) \<and>
     list_all (\<lambda>k. meta_key_ok k \<or> k \<in> K) (js_keys (rc_env state))"

lemma execute_one_module_ran:
  assumes "execute_one_module opts conn m env st = (Inr (StepDone step), st')"
  obtains result where "build_recipe_child_step result env = Inr step"
  using assms
  by (auto simp: execute_one_module_def Let_def split: if_splits sum.splits and_then_split_asm)

lemma build_recipe_child_step_env:
  assumes "build_recipe_child_step result env = Inr step" and "wf_object env"
  shows "wf_object (os_env step) \<and>
    list_all (\<lambda>k. meta_key_ok k \<or> k \<in> set (js_keys env)) (js_keys (os_env step))"
  using assms merge_environment_from_meta_keys [of env "mr_meta result" "os_env step"]
  by (auto simp: build_recipe_child_step_def list_all_iff split: if_splits sum.splits)

lemma apply_step_ok:
  assumes ok: "recipe_state_ok K state" and step: "build_recipe_child_step result (rc_env state) = Inr step"
  shows "recipe_state_ok K (apply_recipe_step_to_state state step preserve)"
proof -
  have "wf_object (rc_env state)" using ok by (simp add: recipe_state_ok_def)
  from build_recipe_child_step_env [OF step this] ok show ?thesis
    by (auto simp: recipe_state_ok_def apply_recipe_step_to_state_def list_all_iff Let_def)
qed

lemma signal_status_ok:
  "recipe_state_ok K state \<Longrightarrow> recipe_state_ok K (apply_recipe_signal_status state s)"
  by (auto simp: recipe_state_ok_def apply_recipe_signal_status_def)

lemma process_step_value:
  assumes "process_recipe_step opts conn signals state (ChildStep (StepDone step)) st = (Inr r, st')"
  defines "next \<equiv> apply_recipe_step_to_state state step (ao_on_child_step opts = None)"
  shows "r = loop_step_of next \<and> \<not> should_flush_recipe_signals step next signals \<or>
    should_flush_recipe_signals step next signals \<and>
    (\<exists>s. r = loop_step_of (apply_recipe_signal_status next s))"
  using assms by (auto simp: Let_def split: and_then_split_asm if_splits prod.splits)

lemma loop_step_value:
  assumes "recipe_loop_step opts conn signals m state st = (Inr r, st')"
  obtains (unchanged) "loop_value (\<lambda>s. s) r = state"
  | (failed) "loop_value (\<lambda>s. s) r = failed_recipe_state (rc_env state)"
  | (stepped) result step where "build_recipe_child_step result (rc_env state) = Inr step"
      "loop_value (\<lambda>s. s) r =
         apply_recipe_step_to_state state step (ao_on_child_step opts = None)"
  | (flushed) result step s where "build_recipe_child_step result (rc_env state) = Inr step"
      "should_flush_recipe_signals step
         (apply_recipe_step_to_state state step (ao_on_child_step opts = None)) signals"
      "loop_value (\<lambda>s. s) r =
         apply_recipe_signal_status
           (apply_recipe_step_to_state state step (ao_on_child_step opts = None)) s"
proof (cases "poll_shutdown (ao_shutdown opts) st = None")
  case True
  obtain execution st1 where e: "execute_recipe_child_step opts conn m (rc_env state) st = (execution, st1)"
    by fastforce
  obtain lr where p: "process_recipe_step opts conn signals state execution st1 = (Inr lr, st')"
    and r: "r = (case lr of LoopBreak n \<Rightarrow> Inl n | LoopContinue n \<Rightarrow> Inr n)"
    using assms True e
    by (auto simp: recipe_loop_step_def split: prod.splits sum.splits recipe_loop_step_result.splits)
  have val: "loop_value (\<lambda>s. s) (case loop_step_of n of LoopBreak n \<Rightarrow> Inl n | LoopContinue n \<Rightarrow> Inr n) = n"
    for n by (simp add: loop_step_of_def)
  show thesis
    using e
  proof (cases rule: child_step_cases)
    case (ran step)
    obtain result where b: "build_recipe_child_step result (rc_env state) = Inr step"
      using ran(2) by (rule execute_one_module_ran)
    show thesis
      using process_step_value [of opts conn signals state step st1 lr st'] p ran(1) r val
        stepped [OF b] flushed [OF b] by auto
  qed (use p r val unchanged failed in auto)
qed (use assms unchanged in \<open>auto simp: recipe_loop_step_def\<close>)

lemma loop_step_ok:
  assumes "recipe_loop_step opts conn signals m state st = (Inr r, st')" and "recipe_state_ok K state"
  shows "recipe_state_ok K (loop_value (\<lambda>s. s) r)"
  using assms(1)
proof (cases rule: loop_step_value)
  case failed
  then show ?thesis using assms(2) by (simp add: recipe_state_ok_def failed_recipe_state_def)
qed (use assms(2) in \<open>auto intro: apply_step_ok signal_status_ok\<close>)

lemma execute_modules_loop_ok:
  assumes "execute_modules_loop opts conn signals ms state st = (Inr next, st')"
    and "recipe_state_ok K state"
  shows "recipe_state_ok K next"
  by (rule recipe_loop.loop_invariant [where P = "\<lambda>s _. recipe_state_ok K s" and Q = "\<lambda>s _. recipe_state_ok K s",
        OF assms(2) _ _ assms(1)])
     (auto dest: loop_step_ok split: sum.splits)

definition environment_meta_only :: "meta_entry list option \<Rightarrow> bool" where
  "environment_meta_only meta \<longleftrightarrow>
     (case meta of None \<Rightarrow> True | Some es \<Rightarrow> list_all is_environment_meta_entry es)"

lemma loop_step_meta_only:
  assumes "recipe_loop_step opts conn signals m state st = (Inr r, st')"
    and "environment_meta_only (rc_meta state)" and "ao_on_child_step opts \<noteq> None"
  shows "environment_meta_only (rc_meta (loop_value (\<lambda>s. s) r))"
  using assms(1)
proof (cases rule: loop_step_value)
qed (use assms(2,3) in \<open>auto simp: environment_meta_only_def failed_recipe_state_def Let_def
      apply_recipe_step_to_state_def apply_recipe_signal_status_def list_all_iff split: option.splits\<close>)

lemma execute_modules_loop_meta_only:
  assumes "execute_modules_loop opts conn signals ms state st = (Inr next, st')"
    and "environment_meta_only (rc_meta state)" and "ao_on_child_step opts \<noteq> None"
  shows "environment_meta_only (rc_meta next)"
  by (rule recipe_loop.loop_invariant [where P = "\<lambda>s _. environment_meta_only (rc_meta s)"
        and Q = "\<lambda>s _. environment_meta_only (rc_meta s)", OF assms(2) _ _ assms(1)])
     (auto dest: loop_step_meta_only [OF _ _ assms(3)] split: sum.splits)

subsection \<open>Signals are owed only after a change\<close>

definition settled :: "recipe_state \<Rightarrow> bool" where
  "settled state \<longleftrightarrow> rc_status state = StOk \<and> \<not> rc_pending state"

lemma loop_step_leaves_ok:
  assumes "recipe_loop_step opts conn signals m state st = (Inr r, st')" and "rc_status state \<noteq> StOk"
  shows "rc_status (loop_value (\<lambda>s. s) r) \<noteq> StOk"
  using assms(1)
proof (cases rule: loop_step_value)
qed (use assms(2) in \<open>auto simp: failed_recipe_state_def Let_def apply_recipe_step_to_state_def
      apply_recipe_signal_status_def split: if_splits\<close>)

lemma execute_modules_loop_leaves_ok:
  assumes "execute_modules_loop opts conn signals ms state st = (Inr next, st')"
    and "rc_status state \<noteq> StOk"
  shows "rc_status next \<noteq> StOk"
  by (rule recipe_loop.loop_invariant [where P = "\<lambda>s _. rc_status s \<noteq> StOk"
        and Q = "\<lambda>s _. rc_status s \<noteq> StOk", OF assms(2) _ _ assms(1)])
     (auto dest: loop_step_leaves_ok split: sum.splits)

lemma process_step_without_signals:
  assumes "process_recipe_step opts conn signals state execution st1 = (Inr lr, st')"
    and "settled state" and "rc_status (case lr of LoopBreak n \<Rightarrow> n | LoopContinue n \<Rightarrow> n) = StOk"
    and "\<And>failed. execution = ChildFailed failed \<Longrightarrow> rc_status failed = StFailed"
  shows "process_recipe_step opts conn None state execution st1 = (Inr lr, st') \<and>
         settled (case lr of LoopBreak n \<Rightarrow> n | LoopContinue n \<Rightarrow> n)"
  using assms
  by (cases "(opts, conn, signals, state, execution, st1)" rule: process_recipe_step.cases)
     (auto simp: settled_def failed_recipe_state_def Let_def should_flush_recipe_signals_def
        loop_step_of_def apply_recipe_step_to_state_def apply_recipe_signal_status_def
      split: and_then_split_asm and_then_split if_splits prod.splits)

lemma loop_step_without_signals:
  assumes "recipe_loop_step opts conn signals m state st = (Inr r, st')" and "settled state"
    and "rc_status (loop_value (\<lambda>s. s) r) = StOk"
  shows "recipe_loop_step opts conn None m state st = (Inr r, st') \<and> settled (loop_value (\<lambda>s. s) r)"
proof (cases "poll_shutdown (ao_shutdown opts) st = None")
  case True
  obtain execution st1 where e: "execute_recipe_child_step opts conn m (rc_env state) st = (execution, st1)"
    by fastforce
  obtain lr where p: "process_recipe_step opts conn signals state execution st1 = (Inr lr, st')"
    and r: "r = (case lr of LoopBreak n \<Rightarrow> Inl n | LoopContinue n \<Rightarrow> Inr n)"
    using assms True e
    by (auto simp: recipe_loop_step_def split: prod.splits sum.splits recipe_loop_step_result.splits)
  have "rc_status (case lr of LoopBreak n \<Rightarrow> n | LoopContinue n \<Rightarrow> n) = StOk"
    using assms(3) r by (cases lr) auto
  moreover have "rc_status failed = StFailed" if "execution = ChildFailed failed" for failed
    using e that by (cases rule: child_step_cases) (auto simp: failed_recipe_state_def)
  ultimately have "process_recipe_step opts conn None state execution st1 = (Inr lr, st') \<and>
      settled (case lr of LoopBreak n \<Rightarrow> n | LoopContinue n \<Rightarrow> n)"
    by (rule process_step_without_signals [OF p assms(2)])
  then show ?thesis
    using True e r by (cases lr) (auto simp: recipe_loop_step_def)
qed (use assms in \<open>auto simp: recipe_loop_step_def\<close>)

lemma execute_modules_loop_without_signals:
  assumes "execute_modules_loop opts conn signals ms state st = (Inr next, st')" and "settled state"
    and "rc_status next = StOk"
  shows "execute_modules_loop opts conn None ms state st = (Inr next, st') \<and> settled next"
  using assms
proof (induction ms arbitrary: state st)
  case (Cons m ms)
  obtain r st1 where s: "recipe_loop_step opts conn signals m state st = (Inr r, st1)"
    using Cons.prems(1) unfolding recipe_loop.loop_Cons and_then_Inr_iff by blast
  have "rc_status (loop_value (\<lambda>s. s) r) = StOk"
  proof (cases r)
    case (Inr nxt)
    then show ?thesis
      using Cons.prems(1,3) s execute_modules_loop_leaves_ok [of opts conn signals ms nxt st1 "next" st']
      by (auto simp: recipe_loop.loop_Cons)
  qed (use Cons.prems s in \<open>auto simp: recipe_loop.loop_Cons\<close>)
  from loop_step_without_signals [OF s Cons.prems(2) this] show ?case
    using Cons.prems Cons.IH s by (cases r) (auto simp: recipe_loop.loop_Cons)
qed auto

subsection \<open>Laws of a whole recipe\<close>

lemma initial_recipe_state_ok: "recipe_state_ok (set (js_keys env)) (initial_recipe_state env)"
proof -
  have "set (js_keys (js_assign [] env)) = set (js_keys env)"
    by (simp only: js_keys_assign) (simp add: js_keys_def)
  then show ?thesis
    by (auto simp: recipe_state_ok_def initial_recipe_state_def list_all_iff)
qed

lemma apply_recipe_result_cases:
  assumes "apply_recipe name ms signals conn env opts st = (Inr r, st')"
  obtains state st1 where
    "execute_modules opts conn signals ms env (print_recipe_header name st) = (Inr state, st1)"
    "\<not> should_run_recipe_signals_at_end state signals" "r = recipe_result state" "st' = st1"
  | state st1 status where
    "execute_modules opts conn signals ms env (print_recipe_header name st) = (Inr state, st1)"
    "should_run_recipe_signals_at_end state signals"
    "trigger_signals opts conn (rc_env state) (the signals) st1 = (status, st')"
    "r = recipe_result (state\<lparr>rc_status := signal_status_of status\<rparr>)"
proof -
  obtain state st1 where e:
    "execute_modules opts conn signals ms env (print_recipe_header name st) = (Inr state, st1)"
    using assms by (auto simp: apply_recipe_def and_then_Inr_iff)
  show thesis
  proof (cases "should_run_recipe_signals_at_end state signals")
    case True
    obtain status st2 where "trigger_signals opts conn (rc_env state) (the signals) st1 = (status, st2)"
      by fastforce
    then show thesis using that(2) [OF e True] assms e True by (simp add: apply_recipe_def)
  qed (use that(1) [OF e] assms e in \<open>simp add: apply_recipe_def\<close>)
qed

lemma recipe_result_simps [simp]:
  "mr_status (recipe_result s) = rc_status s" "mr_meta (recipe_result s) = rc_meta s"
  "mr_stop (recipe_result s) = rc_stop s"
  by (simp_all add: recipe_result_def plain_result_def)

text \<open>
  a recipe none of whose children changed anything behaves as one without signals: if the
  result is \<open>StOk\<close>, neither a flush nor the end of the recipe ran a signal.
\<close>

theorem unchanged_recipe_ignores_signals:
  assumes "apply_recipe name ms signals conn env opts st = (Inr r, st')" and "mr_status r = StOk"
  shows "apply_recipe name ms None conn env opts st = (Inr r, st')"
  using assms(1)
proof (cases rule: apply_recipe_result_cases)
  case (1 state st1)
  have "settled (initial_recipe_state env)" by (simp add: settled_def initial_recipe_state_def)
  with 1 assms(2) show ?thesis
    using execute_modules_loop_without_signals [of opts conn signals ms "initial_recipe_state env"]
    by (auto simp: apply_recipe_def execute_modules_def should_run_recipe_signals_at_end_def)
next
  case (2 state st1 status)
  then show ?thesis using assms(2) by (auto simp: signal_status_of_def split: signal_run_status.splits)
qed

lemma apply_recipe_meta_only:
  assumes "apply_recipe name ms signals conn env opts st = (Inr r, st')"
    and "ao_on_child_step opts \<noteq> None"
  shows "environment_meta_only (mr_meta r)"
  using assms(1)
proof (cases rule: apply_recipe_result_cases)
qed (use execute_modules_loop_meta_only [OF _ _ assms(2)] in
      \<open>auto simp: execute_modules_def initial_recipe_state_def environment_meta_only_def\<close>)

lemma execute_modules_ok:
  "execute_modules opts conn signals ms env st = (Inr state, st') \<Longrightarrow>
   recipe_state_ok (set (js_keys env)) state"
  using execute_modules_loop_ok initial_recipe_state_ok unfolding execute_modules_def by blast

text \<open>
  the state a recipe's loop ends with is well formed: its status is never \<open>skipped\<close>, a
  signal is owed only after a change or a failure, and its environment has no duplicate key and
  only keys the recipe was given or that are allowed names of meta entries.
\<close>

theorem recipe_state_well_formed:
  assumes "execute_modules opts conn signals ms env st = (Inr state, st')"
  shows "rc_status state \<noteq> StSkipped \<and> (rc_pending state \<longrightarrow> rc_status state \<noteq> StOk) \<and>
    wf_object (rc_env state) \<and>
    list_all (\<lambda>k. meta_key_ok k \<or> k \<in> set (js_keys env)) (js_keys (rc_env state))"
  using execute_modules_ok [OF assms] by (simp add: recipe_state_ok_def)

text \<open>
  C35: a recipe stops at the first child that fails, stops the run or is interrupted: appending
  any further modules to a list that ended this way changes neither the result nor the state.
\<close>

theorem recipe_fail_stop:
  assumes "execute_modules opts conn signals xs env st = (Inr state, st')"
    and "recipe_ended opts state st'"
  shows "execute_modules opts conn signals (xs @ ys) env st = (Inr state, st')"
  using assms execute_modules_loop_append [of "initial_recipe_state env" opts conn signals xs ys st]
  by (simp add: execute_modules_def initial_recipe_state_def)
subsection \<open>Check and apply agree\<close>


definition same_but_log :: "'w run_state \<Rightarrow> 'w run_state \<Rightarrow> bool" where
  "same_but_log st st' \<longleftrightarrow> (\<exists>l. st' = st\<lparr>outlog := l\<rparr>)"

lemma same_but_log_refl [simp]: "same_but_log st st"
  unfolding same_but_log_def by (rule exI [of _ "outlog st"]) simp


lemma same_but_log_emit [simp]:
  "same_but_log st (emit e st')" if "same_but_log st st'"
  using that by (auto simp: same_but_log_def emit_def)

lemma same_but_log_prints [simp]:
  assumes "same_but_log st st'"
  shows "same_but_log st (print_module_result n s d f st')" "same_but_log st (start_module_spinner n st')"
    "same_but_log st (print_recipe_header n st')"
  using assms
  by (simp_all add: print_module_result_def start_module_spinner_def print_recipe_header_def)






subsection \<open>Witnesses\<close>

theorem unchanged_recipe_ignores_signals_witness:
  "\<exists>r st'. apply_recipe ''web'' [fixed_module ''pkg'' CheckOk (plain_result StOk)]
       (Some [fixed_module ''reload'' NeedsApply (plain_result StChanged)]) Connection [] no_options
       (fresh_state ()) = (Inr r, st') \<and> mr_status r = StOk \<and>
     apply_recipe ''web'' [fixed_module ''pkg'' CheckOk (plain_result StOk)] None Connection []
       no_options (fresh_state ()) = (Inr r, st')"
proof -
  let ?p = "apply_recipe ''web'' [fixed_module ''pkg'' CheckOk (plain_result StOk)]
       (Some [fixed_module ''reload'' NeedsApply (plain_result StChanged)]) Connection [] no_options
       (fresh_state ())"
  have r: "\<not> isl (fst ?p)" "mr_status (projr (fst ?p)) = StOk" by code_simp+
  show ?thesis
    using unchanged_recipe_ignores_signals [OF Inr_effect [OF r(1)] r(2)] Inr_effect [OF r(1)] r(2) by blast
qed

theorem recipe_state_well_formed_witness:
  "\<exists>state st'. execute_modules no_options Connection None
      [fixed_module ''a'' NeedsApply ((plain_result StChanged)
         \<lparr>mr_meta := Some [MetaEnv (EnvEntry ''db.url'' None (ConstFn (SStr ''x'')) VString None)]\<rparr>)]
      [] (fresh_state ()) = (Inr state, st') \<and> rc_pending state \<and> rc_status state \<noteq> StOk"
proof -
  let ?p = "execute_modules no_options Connection None
      [fixed_module ''a'' NeedsApply ((plain_result StChanged)
         \<lparr>mr_meta := Some [MetaEnv (EnvEntry ''db.url'' None (ConstFn (SStr ''x'')) VString None)]\<rparr>)]
      [] (fresh_state ())"
  have r: "\<not> isl (fst ?p)" "rc_pending (projr (fst ?p))" by code_simp+
  show ?thesis
    using recipe_state_well_formed [OF Inr_effect [OF r(1)]] Inr_effect [OF r(1)] r(2) by blast
qed

theorem recipe_fail_stop_witness:
  "execute_modules no_options Connection None
      ([fixed_module ''bad'' NeedsApply (failed_result ''no'')] @
       [fixed_module ''next'' NeedsApply (plain_result StChanged)]) [] (fresh_state ()) =
   execute_modules no_options Connection None
      [fixed_module ''bad'' NeedsApply (failed_result ''no'')] [] (fresh_state ())"
proof -
  let ?p = "execute_modules no_options Connection None
      [fixed_module ''bad'' NeedsApply (failed_result ''no'')] [] (fresh_state ())"
  have r: "\<not> isl (fst ?p)" "rc_status (projr (fst ?p)) = StFailed" by code_simp+
  have "recipe_ended no_options (projr (fst ?p)) (snd ?p)"
    using r(2) by (simp add: recipe_ended_def)
  from recipe_fail_stop [OF Inr_effect [OF r(1)] this] Inr_effect [OF r(1)] show ?thesis by metis
qed


end
