(* ===== verification/DryRun.thy ===== *)
theory DryRun
  imports Recipe
begin

text \<open>
  The dry run of modules and recipes (\<^verbatim>\<open>dryRunDispatch.ts\<close>, \<^verbatim>\<open>dryRunRecipe.ts\<close>): every
  child is checked, a recipe is always descended into, and an \<^verbatim>\<open>apply\<close> or
  \<^verbatim>\<open>_applyDryRun\<close> is dispatched only where \<open>should_execute_apply_during_dry_run\<close>
  allows it.
\<close>

definition should_execute_apply_during_dry_run :: "'w module \<Rightarrow> bool \<Rightarrow> bool" where
  "should_execute_apply_during_dry_run m diff_enabled =
     (let c = core m
      in if mc_dry_run_blocker c \<or> mc_dry_run_meta_producer c then True
         else if diff_enabled \<and> mc_dry_run_diff_producer c \<and> mc_apply_dry_run c \<noteq> None then True
         else mc_apply_dry_run c \<noteq> None \<and> \<not> mc_dry_run_diff_producer c)"

record dry_run_step_result =
  dr_env :: environment
  dr_meta :: "meta_entry list option"
  dr_break :: bool
  dr_status :: "module_status option"
  dr_stop :: bool

record dry_run_accumulator =
  da_meta :: "meta_entry list"
  da_status :: module_status
  da_env :: environment

definition quiet_break :: "environment \<Rightarrow> dry_run_step_result" where
  "quiet_break env =
     \<lparr>dr_env = env, dr_meta = None, dr_break = True, dr_status = None, dr_stop = False\<rparr>"

definition some_unless_empty :: "'a list \<Rightarrow> 'a list option" where
  "some_unless_empty xs = (if xs = [] then None else Some xs)"

definition interrupted_dry_run_result :: "dry_run_accumulator \<Rightarrow> dry_run_step_result" where
  "interrupted_dry_run_result acc =
     \<lparr>dr_env = da_env acc, dr_meta = some_unless_empty (da_meta acc), dr_break = True,
      dr_status = (if da_status acc = StChanged then Some StChanged else None), dr_stop = False\<rparr>"

definition dry_run_note :: string where
  "dry_run_note = ''(dry-run)''"

definition dispatch_dry_run ::
  "'w module \<Rightarrow> connection \<Rightarrow> bool \<Rightarrow> environment \<Rightarrow> bool \<Rightarrow> bool \<Rightarrow> (module_result, 'w run_state) effect"
where
  "dispatch_dry_run m conn diff env shutdown verbose st =
     (case mc_apply_dry_run (core m) of
        None \<Rightarrow> mc_apply (core m) conn env no_options st
      | Some dry \<Rightarrow>
          dry conn env (no_options\<lparr>ao_diff := diff, ao_shutdown := shutdown, ao_verbose := verbose\<rparr>) st)"

definition execute_dry_run_blocking_module ::
  "'w module \<Rightarrow> connection \<Rightarrow> bool \<Rightarrow> environment \<Rightarrow> bool \<Rightarrow> bool
     \<Rightarrow> (dry_run_step_result, 'w run_state) effect" where
  "execute_dry_run_blocking_module m conn diff env shutdown verbose st =
     (if poll_shutdown shutdown st \<noteq> None then (Inr (quiet_break env), st)
      else and_then
        (dispatch_dry_run m conn diff env shutdown verbose (start_module_spinner (mod_name m) st))
        (\<lambda>result st1.
           and_then (lift_result (merge_environment_from_meta env (mr_meta result)) st1)
             (\<lambda>next_environment st2.
                let detail = (case mr_dry_run_detail result of None \<Rightarrow> dry_run_note | Some d \<Rightarrow> d);
                    diff_output = (if diff then mr_diff result else None);
                    st3 = print_module_result (mod_name m) (mr_status result) (Some detail) diff_output st2;
                    st4 = (case mr_error result of
                             Some e \<Rightarrow> if mr_status result = StFailed
                                       then print_command_failure e verbose st3 else st3
                           | None \<Rightarrow> st3)
                in (Inr \<lparr>dr_env = next_environment, dr_meta = mr_meta result,
                         dr_break = (mr_status result = StFailed \<or> mr_stop result),
                         dr_status = Some (mr_status result), dr_stop = mr_stop result\<rparr>, st4))))"

text \<open>A child that is not a recipe.\<close>

definition dry_run_leaf ::
  "'w module \<Rightarrow> connection \<Rightarrow> bool \<Rightarrow> environment \<Rightarrow> bool \<Rightarrow> bool
     \<Rightarrow> (dry_run_step_result, 'w run_state) effect" where
  "dry_run_leaf m connection diff env shutdown verbose st =
     and_then (mc_check (core m) connection env (start_module_spinner (mod_name m) st))
       (\<lambda>checked st1.
          if poll_shutdown shutdown st1 \<noteq> None then (Inr (quiet_break env), st1)
          else if checked \<noteq> CheckOk \<and> should_execute_apply_during_dry_run m diff
          then execute_dry_run_blocking_module m connection diff env shutdown verbose st1
          else
            (let status = (if checked = CheckOk then StOk else StChanged);
                 suffix = (if checked = CheckOk then None else Some dry_run_note)
             in (Inr \<lparr>dr_env = env, dr_meta = None, dr_break = False, dr_status = Some status,
                      dr_stop = False\<rparr>,
                 print_module_result (mod_name m) status suffix None st1)))"

definition was_dry_run_descent_interrupted ::
  "dry_run_step_result \<Rightarrow> bool \<Rightarrow> 'w run_state \<Rightarrow> bool" where
  "was_dry_run_descent_interrupted result shutdown st \<longleftrightarrow>
     dr_break result \<and> poll_shutdown shutdown st \<noteq> None"

definition close_dry_run_child_recipe ::
  "'w module_core \<Rightarrow> bool \<Rightarrow> dry_run_step_result \<Rightarrow> (dry_run_step_result, 'w run_state) effect" where
  "close_dry_run_child_recipe c shutdown result st =
     (Inr result,
      case dr_status result of
        Some status \<Rightarrow>
          if \<not> was_dry_run_descent_interrupted result shutdown st
          then print_module_result (mc_name c) status (Some dry_run_note) None st else st
      | None \<Rightarrow> st)"

definition apply_dry_run_child_result ::
  "dry_run_accumulator \<Rightarrow> dry_run_step_result \<Rightarrow> dry_run_accumulator" where
  "apply_dry_run_child_result acc result =
     \<lparr>da_meta = (case dr_meta result of None \<Rightarrow> da_meta acc | Some es \<Rightarrow> da_meta acc @ es),
      da_status = (if dr_status result = Some StChanged then StChanged else da_status acc),
      da_env = dr_env result\<rparr>"

definition initial_dry_run_accumulator :: "environment \<Rightarrow> dry_run_accumulator" where
  "initial_dry_run_accumulator env = \<lparr>da_meta = [], da_status = StOk, da_env = env\<rparr>"

definition finish_dry_run :: "dry_run_accumulator + dry_run_step_result \<Rightarrow> dry_run_step_result" where
  "finish_dry_run loop_result =
     (case loop_result of
        Inr result \<Rightarrow> result
      | Inl acc \<Rightarrow>
          \<lparr>dr_env = da_env acc, dr_meta = some_unless_empty (da_meta acc), dr_break = False,
           dr_status = Some (da_status acc), dr_stop = False\<rparr>)"

fun dry_run_child ::
  "connection \<Rightarrow> bool \<Rightarrow> bool \<Rightarrow> bool \<Rightarrow> 'w module \<Rightarrow> environment
     \<Rightarrow> (dry_run_step_result, 'w run_state) effect"
and dry_run_child_loop ::
  "connection \<Rightarrow> bool \<Rightarrow> bool \<Rightarrow> bool \<Rightarrow> 'w module list \<Rightarrow> dry_run_accumulator
     \<Rightarrow> (dry_run_accumulator + dry_run_step_result, 'w run_state) effect"
where
  "dry_run_child conn diff shutdown verbose (LeafModule c) env st =
     (if poll_shutdown shutdown st \<noteq> None then (Inr (quiet_break env), st)
      else dry_run_leaf (LeafModule c) (child_connection (LeafModule c) conn) diff env shutdown verbose st)"
| "dry_run_child conn diff shutdown verbose (RecipeModule c ms sigs) env st =
     (if poll_shutdown shutdown st \<noteq> None then (Inr (quiet_break env), st)
      else and_then
        (dry_run_child_loop (child_connection (RecipeModule c ms sigs) conn) diff shutdown verbose ms
           (initial_dry_run_accumulator env) (print_recipe_header (mc_name c) st))
        (\<lambda>loop_result. close_dry_run_child_recipe c shutdown (finish_dry_run loop_result)))"
| "dry_run_child_loop conn diff shutdown verbose [] acc st = (Inr (Inl acc), st)"
| "dry_run_child_loop conn diff shutdown verbose (m # ms) acc st =
     (if poll_shutdown shutdown st \<noteq> None then (Inr (Inr (interrupted_dry_run_result acc)), st)
      else and_then (dry_run_child conn diff shutdown verbose m (da_env acc) st)
        (\<lambda>result st1.
           if dr_break result then (Inr (Inr result), st1)
           else dry_run_child_loop conn diff shutdown verbose ms
                  (apply_dry_run_child_result acc result) st1))"

definition dry_run_recipe_module ::
  "connection \<Rightarrow> bool \<Rightarrow> bool \<Rightarrow> bool \<Rightarrow> string \<Rightarrow> 'w module list \<Rightarrow> environment
     \<Rightarrow> (dry_run_step_result, 'w run_state) effect" where
  "dry_run_recipe_module conn diff shutdown verbose name modules env st =
     and_then
       (dry_run_child_loop conn diff shutdown verbose modules (initial_dry_run_accumulator env)
          (print_recipe_header name st))
       (\<lambda>loop_result st1. (Inr (finish_dry_run loop_result), st1))"

subsection \<open>A dry run does not apply\<close>

text \<open>
  \<open>disarm\<close> replaces everything of a module tree a dry run has no business with: the
  \<^verbatim>\<open>apply\<close> of every leaf that is not a marked one without a dry-run hook, and the
  \<^verbatim>\<open>check\<close>, \<^verbatim>\<open>apply\<close> and signals of every recipe.
\<close>

definition applies_in_dry_run :: "'w module_core \<Rightarrow> bool" where
  "applies_in_dry_run c \<longleftrightarrow>
     mc_apply_dry_run c = None \<and> (mc_dry_run_blocker c \<or> mc_dry_run_meta_producer c)"

fun disarm :: "'w check_fn \<Rightarrow> 'w apply_fn \<Rightarrow> 'w module \<Rightarrow> 'w module" where
  "disarm chk app (LeafModule c) = LeafModule (if applies_in_dry_run c then c else c\<lparr>mc_apply := app\<rparr>)"
| "disarm chk app (RecipeModule c ms sigs) =
     RecipeModule (c\<lparr>mc_check := chk, mc_apply := app\<rparr>) (map (disarm chk app) ms) None"

lemma disarm_core [simp]:
  "mc_name (core (disarm chk app m)) = mc_name (core m)"
  "mc_local (core (disarm chk app m)) = mc_local (core m)"
  "child_connection (disarm chk app m) conn = child_connection m conn"
  by (cases m; simp add: child_connection_def)+

lemma dry_run_leaf_disarm:
  "dry_run_leaf (disarm chk app (LeafModule c)) conn diff env sh verbose st =
   dry_run_leaf (LeafModule c) conn diff env sh verbose st"
proof (cases "applies_in_dry_run c")
  case False
  let ?m = "LeafModule (c\<lparr>mc_apply := app\<rparr>)"
  have s: "should_execute_apply_during_dry_run ?m diff = should_execute_apply_during_dry_run (LeafModule c) diff"
    by (simp add: should_execute_apply_during_dry_run_def)
  have d: "dispatch_dry_run ?m conn diff env sh verbose = dispatch_dry_run (LeafModule c) conn diff env sh verbose"
    if "should_execute_apply_during_dry_run (LeafModule c) diff"
    using that False
    by (auto simp: should_execute_apply_during_dry_run_def applies_in_dry_run_def dispatch_dry_run_def
        Let_def fun_eq_iff split: if_splits)
  show ?thesis
    using False
    by (auto simp: dry_run_leaf_def s d execute_dry_run_blocking_module_def Let_def
        intro!: arg_cong [where f = "and_then _"] ext)
qed simp

lemma dry_run_disarm:
  "dry_run_child conn diff sh verbose (disarm chk app m) env st =
     dry_run_child conn diff sh verbose m env st"
  "dry_run_child_loop conn diff sh verbose (map (disarm chk app) ms) acc st =
     dry_run_child_loop conn diff sh verbose ms acc st"
proof (induction conn diff sh verbose m env st and conn diff sh verbose ms acc st
    rule: dry_run_child_dry_run_child_loop.induct)
  case (1 conn diff shutdown verbose c env st)
  then show ?case
    using dry_run_leaf_disarm [of chk app c] by (cases "applies_in_dry_run c") (auto simp: child_connection_def)
next
  case (2 conn diff shutdown verbose c ms sigs env st)
  then show ?case
    by (auto simp: child_connection_def close_dry_run_child_recipe_def
        intro!: arg_cong2 [where f = and_then] ext split: if_splits option.splits)
next
  case (3 conn diff shutdown verbose acc st)
  then show ?case by simp
next
  case (4 conn diff shutdown verbose m ms acc st)
  show ?case
    using 4 by (cases "poll_shutdown shutdown st";
        cases "dry_run_child conn diff shutdown verbose m (da_env acc) st";
        cases "fst (dry_run_child conn diff shutdown verbose m (da_env acc) st)") auto
qed

subsection \<open>The loop as a breaking loop\<close>

definition dry_run_loop_step ::
  "connection \<Rightarrow> bool \<Rightarrow> bool \<Rightarrow> bool \<Rightarrow> 'w module \<Rightarrow> dry_run_accumulator
     \<Rightarrow> ((dry_run_accumulator + dry_run_step_result) + dry_run_accumulator, 'w run_state) effect" where
  "dry_run_loop_step conn diff shutdown verbose m acc st =
     (if poll_shutdown shutdown st \<noteq> None then (Inr (Inl (Inr (interrupted_dry_run_result acc))), st)
      else and_then (dry_run_child conn diff shutdown verbose m (da_env acc) st)
        (\<lambda>result st1.
           (Inr (if dr_break result then Inl (Inr result)
                 else Inr (apply_dry_run_child_result acc result)), st1)))"

interpretation dry_run_loop:
  breaking_loop "dry_run_child_loop conn diff shutdown verbose"
    "dry_run_loop_step conn diff shutdown verbose" Inl
  for conn :: connection and diff shutdown verbose :: bool
  by unfold_locales
    (auto simp: dry_run_loop_step_def and_then_def split: prod.splits sum.splits)


subsection \<open>Properties\<close>

text \<open>
  C16: a dry run is independent of everything it must not touch: replacing the apply
  function of every module that is not a marked one without a dry-run hook, and the check, apply and
  signals of every recipe, by arbitrary functions changes neither its result nor its state.
\<close>

theorem dry_run_does_not_apply:
  "dry_run_recipe_module conn diff sh verbose name (map (disarm chk app) ms) env st =
   dry_run_recipe_module conn diff sh verbose name ms env st"
  by (simp add: dry_run_recipe_module_def dry_run_disarm)

text \<open>
  a child that ends a dry run ends it for good: with or without further children the
  result and the state are the same.
\<close>

theorem dry_run_break_is_final:
  assumes "left_early (run_until (dry_run_loop_step conn diff sh verbose) xs acc st)"
  shows "dry_run_child_loop conn diff sh verbose (xs @ ys) acc st =
         dry_run_child_loop conn diff sh verbose xs acc st"
  using assms by (rule dry_run_loop.loop_left_early)

definition stop_module :: "string \<Rightarrow> 'w module" where
  "stop_module name =
     LeafModule ((fixed_core name NeedsApply ((plain_result StOk)\<lparr>mr_stop := True\<rparr>))
       \<lparr>mc_dry_run_blocker := True\<rparr>)"

theorem dry_run_break_is_final_witness:
  "dry_run_child_loop Connection False False False ([stop_module ''stop''] @ [fixed_module ''a'' NeedsApply (plain_result StChanged)])
     (initial_dry_run_accumulator []) (fresh_state ()) =
   dry_run_child_loop Connection False False False [stop_module ''stop'']
     (initial_dry_run_accumulator []) (fresh_state ())"
  by (rule dry_run_break_is_final)
     (simp add: left_early_def dry_run_loop_step_def stop_module_def fixed_core_def poll_shutdown_def
        dry_run_leaf_def child_connection_def should_execute_apply_during_dry_run_def Let_def
        execute_dry_run_blocking_module_def dispatch_dry_run_def lift_result_def plain_result_def
        merge_environment_from_meta_def initial_dry_run_accumulator_def)

text \<open>
  The aggregated status of a dry run that a child ends is the status of that child alone:
  a recipe whose first child would change and whose second stops the run is reported as
  \<open>StOk\<close>, while applying it reports \<open>StChanged\<close>.
\<close>

lemma dry_run_stop_drops_changed:
  "map_sum id dr_status (fst (dry_run_recipe_module Connection False False False ''boot''
      [fixed_module ''a'' NeedsApply (plain_result StChanged), stop_module ''stop''] [] (fresh_state ())))
     = Inr (Some StOk)"
  "map_sum id mr_status (fst (apply_recipe ''boot''
      [fixed_module ''a'' NeedsApply (plain_result StChanged), stop_module ''stop''] None Connection []
      no_options (fresh_state ())))
     = Inr StChanged"
  by code_simp+

end
