(* ===== verification/Conditional.thy ===== *)
theory Conditional
  imports DryRun
begin

text \<open>
  Guarded blocks (\<^verbatim>\<open>conditionalExecution.ts\<close>, \<^verbatim>\<open>conditionalModules.ts\<close>). A
  \<^verbatim>\<open>when(...)\<close> block is a leaf whose \<^verbatim>\<open>check\<close>, \<^verbatim>\<open>apply\<close> and \<^verbatim>\<open>_applyDryRun\<close> close
  over its children and over one mutable variable, the memo of the guard
  (\<^verbatim>\<open>checkedCondition\<close>), which is the cell \<open>memo_id\<close> of \<open>memos\<close>. Blocks built by
  different calls have different cells.
\<close>

record conditional_state =
  cs_env :: environment
  cs_flush :: bool
  cs_meta :: "meta_entry list"
  cs_status :: module_status
  cs_stop :: bool

record 'w conditional_context =
  cc_diff :: bool
  cc_dry_run :: bool
  cc_on_child_step :: "'w step_hook option"
  cc_shutdown :: bool
  cc_conn :: connection
  cc_verbose :: bool

datatype conditional_step_result =
    CondBreak conditional_state
  | CondContinue conditional_state
  | CondFailed module_result

definition create_conditional_apply_state :: "environment \<Rightarrow> conditional_state" where
  "create_conditional_apply_state env =
     \<lparr>cs_env = js_assign [] env, cs_flush = False, cs_meta = [], cs_status = StOk, cs_stop = False\<rparr>"

definition execute_conditional_apply ::
  "'w conditional_context \<Rightarrow> connection \<Rightarrow> 'w module \<Rightarrow> environment
     \<Rightarrow> (module_result, 'w run_state) effect" where
  "execute_conditional_apply ctx conn m env =
     (if mc_supports_child_step_hook (core m)
      then mc_apply (core m) conn env
             (no_options\<lparr>ao_on_child_step := cc_on_child_step ctx, ao_shutdown := cc_shutdown ctx\<rparr>)
      else mc_apply (core m) conn env no_options)"

definition merge_conditional_apply_state ::
  "bool \<Rightarrow> conditional_state \<Rightarrow> module_result \<Rightarrow> conditional_state result" where
  "merge_conditional_apply_state preserve_control_plane_meta state result =
     (case merge_environment_from_meta (cs_env state) (mr_meta result) of
        Inl e \<Rightarrow> Inl e
      | Inr env \<Rightarrow>
          Inr \<lparr>cs_env = env,
               cs_flush = (if mr_flush result then True else cs_flush state),
               cs_meta = (case mr_meta result of
                            None \<Rightarrow> cs_meta state
                          | Some es \<Rightarrow>
                              cs_meta state @
                              (if preserve_control_plane_meta then es
                               else filter is_environment_meta_entry es)),
               cs_status = (if mr_status result = StChanged then StChanged else cs_status state),
               cs_stop = (if mr_stop result then True else cs_stop state)\<rparr>)"

definition process_conditional_apply_result ::
  "'w step_hook option \<Rightarrow> module_result \<Rightarrow> conditional_state \<Rightarrow> (conditional_state, 'w run_state) effect"
where
  "process_conditional_apply_result on_child_step result state st =
     and_then (lift_result (merge_conditional_apply_state (on_child_step = None) state result) st)
       (\<lambda>next st1.
     and_then
       (call_hook on_child_step
          \<lparr>os_env = cs_env next, os_meta = mr_meta result, os_status = mr_status result,
           os_flush = mr_flush result, os_stop = mr_stop result\<rparr> st1)
       (\<lambda>_ st2. (Inr next, st2)))"

definition apply_conditional_apply_step ::
  "'w conditional_context \<Rightarrow> 'w module \<Rightarrow> conditional_state
     \<Rightarrow> (conditional_step_result, 'w run_state) effect" where
  "apply_conditional_apply_step ctx m state st =
     (let connection = child_connection m (cc_conn ctx)
      in and_then (mc_check (core m) connection (cs_env state) (start_module_spinner (mod_name m) st))
        (\<lambda>checked st1.
           if checked = CheckOk
           then (Inr (CondContinue state), print_module_result (mod_name m) StOk None None st1)
           else if poll_shutdown (cc_shutdown ctx) st1 \<noteq> None then (Inr (CondBreak state), st1)
           else and_then (execute_conditional_apply ctx connection m (cs_env state) st1)
             (\<lambda>result st2.
                let st3 = print_module_result (mod_name m) (mr_status result) (mr_detail result) None st2
                in if mr_status result = StFailed then (Inr (CondFailed result), st3)
                   else and_then
                     (process_conditional_apply_result (cc_on_child_step ctx) result state st3)
                     (\<lambda>next st4.
                        (Inr (if cs_stop next then CondBreak next else CondContinue next), st4)))))"

definition merge_conditional_dry_run_step ::
  "conditional_state \<Rightarrow> dry_run_step_result \<Rightarrow> conditional_state" where
  "merge_conditional_dry_run_step state step =
     state\<lparr>cs_env := dr_env step,
           cs_meta := (case dr_meta step of None \<Rightarrow> cs_meta state | Some es \<Rightarrow> cs_meta state @ es),
           cs_status := (if dr_status step = Some StChanged then StChanged else cs_status state),
           cs_stop := (if dr_stop step then True else cs_stop state)\<rparr>"

definition apply_conditional_dry_run_step ::
  "'w conditional_context \<Rightarrow> 'w module \<Rightarrow> conditional_state
     \<Rightarrow> (conditional_step_result, 'w run_state) effect" where
  "apply_conditional_dry_run_step ctx m state st =
     and_then
       (dry_run_child (cc_conn ctx) (cc_diff ctx) (cc_shutdown ctx) (cc_verbose ctx) m (cs_env state) st)
       (\<lambda>step st1.
          if dr_status step = Some StFailed
          then (Inr (CondFailed ((plain_result StFailed)\<lparr>mr_meta := dr_meta step\<rparr>)), st1)
          else (Inr (if dr_break step then CondBreak (merge_conditional_dry_run_step state step)
                     else CondContinue (merge_conditional_dry_run_step state step)), st1))"

definition apply_conditional_module_step ::
  "'w conditional_context \<Rightarrow> 'w module \<Rightarrow> conditional_state
     \<Rightarrow> (conditional_step_result, 'w run_state) effect" where
  "apply_conditional_module_step ctx m state st =
     (if poll_shutdown (cc_shutdown ctx) st \<noteq> None then (Inr (CondBreak state), st)
      else if cc_dry_run ctx then apply_conditional_dry_run_step ctx m state st
      else apply_conditional_apply_step ctx m state st)"

definition conditional_result :: "conditional_state \<Rightarrow> module_result" where
  "conditional_result state =
     (plain_result (cs_status state))
       \<lparr>mr_flush := cs_flush state, mr_stop := cs_stop state,
        mr_meta := some_unless_empty (cs_meta state)\<rparr>"

fun run_conditional_module_loop ::
  "'w conditional_context \<Rightarrow> 'w module list \<Rightarrow> conditional_state
     \<Rightarrow> (module_result, 'w run_state) effect" where
  "run_conditional_module_loop ctx [] state st = (Inr (conditional_result state), st)"
| "run_conditional_module_loop ctx (m # ms) state st =
     (case apply_conditional_module_step ctx m state st of
        (Inl e, st1) \<Rightarrow> (Inl e, st1)
      | (Inr (CondFailed result), st1) \<Rightarrow> (Inr result, st1)
      | (Inr (CondBreak next), st1) \<Rightarrow> (Inr (conditional_result next), st1)
      | (Inr (CondContinue next), st1) \<Rightarrow> run_conditional_module_loop ctx ms next st1)"

definition apply_conditional_modules ::
  "'w conditional_context \<Rightarrow> string \<Rightarrow> 'w module list \<Rightarrow> environment
     \<Rightarrow> (module_result, 'w run_state) effect" where
  "apply_conditional_modules ctx name modules env st =
     run_conditional_module_loop ctx modules (create_conditional_apply_state env)
       (print_recipe_header name st)"

subsection \<open>The block and its memo\<close>

type_synonym 'w guard = "connection \<Rightarrow> environment \<Rightarrow> (bool, 'w run_state) effect"

fun check_conditional_modules :: "'w module list \<Rightarrow> 'w check_fn" where
  "check_conditional_modules [] conn env st = (Inr CheckOk, st)"
| "check_conditional_modules (m # ms) conn env st =
     (case mc_check (core m) (child_connection m conn) env st of
        (Inl e, st1) \<Rightarrow> (Inl e, st1)
      | (Inr NeedsApply, st1) \<Rightarrow> (Inr NeedsApply, st1)
      | (Inr CheckOk, st1) \<Rightarrow> check_conditional_modules ms conn env st1)"

definition evaluate_condition_for_check :: "nat \<Rightarrow> 'w guard \<Rightarrow> 'w guard" where
  "evaluate_condition_for_check memo_id guard conn env st =
     and_then (guard conn env st)
       (\<lambda>held st1. (Inr held, st1\<lparr>memos := (memos st1)(memo_id := Some held)\<rparr>))"

definition read_condition_for_apply :: "nat \<Rightarrow> 'w guard \<Rightarrow> 'w guard" where
  "read_condition_for_apply memo_id guard conn env st =
     (case memos st memo_id of Some held \<Rightarrow> (Inr held, st) | None \<Rightarrow> guard conn env st)"

definition conditional_check :: "nat \<Rightarrow> 'w guard \<Rightarrow> 'w module list \<Rightarrow> 'w check_fn" where
  "conditional_check memo_id guard modules conn env st =
     and_then (evaluate_condition_for_check memo_id guard conn env st)
       (\<lambda>held st1.
          if \<not> held then (Inr NeedsApply, st1)
          else check_conditional_modules modules conn (js_assign [] env) st1)"

definition conditional_apply_with ::
  "('w apply_options \<Rightarrow> connection \<Rightarrow> 'w conditional_context) \<Rightarrow> nat \<Rightarrow> 'w guard \<Rightarrow> string
     \<Rightarrow> 'w module list \<Rightarrow> 'w apply_fn" where
  "conditional_apply_with make_context memo_id guard name modules conn env opts st =
     and_then (read_condition_for_apply memo_id guard conn env st)
       (\<lambda>held st1.
          if \<not> held then (Inr (plain_result StSkipped), st1)
          else apply_conditional_modules (make_context opts conn) name modules env st1)"

definition conditional_apply :: "nat \<Rightarrow> 'w guard \<Rightarrow> string \<Rightarrow> 'w module list \<Rightarrow> 'w apply_fn" where
  "conditional_apply =
     conditional_apply_with (\<lambda>opts conn.
       \<lparr>cc_diff = False, cc_dry_run = False, cc_on_child_step = ao_on_child_step opts,
        cc_shutdown = ao_shutdown opts, cc_conn = conn, cc_verbose = False\<rparr>)"

definition conditional_apply_dry_run ::
  "nat \<Rightarrow> 'w guard \<Rightarrow> string \<Rightarrow> 'w module list \<Rightarrow> 'w apply_fn" where
  "conditional_apply_dry_run =
     conditional_apply_with (\<lambda>opts conn.
       \<lparr>cc_diff = ao_diff opts, cc_dry_run = True, cc_on_child_step = None,
        cc_shutdown = ao_shutdown opts, cc_conn = conn, cc_verbose = ao_verbose opts\<rparr>)"

subsection \<open>The loop as a breaking loop\<close>

definition conditional_loop_step ::
  "'w conditional_context \<Rightarrow> 'w module \<Rightarrow> conditional_state
     \<Rightarrow> (module_result + conditional_state, 'w run_state) effect" where
  "conditional_loop_step ctx m state st =
     and_then (apply_conditional_module_step ctx m state st) (\<lambda>r st1.
       (Inr (case r of
               CondFailed result \<Rightarrow> Inl result
             | CondBreak next \<Rightarrow> Inl (conditional_result next)
             | CondContinue next \<Rightarrow> Inr next), st1))"

interpretation conditional_loop:
  breaking_loop "run_conditional_module_loop ctx" "conditional_loop_step ctx" conditional_result
  for ctx :: "'w conditional_context"
  by unfold_locales
    (auto simp: conditional_loop_step_def and_then_def
      split: prod.splits sum.splits conditional_step_result.splits)

declare run_conditional_module_loop.simps(2) [simp del]

subsection \<open>Invariants of a block\<close>

definition conditional_state_ok :: "'w conditional_context \<Rightarrow> conditional_state \<Rightarrow> bool" where
  "conditional_state_ok ctx state \<longleftrightarrow>
     (cs_status state = StOk \<or> cs_status state = StChanged) \<and>
     (\<not> cc_dry_run ctx \<longrightarrow> cc_on_child_step ctx \<noteq> None \<longrightarrow>
        list_all is_environment_meta_entry (cs_meta state))"

definition conditional_result_ok :: "'w conditional_context \<Rightarrow> module_result \<Rightarrow> bool" where
  "conditional_result_ok ctx result \<longleftrightarrow>
     mr_status result \<noteq> StSkipped \<and>
     (mr_status result \<noteq> StFailed \<longrightarrow> \<not> cc_dry_run ctx \<longrightarrow> cc_on_child_step ctx \<noteq> None \<longrightarrow>
        environment_meta_only (mr_meta result))"

lemma conditional_result_simps [simp]:
  "mr_status (conditional_result s) = cs_status s" "mr_flush (conditional_result s) = cs_flush s"
  "mr_stop (conditional_result s) = cs_stop s"
  "mr_meta (conditional_result s) = some_unless_empty (cs_meta s)"
  by (simp_all add: conditional_result_def plain_result_def)

lemma conditional_result_okI: "conditional_state_ok ctx s \<Longrightarrow> conditional_result_ok ctx (conditional_result s)"
  by (auto simp: conditional_state_ok_def conditional_result_ok_def environment_meta_only_def
      some_unless_empty_def)

lemma merge_conditional_ok:
  assumes "merge_conditional_apply_state (cc_on_child_step ctx = None) state result = Inr next"
    and "conditional_state_ok ctx state"
  shows "conditional_state_ok ctx next"
  using assms
  by (auto simp: merge_conditional_apply_state_def conditional_state_ok_def list_all_iff
      split: sum.splits option.splits if_splits)

lemma conditional_apply_step_ok:
  assumes "apply_conditional_apply_step ctx m state st = (Inr r, st')" and "conditional_state_ok ctx state"
  shows "case r of CondFailed result \<Rightarrow> mr_status result = StFailed
     | CondBreak next \<Rightarrow> conditional_state_ok ctx next | CondContinue next \<Rightarrow> conditional_state_ok ctx next"
  using assms merge_conditional_ok [of ctx state]
  by (fastforce simp: apply_conditional_apply_step_def process_conditional_apply_result_def Let_def
      lift_result_def and_then_Inr_iff split: if_splits)

lemma conditional_dry_run_step_ok:
  assumes "apply_conditional_dry_run_step ctx m state st = (Inr r, st')" and "conditional_state_ok ctx state"
    and "cc_dry_run ctx"
  shows "case r of CondFailed result \<Rightarrow> mr_status result = StFailed
     | CondBreak next \<Rightarrow> conditional_state_ok ctx next | CondContinue next \<Rightarrow> conditional_state_ok ctx next"
  using assms
  by (auto simp: apply_conditional_dry_run_step_def and_then_Inr_iff conditional_state_ok_def
      merge_conditional_dry_run_step_def plain_result_def split: if_splits)

lemma conditional_module_step_ok:
  assumes "apply_conditional_module_step ctx m state st = (Inr r, st')" and "conditional_state_ok ctx state"
  shows "case r of CondFailed result \<Rightarrow> mr_status result = StFailed
     | CondBreak next \<Rightarrow> conditional_state_ok ctx next | CondContinue next \<Rightarrow> conditional_state_ok ctx next"
  using assms conditional_apply_step_ok [of ctx m state st r st']
    conditional_dry_run_step_ok [of ctx m state st r st']
  by (auto simp: apply_conditional_module_step_def split: if_splits)

lemma run_conditional_module_loop_ok:
  assumes "run_conditional_module_loop ctx ms state st = (Inr result, st')"
    and "conditional_state_ok ctx state"
  shows "conditional_result_ok ctx result"
proof (rule conditional_loop.loop_invariant [where P = "\<lambda>s _. conditional_state_ok ctx s"
      and Q = "\<lambda>r _. conditional_result_ok ctx r", OF assms(2) _ _ assms(1)])
  fix m a s r s'
  assume "conditional_state_ok ctx a" and step: "conditional_loop_step ctx m a s = (Inr r, s')"
  then obtain q where q: "apply_conditional_module_step ctx m a s = (Inr q, s')"
    and r: "r = (case q of CondFailed result \<Rightarrow> Inl result
             | CondBreak next \<Rightarrow> Inl (conditional_result next) | CondContinue next \<Rightarrow> Inr next)"
    by (auto simp: conditional_loop_step_def and_then_Inr_iff)
  show "case r of Inl b \<Rightarrow> conditional_result_ok ctx b | Inr a' \<Rightarrow> conditional_state_ok ctx a'"
    using conditional_module_step_ok [OF q \<open>conditional_state_ok ctx a\<close>] r
    by (cases q) (simp_all add: conditional_result_okI, simp add: conditional_result_ok_def)
qed (rule conditional_result_okI)

lemma initial_conditional_state_ok: "conditional_state_ok ctx (create_conditional_apply_state env)"
  by (simp add: conditional_state_ok_def create_conditional_apply_state_def)

subsection \<open>Properties\<close>

text \<open>
  a block whose guard is false is checked and then applied with one evaluation of the
  guard and no other effect: the result is \<open>skipped\<close> and the state is the one the guard left,
  apart from the memo. The same holds for a dry run.
\<close>

theorem false_guard_skips_block:
  assumes "guard conn env st = (Inr False, st1)"
  shows "and_then (conditional_check i guard ms conn env st) (\<lambda>_. conditional_apply i guard name ms conn env opts)
      = (Inr (plain_result StSkipped), st1\<lparr>memos := (memos st1)(i := Some False)\<rparr>) \<and>
    and_then (conditional_check i guard ms conn env st)
        (\<lambda>_. conditional_apply_dry_run i guard name ms conn env opts)
      = (Inr (plain_result StSkipped), st1\<lparr>memos := (memos st1)(i := Some False)\<rparr>)"
  using assms
  by (simp_all add: conditional_check_def evaluate_condition_for_check_def conditional_apply_def
      conditional_apply_dry_run_def conditional_apply_with_def read_condition_for_apply_def)

theorem false_guard_skips_block_witness:
  "and_then (conditional_check 0 (\<lambda>_ _ st. (Inr False, st)) [fixed_module ''a'' NeedsApply (plain_result StChanged)]
       Connection [] (fresh_state ()))
     (\<lambda>_. conditional_apply 0 (\<lambda>_ _ st. (Inr False, st)) ''when''
        [fixed_module ''a'' NeedsApply (plain_result StChanged)] Connection [] no_options) =
   (Inr (plain_result StSkipped), (fresh_state ())\<lparr>memos := (memos (fresh_state ()))(0 := Some False)\<rparr>)"
  by (rule conjunct1 [OF false_guard_skips_block [OF refl]])

text \<open>
  a block reports \<open>skipped\<close> exactly when its guard, or the memo of its last check, is
  false; otherwise it reports the outcome of its children, and with a step hook the result of
  an unfailed block carries no control-plane meta (the hook has handled it).
\<close>

theorem conditional_status_sound:
  assumes "conditional_apply i guard name ms conn env opts st = (Inr r, st')"
  shows "(mr_status r = StSkipped \<longleftrightarrow> (\<exists>st1. read_condition_for_apply i guard conn env st = (Inr False, st1))) \<and>
    (mr_status r \<noteq> StFailed \<longrightarrow> ao_on_child_step opts \<noteq> None \<longrightarrow> environment_meta_only (mr_meta r))"
proof -
  obtain held st1 where held: "read_condition_for_apply i guard conn env st = (Inr held, st1)"
    using assms by (auto simp: conditional_apply_def conditional_apply_with_def and_then_Inr_iff)
  show ?thesis
  proof (cases held)
    case True
    let ?ctx = "\<lparr>cc_diff = False, cc_dry_run = False, cc_on_child_step = ao_on_child_step opts,
        cc_shutdown = ao_shutdown opts, cc_conn = conn, cc_verbose = False\<rparr>"
    have "conditional_result_ok ?ctx r"
      using assms held True run_conditional_module_loop_ok [OF _ initial_conditional_state_ok]
      by (auto simp: conditional_apply_def conditional_apply_with_def apply_conditional_modules_def)
    then show ?thesis using held True by (simp add: conditional_result_ok_def)
  next
    case False
    then show ?thesis
      using assms held
      by (auto simp: conditional_apply_def conditional_apply_with_def plain_result_def environment_meta_only_def)
  qed
qed
theorem conditional_status_sound_witness:
  "mr_status (projr (fst (conditional_apply 0 (\<lambda>_ _ st. (Inr True, st)) ''when''
      [fixed_module ''a'' NeedsApply (plain_result StChanged)] Connection [] no_options (fresh_state ()))))
    \<noteq> StSkipped"
proof -
  let ?p = "conditional_apply 0 (\<lambda>_ _ st. (Inr True, st)) ''when''
      [fixed_module ''a'' NeedsApply (plain_result StChanged)] Connection [] no_options (fresh_state ())"
  have "\<not> isl (fst ?p)" by code_simp
  from conditional_status_sound [OF Inr_effect [OF this]] show ?thesis
    by (simp add: read_condition_for_apply_def fresh_state_def)
qed

subsection \<open>Two consequences for blocks\<close>

text \<open>
  An \<^verbatim>\<open>apply\<close> without a fresh \<^verbatim>\<open>check\<close>, as the signal lists do, trusts the memo: a block
  that was checked earlier in the run does not look at its guard again.
\<close>

lemma apply_trusts_memo:
  "memos st i = Some held \<Longrightarrow>
   conditional_apply i guard name ms conn env opts st = conditional_apply i (\<lambda>_ _ st. (Inr held, st)) name ms conn env opts st"
  by (simp add: conditional_apply_def conditional_apply_with_def read_condition_for_apply_def)

text \<open>
  A recipe inside a block gets the step hook and the shutdown getter, but neither the signal
  hooks nor the hook for signal steps: its signals are not counted, and the control-plane meta
  of its signals is not seen by the runner.
\<close>

lemma block_drops_signal_hooks:
  "execute_conditional_apply ctx conn (recipe name ms sigs) env =
   apply_recipe name ms sigs conn env
     (no_options\<lparr>ao_on_child_step := cc_on_child_step ctx, ao_shutdown := cc_shutdown ctx,
        ao_signal_hooks := None, ao_on_signal_step := None\<rparr>)"
  by (simp add: execute_conditional_apply_def recipe_def no_options_def)

end
