(* ===== verification/SecretPrewarm.thy ===== *)
theory SecretPrewarm
  imports Orchestration
begin

text \<open>
  The secret prewarm phase (\<^verbatim>\<open>secretPrewarm.ts\<close>): the walk that collects the nodes with a
  \<^verbatim>\<open>_prewarmSecrets\<close> hook, the sequential run of the hooks, and the run-scoped cache of
  provider calls. The cache is a map from references to promises; a promise is a number,
  its loader settles later (\<open>SecretSettle\<close>), and calls may interleave with it.
\<close>

subsection \<open>The walk\<close>

fun collect_prewarm_node :: "'w module \<Rightarrow> 'w module list"
and collect_prewarm_carriers :: "'w module list \<Rightarrow> 'w module list"
and collect_prewarm_signals :: "'w module list option \<Rightarrow> 'w module list"
where
  "collect_prewarm_node (LeafModule c) =
     (if mc_prewarm_secrets c \<noteq> None then [LeafModule c] else [])"
| "collect_prewarm_node (RecipeModule c ms sigs) =
     (if mc_prewarm_secrets c \<noteq> None then [RecipeModule c ms sigs]
      else collect_prewarm_carriers ms @ collect_prewarm_signals sigs)"
| "collect_prewarm_carriers [] = []"
| "collect_prewarm_carriers (m # ms) = collect_prewarm_node m @ collect_prewarm_carriers ms"
| "collect_prewarm_signals None = []"
| "collect_prewarm_signals (Some ms) = collect_prewarm_carriers ms"

definition has_secret_prewarm_carriers :: "'w module list \<Rightarrow> bool" where
  "has_secret_prewarm_carriers modules \<longleftrightarrow> collect_prewarm_carriers modules \<noteq> []"

definition collect_secret_prewarm_carrier_names :: "'w module list \<Rightarrow> string list" where
  "collect_secret_prewarm_carrier_names modules =
     remdups (map mod_name (collect_prewarm_carriers modules))"

fun run_prewarm_hooks :: "'w module list \<Rightarrow> (unit, 'w run_state) effect" where
  "run_prewarm_hooks [] st = (Inr (), st)"
| "run_prewarm_hooks (m # ms) st =
     and_then (case mc_prewarm_secrets (core m) of None \<Rightarrow> (Inr (), st) | Some hook \<Rightarrow> hook st)
       (\<lambda>_ st1. run_prewarm_hooks ms st1)"

definition prewarm_secrets ::
  "('w run_state \<Rightarrow> 'w run_state) \<Rightarrow> 'w module list \<Rightarrow> (unit, 'w run_state) effect" where
  "prewarm_secrets on_before_first modules st =
     (let carriers = collect_prewarm_carriers modules
      in if carriers = [] then (Inr (), st)
         else run_prewarm_hooks carriers (on_before_first st))"

subsection \<open>The cache\<close>

datatype promise_state = PromisePending string | PromiseFulfilled string | PromiseRejected exn

text \<open>
  \<open>sc_cache\<close> is the \<^verbatim>\<open>Map\<close> of the scope (\<open>None\<close> without a scope), \<open>sc_promises\<close> the
  promises created so far, each of which stands for one call of \<^verbatim>\<open>load\<close>. A pending promise
  remembers its reference.
\<close>

record secret_cache =
  sc_cache :: "(string \<rightharpoonup> nat) option"
  sc_promises :: "(string \<times> promise_state) list"

datatype secret_event = SecretRequest string | SecretSettle nat "exn + string"

definition scope_open :: secret_cache where
  "scope_open = \<lparr>sc_cache = Some Map.empty, sc_promises = []\<rparr>"

definition resolve_cached_secret :: "string \<Rightarrow> secret_cache \<Rightarrow> nat \<times> secret_cache" where
  "resolve_cached_secret reference c =
     (case sc_cache c of
        None \<Rightarrow>
          (length (sc_promises c),
           c\<lparr>sc_promises := sc_promises c @ [(reference, PromisePending reference)]\<rparr>)
      | Some cache \<Rightarrow>
          (case cache reference of
             Some p \<Rightarrow> (p, c)
           | None \<Rightarrow>
               (length (sc_promises c),
                c\<lparr>sc_promises := sc_promises c @ [(reference, PromisePending reference)],
                  sc_cache := Some (cache(reference \<mapsto> length (sc_promises c)))\<rparr>)))"

text \<open>
  The \<^verbatim>\<open>catch\<close> of the pending promise evicts its own entry. Without a scope there is no
  entry. Only pending promises settle.
\<close>

definition settle_secret :: "nat \<Rightarrow> exn + string \<Rightarrow> secret_cache \<Rightarrow> secret_cache" where
  "settle_secret p outcome c =
     (if p < length (sc_promises c)
      then (case sc_promises c ! p of
              (reference, PromisePending _) \<Rightarrow>
                (case outcome of
                   Inr v \<Rightarrow> c\<lparr>sc_promises := (sc_promises c)[p := (reference, PromiseFulfilled v)]\<rparr>
                 | Inl e \<Rightarrow>
                     c\<lparr>sc_promises := (sc_promises c)[p := (reference, PromiseRejected e)],
                       sc_cache := (case sc_cache c of
                                      None \<Rightarrow> None
                                    | Some cache \<Rightarrow>
                                        Some (if cache reference = Some p
                                              then cache(reference := None) else cache))\<rparr>)
            | _ \<Rightarrow> c)
      else c)"

fun secret_step :: "secret_event \<Rightarrow> secret_cache \<Rightarrow> secret_cache" where
  "secret_step (SecretRequest reference) c = snd (resolve_cached_secret reference c)"
| "secret_step (SecretSettle p outcome) c = settle_secret p outcome c"

definition secret_run :: "secret_event list \<Rightarrow> secret_cache \<Rightarrow> secret_cache" where
  "secret_run events c = fold secret_step events c"

definition loads_of :: "string \<Rightarrow> secret_cache \<Rightarrow> nat" where
  "loads_of reference c = length (filter (\<lambda>(r, _). r = reference) (sc_promises c))"

fun not_rejected :: "promise_state \<Rightarrow> bool" where
  "not_rejected (PromiseRejected _) = False"
| "not_rejected _ = True"

definition rejections_of :: "string \<Rightarrow> secret_cache \<Rightarrow> nat" where
  "rejections_of reference c =
     length (filter (\<lambda>(r, s). r = reference \<and> \<not> not_rejected s) (sc_promises c))"

definition live :: "(string \<times> promise_state) list \<Rightarrow> string \<Rightarrow> nat \<Rightarrow> bool" where
  "live ps r p \<longleftrightarrow> p < length ps \<and> fst (ps ! p) = r \<and> not_rejected (snd (ps ! p))"

definition cache_ok :: "secret_cache \<Rightarrow> bool" where
  "cache_ok c \<longleftrightarrow> (\<exists>cache. sc_cache c = Some cache \<and>
     (\<forall>r p. cache r = Some p \<longleftrightarrow> live (sc_promises c) r p))"

lemma cache_ok_open: "cache_ok scope_open"
  by (simp add: cache_ok_def scope_open_def live_def)

lemma live_append:
  "live (ps @ [(r, PromisePending r)]) r' p \<longleftrightarrow> live ps r' p \<or> (r' = r \<and> p = length ps)"
  by (auto simp: live_def nth_append less_Suc_eq)

lemma live_settle:
  "p < length ps \<Longrightarrow> ps ! p = (r, s) \<Longrightarrow>
   live (ps[p := (r, s')]) r' q \<longleftrightarrow>
     (if q = p then r' = r \<and> not_rejected s' else live ps r' q)"
  by (auto simp: live_def)

lemma cache_ok_request:
  assumes "cache_ok c"
  shows "cache_ok (snd (resolve_cached_secret r c))"
proof -
  obtain cache where cache: "sc_cache c = Some cache"
    and law: "\<And>r q. cache r = Some q \<longleftrightarrow> live (sc_promises c) r q"
    using assms unfolding cache_ok_def by blast
  show ?thesis
  proof (cases "cache r")
    case None
    then have "\<not> live (sc_promises c) r q" for q using law[of r q] by simp
    then show ?thesis
      by (auto simp: resolve_cached_secret_def cache None cache_ok_def live_append law)
  next
    case (Some p) then show ?thesis using assms by (simp add: resolve_cached_secret_def cache)
  qed
qed

lemma cache_ok_settle:
  assumes "cache_ok c"
  shows "cache_ok (settle_secret p outcome c)"
proof (cases "\<exists>r ref. p < length (sc_promises c) \<and> sc_promises c ! p = (r, PromisePending ref)")
  case True
  then obtain r ref where p: "p < length (sc_promises c)"
    and at: "sc_promises c ! p = (r, PromisePending ref)" by blast
  obtain cache where cache: "sc_cache c = Some cache"
    and law: "\<And>r q. cache r = Some q \<longleftrightarrow> live (sc_promises c) r q"
    using assms unfolding cache_ok_def by blast
  have here: "live (sc_promises c) r p" using p at by (simp add: live_def)
  have mine: "live (sc_promises c) r q \<longleftrightarrow> q = p" for q
    using here unfolding law[symmetric] by auto
  have other: "live (sc_promises c) r' p \<longleftrightarrow> r' = r" for r' using at p by (auto simp: live_def)
  show ?thesis
  proof (cases outcome)
    case (Inl e)
    then show ?thesis using here
      by (auto simp: settle_secret_def cache_ok_def p at cache live_settle law mine other)
  next
    case (Inr v)
    then show ?thesis
      by (auto simp: settle_secret_def cache_ok_def p at cache live_settle law other)
  qed
next
  case False
  then show ?thesis using assms
    by (auto simp: settle_secret_def split: prod.splits promise_state.splits)
qed

lemma cache_ok_run: "cache_ok c \<Longrightarrow> cache_ok (secret_run evs c)"
  unfolding secret_run_def
proof (induction evs arbitrary: c)
  case (Cons e evs)
  have "cache_ok (secret_step e c)"
    using Cons.prems by (cases e) (auto intro: cache_ok_request cache_ok_settle)
  then show ?case using Cons.IH by simp
qed simp


lemma live_count:
  assumes "\<And>p q. live ps r p \<Longrightarrow> live ps r q \<Longrightarrow> p = q"
  shows "length (filter (\<lambda>(x, s). x = r \<and> not_rejected s) ps) \<le> 1"
  using assms
proof (induction ps)
  case (Cons a ps)
  have shift: "live ps r p \<Longrightarrow> live (a # ps) r (Suc p)" for p by (simp add: live_def)
  show ?case
  proof (cases "fst a = r \<and> not_rejected (snd a)")
    case True
    then have "live (a # ps) r 0" by (simp add: live_def)
    then have "\<not> live ps r p" for p using Cons.prems[of 0 "Suc p"] shift by blast
    then have "filter (\<lambda>(x, s). x = r \<and> not_rejected s) ps = []"
      by (intro filter_False) (auto simp: live_def in_set_conv_nth, metis fst_conv snd_conv)
    with True show ?thesis by (cases a) simp
  next
    case False
    with Cons.IH Cons.prems shift show ?thesis
      by (smt (verit, best) case_prod_beta diff_Suc_1 filter.simps(2) old.nat.inject)
  qed
qed simp

lemma loads_split:
  "loads_of r c = length (filter (\<lambda>(x, s). x = r \<and> not_rejected s) (sc_promises c)) + rejections_of r c"
proof -
  have "length (filter (\<lambda>(x, _). x = r) ps) =
      length (filter (\<lambda>(x, s). x = r \<and> not_rejected s) ps) +
      length (filter (\<lambda>(x, s). x = r \<and> \<not> not_rejected s) ps)" for ps
    by (induction ps) auto
  then show ?thesis unfolding loads_of_def rejections_of_def by blast
qed

lemma reachable_cache_ok: "cache_ok (secret_run evs scope_open)"
  by (intro cache_ok_run cache_ok_open)

lemma cache_ok_live_unique:
  assumes "cache_ok c" "live (sc_promises c) r p" "live (sc_promises c) r q"
  shows "p = q"
proof -
  obtain cache where "\<And>r q. cache r = Some q \<longleftrightarrow> live (sc_promises c) r q"
    using assms(1) unfolding cache_ok_def by blast
  with assms(2,3) show ?thesis by (metis option.inject)
qed

lemma request_live:
  assumes "cache_ok c"
  shows "live (sc_promises (snd (resolve_cached_secret r c))) r (fst (resolve_cached_secret r c))"
proof -
  obtain cache where cache: "sc_cache c = Some cache"
    and law: "\<And>r q. cache r = Some q \<longleftrightarrow> live (sc_promises c) r q"
    using assms unfolding cache_ok_def by blast
  show ?thesis
  proof (cases "cache r")
    case None then show ?thesis by (simp add: resolve_cached_secret_def cache live_append)
  next
    case (Some p) then show ?thesis using law[of r p] by (simp add: resolve_cached_secret_def cache)
  qed
qed

lemma live_is_shared:
  assumes "cache_ok c" "live (sc_promises c) r p"
  shows "fst (resolve_cached_secret r c) = p"
proof -
  obtain cache where cache: "sc_cache c = Some cache"
    and law: "\<And>r q. cache r = Some q \<longleftrightarrow> live (sc_promises c) r q"
    using assms unfolding cache_ok_def by blast
  then have "cache r = Some p" using assms(2) by blast
  then show ?thesis by (simp add: resolve_cached_secret_def cache)
qed

lemma live_step:
  assumes "live (sc_promises c) r p" and "\<And>e. ev \<noteq> SecretSettle p (Inl e)"
  shows "live (sc_promises (secret_step ev c)) r p"
proof (cases ev)
  case (SecretRequest ref)
  then show ?thesis using assms(1)
    by (auto simp: resolve_cached_secret_def live_append split: option.splits)
next
  case (SecretSettle q outcome)
  have "q = p \<Longrightarrow> \<exists>v. outcome = Inr v" using assms(2) SecretSettle by (cases outcome) auto
  moreover have "fst (sc_promises c ! p) = r" using assms(1) by (simp add: live_def)
  ultimately show ?thesis using assms(1) SecretSettle
    by (auto simp: settle_secret_def live_settle split: prod.splits promise_state.splits sum.splits)
qed

lemma live_run:
  assumes "live (sc_promises c) r p" and "\<And>e. SecretSettle p (Inl e) \<notin> set evs"
  shows "live (sc_promises (secret_run evs c)) r p"
  using assms unfolding secret_run_def
proof (induction evs arbitrary: c)
  case (Cons ev evs)
  have "ev \<noteq> SecretSettle p (Inl e)" for e using Cons.prems(2)[of e] by auto
  then show ?case using Cons live_step[OF Cons.prems(1), of ev] by simp
qed simp

subsection \<open>Properties of the cache\<close>

text \<open>
  whatever the interleaving of requests and settlements, the loader of a reference runs
  at most once more than its loads were rejected: without a rejection there is one provider
  call per reference and run.
\<close>

theorem secret_load_bound:
  "loads_of r (secret_run evs scope_open) \<le> rejections_of r (secret_run evs scope_open) + 1"
proof -
  have "length (filter (\<lambda>(x, s). x = r \<and> not_rejected s)
      (sc_promises (secret_run evs scope_open))) \<le> 1"
    by (rule live_count) (rule cache_ok_live_unique[OF reachable_cache_ok])
  then show ?thesis unfolding loads_split by simp
qed

text \<open>
  a load is shared until it is rejected. Requests of one reference get the same promise
  as long as that promise has not been rejected in between, whatever other requests and
  settlements happen.
\<close>

theorem secret_promise_shared:
  assumes "resolve_cached_secret r (secret_run before scope_open) = (p, c)"
    and "list_all (\<lambda>ev. case ev of SecretSettle q (Inl _) \<Rightarrow> q \<noteq> p | _ \<Rightarrow> True) between"
  shows "fst (resolve_cached_secret r (secret_run between c)) = p"
proof -
  have c: "c = snd (resolve_cached_secret r (secret_run before scope_open))"
    and p: "p = fst (resolve_cached_secret r (secret_run before scope_open))"
    using assms(1) by simp_all
  have ok: "cache_ok c" unfolding c by (intro cache_ok_request reachable_cache_ok)
  have "live (sc_promises c) r p" unfolding c p by (intro request_live reachable_cache_ok)
  moreover have "SecretSettle p (Inl e) \<notin> set between" for e
    using assms(2) by (auto simp: list_all_iff)
  ultimately have "live (sc_promises (secret_run between c)) r p" by (rule live_run)
  then show ?thesis by (rule live_is_shared[OF cache_ok_run[OF ok]])
qed

theorem secret_promise_shared_witness:
  "fst (resolve_cached_secret ''op://v/i/f'' (secret_run
     [SecretRequest ''b'', SecretSettle 1 (Inl (GenericError ''no'')), SecretSettle 0 (Inr ''s'')]
     (snd (resolve_cached_secret ''op://v/i/f'' scope_open)))) = 0"
  by (rule secret_promise_shared[where before = "[]"])
    (simp_all add: secret_run_def resolve_cached_secret_def scope_open_def)

end
