(* ===== verification/SshSession.thy ===== *)
theory SshSession
  imports Complex_Main Orchestration
begin

text \<open>
  Connecting and reconnecting (\<^verbatim>\<open>ssh.ts\<close>): the port list, the transport-derived state, the
  authentication strategies and the reconnect loop with its time window, and the runner's
  first-signal handler, whose deferred \<^verbatim>\<open>disconnect()\<close> touches the same state.

  What lies outside the sources is the parameter \<open>network\<close>: the clock, timers, the random
  jitter, the file system, the terminal prompt and one connection attempt of the native
  transport together with the host key verification it runs. While one of these waits, a
  shutdown signal may arrive; it is then returned beside the new world.
\<close>

datatype credential =
    CredAgent string
  | CredPassword string
  | CredPrivateKey string "string option"

record dial_request =
  dq_host :: string
  dq_port :: int
  dq_user :: string
  dq_credential :: credential
  dq_agent_forward :: bool
  dq_ready_timeout :: int

text \<open>\<open>DialFailed e resolved\<close>: the attempt threw \<open>e\<close>, after (\<open>resolved\<close>) or before the handshake.\<close>

datatype dial_outcome = DialConnected | DialFailed exn bool

record 'w network =
  nt_now :: "'w \<Rightarrow> int"
  nt_sleep :: "rat \<Rightarrow> 'w \<Rightarrow> shutdown_signal option \<times> 'w"
  nt_random :: "'w \<Rightarrow> rat \<times> 'w"
  nt_dial :: "dial_request \<Rightarrow> 'w \<Rightarrow> dial_outcome \<times> shutdown_signal option \<times> 'w"
  nt_prompt :: "string \<Rightarrow> 'w \<Rightarrow> string result \<times> shutdown_signal option \<times> 'w"
  nt_agent_socket :: "'w \<Rightarrow> string option"
  nt_path_exists :: "string \<Rightarrow> 'w \<Rightarrow> bool"
  nt_read_file :: "string \<Rightarrow> 'w \<Rightarrow> string result"
  nt_expand_home :: "string \<Rightarrow> string"

record ssh_config =
  cf_user :: string
  cf_private_key :: "string option"
  cf_certificate :: "string option"
  cf_password_fallback :: bool
  cf_agent_forward :: bool
  cf_reconnect_timeout :: "int option"
  cf_max_reconnect_attempts :: "nat option"
  cf_sudo_password :: "string option"

definition default_reconnect_timeout :: int where
  "default_reconnect_timeout = 120000"

definition connection_timeout :: int where
  "connection_timeout = 10000"

definition jitter_base :: rat where "jitter_base = 3 / 4"

definition jitter_range :: rat where "jitter_range = 1 / 2"

definition reconnect_base_delay :: rat where "reconnect_base_delay = 1000"

definition reconnect_max_delay :: rat where "reconnect_max_delay = 30000"

text \<open>The attempt cap is \<open>None\<close> for \<^verbatim>\<open>Number.POSITIVE_INFINITY\<close>.\<close>

definition resolve_reconnect_budget :: "ssh_config \<Rightarrow> int option \<Rightarrow> nat option \<times> int" where
  "resolve_reconnect_budget config default_timeout =
     (cf_max_reconnect_attempts config,
      case cf_reconnect_timeout config of
        Some t \<Rightarrow> t
      | None \<Rightarrow> (case default_timeout of Some t \<Rightarrow> t | None \<Rightarrow> default_reconnect_timeout))"

subsection \<open>Errors\<close>

fun unwrap_transport_error :: "exn \<Rightarrow> exn" where
  "unwrap_transport_error (TransportErr _ _ cause) = cause"
| "unwrap_transport_error e = e"

definition is_permanent_certificate_detail :: "string option \<Rightarrow> bool" where
  "is_permanent_certificate_detail detail \<longleftrightarrow>
     detail \<in> {Some ''certificate-invalid'', Some ''certificate-key-mismatch'',
               Some ''certificate-expired'', Some ''certificate-not-yet-valid''}"

fun is_permanent_key_error :: "exn \<Rightarrow> bool" where
  "is_permanent_key_error (TransportErr kind detail _) \<longleftrightarrow>
     kind = ''ENCRYPTED_KEY'' \<or> kind = ''UNSUPPORTED_KEY'' \<or>
     (kind = ''AUTH_FAILED'' \<and> is_permanent_certificate_detail detail)"
| "is_permanent_key_error _ \<longleftrightarrow> False"

fun is_host_key_error :: "exn \<Rightarrow> bool" where
  "is_host_key_error (HostKeyErr _) \<longleftrightarrow> True"
| "is_host_key_error _ \<longleftrightarrow> False"

definition signal_name :: "shutdown_signal \<Rightarrow> string" where
  "signal_name s = (case s of SIGINT \<Rightarrow> ''SIGINT'' | SIGTERM \<Rightarrow> ''SIGTERM'')"

definition prompt_abort_reason :: "shutdown_signal \<Rightarrow> exn" where
  "prompt_abort_reason s = GenericError (''Terminal prompt interrupted by '' @ signal_name s)"

subsection \<open>The session object\<close>

definition new_ssh_session :: "string \<Rightarrow> int list \<Rightarrow> ssh_config \<Rightarrow> ssh_session result" where
  "new_ssh_session host ports config =
     (if (case cf_sudo_password config of
            None \<Rightarrow> False | Some p \<Rightarrow> CHR 0x0A \<in> set p \<or> CHR 0x0D \<in> set p)
      then Inl (GenericError ''Sudo password must not contain newline characters'')
      else Inr \<lparr>ss_host = host, ss_ports = ports, ss_client = False, ss_connected_port = 0,
                ss_auth_method = None, ss_agent_socket = None, ss_sudo_probe_failed = None,
                ss_sudo_ready = False, ss_credential_cache_primed = False,
                ss_passwordless_sudo = False, ss_cached_password = cf_sudo_password config,
                ss_last_failure = None\<rparr>)"

definition add_port :: "int \<Rightarrow> ssh_session \<Rightarrow> bool \<times> ssh_session" where
  "add_port port s =
     (if port \<in> set (ss_ports s) then (False, s)
      else (True, s\<lparr>ss_ports := ss_ports s @ [port]\<rparr>))"

definition remove_port :: "int \<Rightarrow> ssh_session \<Rightarrow> ssh_session" where
  "remove_port port s = s\<lparr>ss_ports := filter (\<lambda>candidate. candidate \<noteq> port) (ss_ports s)\<rparr>"

definition update_host :: "string \<Rightarrow> ssh_session \<Rightarrow> ssh_session" where
  "update_host host s = s\<lparr>ss_host := host\<rparr>"

definition reset_transport_derived_state :: "ssh_session \<Rightarrow> ssh_session" where
  "reset_transport_derived_state s =
     s\<lparr>ss_connected_port := 0, ss_auth_method := None, ss_agent_socket := None,
       ss_sudo_probe_failed := None, ss_sudo_ready := False, ss_credential_cache_primed := False,
       ss_passwordless_sudo := False\<rparr>"

definition disconnect_transport :: "ssh_session \<Rightarrow> ssh_session" where
  "disconnect_transport s = reset_transport_derived_state (s\<lparr>ss_client := False\<rparr>)"

definition clear_cached_password :: "ssh_session \<Rightarrow> ssh_session" where
  "clear_cached_password s = s\<lparr>ss_cached_password := None, ss_credential_cache_primed := False\<rparr>"

definition disconnect :: "ssh_session \<Rightarrow> ssh_session" where
  "disconnect s = disconnect_transport (clear_cached_password s)"

definition force_destroy :: "ssh_session \<Rightarrow> ssh_session" where
  "force_destroy s = s\<lparr>ss_client := False\<rparr>"

definition register_connected_client :: "int \<Rightarrow> ssh_session \<Rightarrow> ssh_session" where
  "register_connected_client port s = s\<lparr>ss_client := True, ss_connected_port := port\<rparr>"

abbreviation map_ssh :: "(ssh_session \<Rightarrow> ssh_session) \<Rightarrow> 'w run_state \<Rightarrow> 'w run_state" where
  "map_ssh f st \<equiv> st\<lparr>ssh := f (ssh st)\<rparr>"

subsection \<open>The first shutdown signal\<close>

text \<open>
  \<open>handle_shutdown_signal\<close> is the listener of \<^verbatim>\<open>setupShutdownHandlers\<close> including the
  \<^verbatim>\<open>disconnect()\<close> it queues as a microtask. A second signal destroys the transport and
  exits the process, so there is no state after it; the model keeps the state with the
  transport destroyed.
\<close>

definition handle_shutdown_signal :: "shutdown_signal \<Rightarrow> 'w run_state \<Rightarrow> 'w run_state" where
  "handle_shutdown_signal s st =
     (if received st \<noteq> None then map_ssh force_destroy st
      else map_ssh disconnect
             (emit (OutStderr (''Received '' @ signal_name s @ '', shutting down'')) st)
               \<lparr>received := Some s\<rparr>)"

definition observe :: "shutdown_signal option \<Rightarrow> 'w \<Rightarrow> 'w run_state \<Rightarrow> 'w run_state" where
  "observe signal w st =
     (case signal of
        None \<Rightarrow> st\<lparr>world := w\<rparr>
      | Some s \<Rightarrow> handle_shutdown_signal s (st\<lparr>world := w\<rparr>))"

subsection \<open>Connecting\<close>

definition has_reconnect_deadline_expired ::
  "'w network \<Rightarrow> int option \<Rightarrow> 'w run_state \<Rightarrow> bool" where
  "has_reconnect_deadline_expired net deadline st =
     (case deadline of None \<Rightarrow> False | Some d \<Rightarrow> d \<le> nt_now net (world st))"

definition ready_timeout :: "'w network \<Rightarrow> int option \<Rightarrow> 'w run_state \<Rightarrow> int" where
  "ready_timeout net deadline st =
     max 1 (min connection_timeout
              (case deadline of None \<Rightarrow> connection_timeout | Some d \<Rightarrow> d - nt_now net (world st)))"

definition dial :: "'w network \<Rightarrow> ssh_config \<Rightarrow> credential \<Rightarrow> int option \<Rightarrow> int \<Rightarrow> 'w run_state
     \<Rightarrow> dial_outcome \<times> 'w run_state" where
  "dial net config cred deadline port st =
     (case nt_dial net
             \<lparr>dq_host = ss_host (ssh st), dq_port = port, dq_user = cf_user config,
              dq_credential = cred, dq_agent_forward = cf_agent_forward config,
              dq_ready_timeout = ready_timeout net deadline st\<rparr> (world st) of
        (outcome, signal, w) \<Rightarrow> (outcome, observe signal w st))"

text \<open>
  \<open>handle_try_connect_error\<close> returns the error the loop rethrows, or \<open>None\<close> when the next
  port is tried. The abort signal of the prompts is aborted exactly after a shutdown signal.
\<close>

definition handle_try_connect_error :: "exn \<Rightarrow> bool \<Rightarrow> 'w run_state \<Rightarrow> exn option" where
  "handle_try_connect_error raw resolved st =
     (let e = unwrap_transport_error raw
      in if is_host_key_error e then Some e
         else (case received st of
                 Some s \<Rightarrow> Some (if resolved then GenericError (exn_message e) else prompt_abort_reason s)
               | None \<Rightarrow> if is_permanent_key_error raw then Some raw else None))"

fun try_ports ::
  "'w network \<Rightarrow> ssh_config \<Rightarrow> credential \<Rightarrow> int option \<Rightarrow> int list \<Rightarrow> (bool, 'w run_state) effect"
where
  "try_ports net config cred deadline [] st = (Inr False, st)"
| "try_ports net config cred deadline (port # ports) st =
     (if has_reconnect_deadline_expired net deadline st then (Inr False, st)
      else (case dial net config cred deadline port st of
              (DialConnected, st1) \<Rightarrow> (Inr True, map_ssh (register_connected_client port) st1)
            | (DialFailed raw resolved, st1) \<Rightarrow>
                (case handle_try_connect_error raw resolved st1 of
                   Some e \<Rightarrow> (Inl e, st1)
                 | None \<Rightarrow>
                     try_ports net config cred deadline ports
                       (map_ssh (\<lambda>s. s\<lparr>ss_last_failure := Some (unwrap_transport_error raw, port)\<rparr>)
                          st1))))"

definition try_connect_on_ports ::
  "'w network \<Rightarrow> ssh_config \<Rightarrow> credential \<Rightarrow> int option \<Rightarrow> (bool, 'w run_state) effect" where
  "try_connect_on_ports net config cred deadline st =
     try_ports net config cred deadline (ss_ports (ssh st)) st"

definition certificate_hint :: "ssh_config \<Rightarrow> exn \<Rightarrow> string" where
  "certificate_hint config e =
     (case e of
        NativeErr kind _ \<Rightarrow>
          if cf_certificate config \<noteq> None \<and> kind = ''AUTH_FAILED''
          then ''; the server rejected authentication; check its trusted CA and allowed ''
                 @ ''principals configuration''
          else []
      | _ \<Rightarrow> [])"

definition connection_failure :: "ssh_config \<Rightarrow> string \<Rightarrow> 'w run_state \<Rightarrow> exn" where
  "connection_failure config prefix st =
     (case ss_last_failure (ssh st) of
        None \<Rightarrow> GenericError prefix
      | Some (e, port) \<Rightarrow>
          GenericError (prefix @ ''; last error on port '' @ show_int port @ '': '' @ exn_message e
            @ certificate_hint config e))"

definition reject_agent_forward_without_agent :: exn where
  "reject_agent_forward_without_agent =
     GenericError (''agentForward requires authentication through an SSH agent; remove ''
       @ ''agentForward or configure a working SSH agent'')"

definition join_ports :: "int list \<Rightarrow> string" where
  "join_ports ports = join_with '', '' (map show_int ports)"

definition try_password_fallback ::
  "'w network \<Rightarrow> ssh_config \<Rightarrow> int option \<Rightarrow> (bool, 'w run_state) effect" where
  "try_password_fallback net config deadline st =
     (if cf_agent_forward config then (Inl reject_agent_forward_without_agent, st)
      else if \<not> cf_password_fallback config then (Inr False, st)
      else (case nt_prompt net
                   (''Password for '' @ cf_user config @ ''@'' @ ss_host (ssh st) @ '': '') (world st) of
              (answer, signal, w) \<Rightarrow>
                and_then (answer, observe signal w st) (\<lambda>password st1.
                and_then (try_connect_on_ports net config (CredPassword password) deadline st1)
                  (\<lambda>connected st2.
                     if \<not> connected then (Inr False, st2)
                     else (Inr True, map_ssh (\<lambda>s. s\<lparr>ss_auth_method := Some AuthPassword\<rparr>) st2)))))"

definition connect_without_agent_socket ::
  "'w network \<Rightarrow> ssh_config \<Rightarrow> int option \<Rightarrow> (unit, 'w run_state) effect" where
  "connect_without_agent_socket net config deadline st =
     (if \<not> cf_password_fallback config
      then (Inl (GenericError ''No privateKey configured and SSH_AUTH_SOCK is not set''), st)
      else and_then (try_password_fallback net config deadline st) (\<lambda>connected st1.
             if connected then (Inr (), st1)
             else (Inl (connection_failure config
                      (''No SSH agent (SSH_AUTH_SOCK is not set) and password authentication failed for ''
                        @ cf_user config @ ''@'' @ ss_host (ssh st1)) st1), st1)))"

definition connect_via_agent ::
  "'w network \<Rightarrow> ssh_config \<Rightarrow> int option \<Rightarrow> (unit, 'w run_state) effect" where
  "connect_via_agent net config deadline st =
     (case nt_agent_socket net (world st) of
        None \<Rightarrow>
          if cf_agent_forward config then (Inl reject_agent_forward_without_agent, st)
          else connect_without_agent_socket net config deadline st
      | Some agent \<Rightarrow>
          if agent = '''' then
            (if cf_agent_forward config then (Inl reject_agent_forward_without_agent, st)
             else connect_without_agent_socket net config deadline st)
          else if \<not> nt_path_exists net agent (world st) then
            and_then (try_password_fallback net config deadline st) (\<lambda>connected st1.
              if connected then (Inr (), st1)
              else (Inl (GenericError (''SSH_AUTH_SOCK points to non-existent path: '' @ agent)), st1))
          else
            and_then (try_connect_on_ports net config (CredAgent agent) deadline st) (\<lambda>connected st1.
              if connected
              then (Inr (), map_ssh (\<lambda>s. s\<lparr>ss_agent_socket := Some agent,
                                            ss_auth_method := Some AuthAgent\<rparr>) st1)
              else and_then (try_password_fallback net config deadline st1) (\<lambda>connected st2.
                if connected then (Inr (), st2)
                else (Inl (connection_failure config
                       (''Could not connect to '' @ ss_host (ssh st2) @ '' via SSH agent on ports ''
                         @ join_ports (ss_ports (ssh st2))) st2), st2))))"

definition read_optional_file :: "'w network \<Rightarrow> string option \<Rightarrow> 'w \<Rightarrow> string option result" where
  "read_optional_file net path w =
     (case path of
        None \<Rightarrow> Inr None
      | Some p \<Rightarrow>
          (case nt_read_file net (nt_expand_home net p) w of
             Inl e \<Rightarrow> Inl e | Inr content \<Rightarrow> Inr (Some content)))"

definition connect_via_private_key ::
  "'w network \<Rightarrow> ssh_config \<Rightarrow> string \<Rightarrow> int option \<Rightarrow> (unit, 'w run_state) effect" where
  "connect_via_private_key net config key_path deadline st =
     and_then (nt_read_file net (nt_expand_home net key_path) (world st), st) (\<lambda>key st1.
     and_then (read_optional_file net (cf_certificate config) (world st1), st1) (\<lambda>certificate st2.
     and_then (try_connect_on_ports net config (CredPrivateKey key certificate) deadline st2)
       (\<lambda>connected st3.
          if connected
          then (Inr (), map_ssh (\<lambda>s. s\<lparr>ss_auth_method := Some AuthPrivateKey\<rparr>) st3)
          else (Inl (connection_failure config
                 (''Failed to connect to '' @ ss_host (ssh st3) @ '' on ports: ''
                   @ join_ports (ss_ports (ssh st3))) st3), st3))))"

definition connect ::
  "'w network \<Rightarrow> ssh_config \<Rightarrow> int option \<Rightarrow> (unit, 'w run_state) effect" where
  "connect net config deadline st =
     (let st1 = map_ssh (\<lambda>s. s\<lparr>ss_last_failure := None\<rparr>) st
      in case cf_private_key config of
           None \<Rightarrow> connect_via_agent net config deadline st1
         | Some path \<Rightarrow> connect_via_private_key net config path deadline st1)"

end
