(* ===== verification/Reconnect.thy ===== *)
theory Reconnect
  imports SshSession
begin

text \<open>
  \<^verbatim>\<open>SshConnectionImpl.reconnect\<close> and \<^verbatim>\<open>sleepWithAbort\<close> (\<^verbatim>\<open>ssh.ts\<close>). The loop ends with the
  time window or the attempt cap, so the number of its rounds is bounded only by the clock:
  \<open>reconnect_loop\<close> takes fuel and \<open>reconnect\<close> runs it with \<open>reconnect_fuel\<close> rounds, which
  \<open>clock_law\<close> makes enough.
\<close>

definition sleep_with_abort :: "'w network \<Rightarrow> rat \<Rightarrow> (unit, 'w run_state) effect" where
  "sleep_with_abort net delay st =
     (case received st of
        Some s \<Rightarrow> (Inl (prompt_abort_reason s), st)
      | None \<Rightarrow>
          if delay \<le> 0 then (Inr (), st)
          else (case nt_sleep net delay (world st) of
                  (None, w) \<Rightarrow> (Inr (), observe None w st)
                | (Some s, w) \<Rightarrow> (Inl (prompt_abort_reason s), observe (Some s) w st)))"

definition is_connection_closed :: "exn \<Rightarrow> bool" where
  "is_connection_closed e \<longleftrightarrow> exn_message e = ''SSH connection closed''"

definition reconnect_is_fatal :: "exn \<Rightarrow> bool" where
  "reconnect_is_fatal e \<longleftrightarrow>
     is_host_key_error e \<or> is_permanent_key_error e \<or> is_connection_closed e"

definition reconnect_jitter :: "nat \<Rightarrow> rat \<Rightarrow> rat" where
  "reconnect_jitter attempt random =
     min (reconnect_base_delay * 2 ^ attempt) reconnect_max_delay *
     (jitter_base + random * jitter_range)"

definition reconnect_wait :: "'w network \<Rightarrow> int \<Rightarrow> nat \<Rightarrow> (unit, 'w run_state) effect" where
  "reconnect_wait net deadline attempt st =
     (case nt_random net (world st) of
        (random, w) \<Rightarrow>
          (let st1 = observe None w st;
               delay = min (reconnect_jitter attempt random)
                         (max 0 (of_int (deadline - nt_now net (world st1))))
           in sleep_with_abort net delay st1))"

definition reconnect_exhausted :: "'w run_state \<Rightarrow> nat \<Rightarrow> int \<Rightarrow> exn" where
  "reconnect_exhausted st attempt timeout =
     GenericError (''Failed to reconnect to '' @ ss_host (ssh st) @ '' after '' @ show_nat attempt
       @ '' attempts (timeout: '' @ show_int timeout @ ''ms)'')"

definition attempts_left :: "nat option \<Rightarrow> nat \<Rightarrow> bool" where
  "attempts_left cap attempt = (case cap of None \<Rightarrow> True | Some m \<Rightarrow> attempt < m)"

fun reconnect_loop ::
  "nat \<Rightarrow> 'w network \<Rightarrow> ssh_config \<Rightarrow> nat option \<Rightarrow> int \<Rightarrow> int \<Rightarrow> nat \<Rightarrow> 'w run_state
     \<Rightarrow> (unit result \<times> 'w run_state) option" where
  "reconnect_loop 0 net config cap timeout deadline attempt st = None"
| "reconnect_loop (Suc fuel) net config cap timeout deadline attempt st =
     (if nt_now net (world st) < deadline \<and> attempts_left cap attempt
      then (case connect net config (Some deadline) (map_ssh disconnect_transport st) of
              (Inr _, st1) \<Rightarrow> Some (Inr (), st1)
            | (Inl e, st1) \<Rightarrow>
                if reconnect_is_fatal e then Some (Inl e, st1)
                else (case reconnect_wait net deadline attempt st1 of
                        (Inl e', st2) \<Rightarrow> Some (Inl e', st2)
                      | (Inr _, st2) \<Rightarrow>
                          reconnect_loop fuel net config cap timeout deadline (Suc attempt) st2))
      else Some (Inl (reconnect_exhausted st attempt timeout), st))"

definition reconnect_fuel :: "int \<Rightarrow> nat" where
  "reconnect_fuel timeout = nat (timeout div 750) + 3"

definition reconnect ::
  "'w network \<Rightarrow> ssh_config \<Rightarrow> int option \<Rightarrow> (unit, 'w run_state) effect" where
  "reconnect net config default_timeout st =
     (case resolve_reconnect_budget config default_timeout of
        (cap, timeout) \<Rightarrow>
          (case reconnect_loop (reconnect_fuel timeout) net config cap timeout
                  (nt_now net (world st) + timeout) 0 st of
             Some r \<Rightarrow> r
           | None \<Rightarrow> (Inl (GenericError ''reconnect loop out of fuel''), st)))"

subsection \<open>What an attempt leaves behind\<close>

definition unconnected :: "'w run_state \<Rightarrow> bool" where
  "unconnected st \<longleftrightarrow> ss_connected_port (ssh st) = 0"

lemma session_frame [simp]:
  "ss_ports (disconnect_transport s) = ss_ports s" "ss_ports (disconnect s) = ss_ports s"
  "ss_ports (force_destroy s) = ss_ports s" "ss_ports (register_connected_client p s) = ss_ports s"
  "ss_host (disconnect_transport s) = ss_host s" "ss_host (disconnect s) = ss_host s"
  "ss_connected_port (disconnect_transport s) = 0" "ss_connected_port (disconnect s) = 0"
  "ss_connected_port (force_destroy s) = ss_connected_port s"
  "ss_connected_port (register_connected_client p s) = p"
  "ss_client (register_connected_client p s)" "\<not> ss_client (disconnect_transport s)"
  by (simp_all add: disconnect_transport_def disconnect_def force_destroy_def
      register_connected_client_def reset_transport_derived_state_def clear_cached_password_def)

lemma observe_frame [simp]:
  "ss_ports (ssh (observe sig w st)) = ss_ports (ssh st)"
  "world (observe sig w st) = w"
  "unconnected st \<Longrightarrow> unconnected (observe sig w st)"
  "received st \<noteq> None \<Longrightarrow> received (observe sig w st) = received st"
  "received (observe None w st) = received st"
  by (auto simp: observe_def handle_shutdown_signal_def unconnected_def split: option.splits)

lemma dial_frame:
  assumes "dial net config cred deadline port st = (outcome, st')"
  shows "ss_ports (ssh st') = ss_ports (ssh st) \<and> (unconnected st \<longrightarrow> unconnected st')"
  using assms by (auto simp: dial_def split: prod.splits)

definition attached_to :: "int list \<Rightarrow> 'w run_state \<Rightarrow> bool" where
  "attached_to ports st \<longleftrightarrow> ss_client (ssh st) \<and> ss_connected_port (ssh st) \<in> set ports"

lemma try_ports_outcome:
  assumes "try_ports net config cred deadline ports st = (r, st')" and "unconnected st"
  shows "ss_ports (ssh st') = ss_ports (ssh st) \<and>
    (case r of Inr True \<Rightarrow> attached_to ports st' | _ \<Rightarrow> unconnected st')"
  using assms
proof (induction ports arbitrary: st)
  case (Cons port ports)
  show ?case
  proof (cases "has_reconnect_deadline_expired net deadline st")
    case False
    obtain outcome st1 where d: "dial net config cred deadline port st = (outcome, st1)" by fastforce
    note frame = dial_frame [OF d]
    show ?thesis
    proof (cases outcome)
      case DialConnected
      then show ?thesis
        using Cons.prems False d frame by (auto simp: attached_to_def)
    next
      case (DialFailed raw resolved)
      let ?st2 = "map_ssh (\<lambda>s. s\<lparr>ss_last_failure := Some (unwrap_transport_error raw, port)\<rparr>) st1"
      have "unconnected ?st2" using frame Cons.prems(2) by (simp add: unconnected_def)
      then show ?thesis
        using Cons.prems False d frame DialFailed Cons.IH [of ?st2]
        by (auto simp: attached_to_def split: option.splits sum.splits bool.splits)
    qed
  qed (use Cons.prems in auto)
qed auto

definition settled_connection :: "int list \<Rightarrow> 'a result \<Rightarrow> 'w run_state \<Rightarrow> bool" where
  "settled_connection ports r st \<longleftrightarrow>
     ss_ports (ssh st) = ports \<and> (case r of Inr _ \<Rightarrow> attached_to ports st | Inl _ \<Rightarrow> unconnected st)"

lemma try_connect_outcome:
  assumes "try_connect_on_ports net config cred deadline st = (r, st')" and "unconnected st"
  shows "ss_ports (ssh st') = ss_ports (ssh st) \<and>
    (case r of Inr True \<Rightarrow> attached_to (ss_ports (ssh st)) st' | _ \<Rightarrow> unconnected st')"
  using assms try_ports_outcome unfolding try_connect_on_ports_def by blast

lemma attached_auth [simp]:
  "attached_to ports (st\<lparr>ssh := (ssh st)\<lparr>ss_auth_method := a\<rparr>\<rparr>) = attached_to ports st"
  "attached_to ports (st\<lparr>ssh := (ssh st)\<lparr>ss_auth_method := a, ss_agent_socket := b\<rparr>\<rparr>) = attached_to ports st"
  "attached_to ports (st\<lparr>ssh := (ssh st)\<lparr>ss_agent_socket := b, ss_auth_method := a\<rparr>\<rparr>) = attached_to ports st"
  by (simp_all add: attached_to_def)

lemma password_fallback_outcome:
  assumes "try_password_fallback net config deadline st = (r, st')" and "unconnected st"
  shows "ss_ports (ssh st') = ss_ports (ssh st) \<and>
    (case r of Inr True \<Rightarrow> attached_to (ss_ports (ssh st)) st' | _ \<Rightarrow> unconnected st')"
proof (cases "cf_agent_forward config \<or> \<not> cf_password_fallback config")
  case False
  obtain answer signal w where
    p: "nt_prompt net (''Password for '' @ cf_user config @ ''@'' @ ss_host (ssh st) @ '': '') (world st)
      = (answer, signal, w)" by (cases rule: prod_cases3)
  let ?st1 = "observe signal w st"
  have u: "unconnected ?st1" using assms(2) by simp
  show ?thesis
  proof (cases answer)
    case (Inl e)
    then show ?thesis using assms False p by (auto simp: try_password_fallback_def)
  next
    case (Inr password)
    obtain q st2 where c: "try_connect_on_ports net config (CredPassword password) deadline ?st1 = (q, st2)"
      by fastforce
    show ?thesis
      using assms(1) False p Inr c try_connect_outcome [OF c u]
      by (cases q) (auto simp: try_password_fallback_def split: bool.splits)
  qed
qed (use assms in \<open>auto simp: try_password_fallback_def split: if_splits\<close>)

lemma connect_without_agent_outcome:
  assumes "connect_without_agent_socket net config deadline st = (r, st')" and "unconnected st"
  shows "settled_connection (ss_ports (ssh st)) r st'"
  using assms password_fallback_outcome [OF _ assms(2)]
  by (fastforce simp: connect_without_agent_socket_def settled_connection_def
      split: if_splits and_then_split_asm bool.splits sum.splits)

lemma connect_via_agent_outcome:
  assumes "connect_via_agent net config deadline st = (r, st')" and u: "unconnected st"
  shows "settled_connection (ss_ports (ssh st)) r st'"
proof -
  consider (none) "connect_via_agent net config deadline st = (Inl reject_agent_forward_without_agent, st)"
    | (plain) "connect_via_agent net config deadline st = connect_without_agent_socket net config deadline st"
    | (gone) agent where "nt_agent_socket net (world st) = Some agent" "agent \<noteq> ''''"
        "\<not> nt_path_exists net agent (world st)"
    | (agent) agent where "nt_agent_socket net (world st) = Some agent" "agent \<noteq> ''''"
        "nt_path_exists net agent (world st)"
  proof (cases "nt_agent_socket net (world st) = None \<or> nt_agent_socket net (world st) = Some ''''")
    case True
    then show thesis
      using none plain by (cases "cf_agent_forward config") (auto simp: connect_via_agent_def)
  next
    case False
    then obtain a where "nt_agent_socket net (world st) = Some a" "a \<noteq> ''''"
      by (cases "nt_agent_socket net (world st)") auto
    then show thesis using gone agent by (cases "nt_path_exists net a (world st)") simp_all
  qed
  then show ?thesis
  proof cases
    case none
    then show ?thesis using assms by (simp add: settled_connection_def)
  next
    case plain
    then show ?thesis using assms connect_without_agent_outcome by metis
  next
    case (gone agent)
    then show ?thesis
      using assms password_fallback_outcome [OF _ u]
      by (fastforce simp: connect_via_agent_def settled_connection_def
          split: if_splits and_then_split_asm bool.splits sum.splits)
  next
    case (agent agent)
    obtain q st1 where c: "try_connect_on_ports net config (CredAgent agent) deadline st = (q, st1)"
      by fastforce
    note out = try_connect_outcome [OF c u]
    show ?thesis
    proof (cases "q = Inr False")
      case False
      then show ?thesis
        using assms(1) agent c out
        by (cases q) (auto simp: connect_via_agent_def settled_connection_def)
    next
      case True
      have u1: "unconnected st1" using out True by simp
      obtain q2 st2 where f: "try_password_fallback net config deadline st1 = (q2, st2)" by fastforce
      show ?thesis
        using assms(1) agent c True f out password_fallback_outcome [OF f u1]
        by (cases q2) (auto simp: connect_via_agent_def settled_connection_def split: bool.splits)
    qed
  qed
qed

lemma connect_via_private_key_outcome:
  assumes "connect_via_private_key net config path deadline st = (r, st')" and u: "unconnected st"
  shows "settled_connection (ss_ports (ssh st)) r st'"
  using assms try_connect_outcome [OF _ u]
  by (fastforce simp: connect_via_private_key_def settled_connection_def
      split: if_splits and_then_split_asm bool.splits sum.splits)

lemma connect_outcome:
  assumes "connect net config deadline st = (r, st')" and "unconnected st"
  shows "settled_connection (ss_ports (ssh st)) r st'"
proof -
  let ?st = "map_ssh (\<lambda>s. s\<lparr>ss_last_failure := None\<rparr>) st"
  have "unconnected ?st" using assms(2) by (simp add: unconnected_def)
  then show ?thesis
    using assms(1) connect_via_agent_outcome [of net config deadline ?st r st']
      connect_via_private_key_outcome [of net config _ deadline ?st r st']
    by (auto simp: connect_def Let_def split: option.splits)
qed

subsection \<open>The reconnect loop\<close>

lemma sleep_with_abort_frame:
  assumes "sleep_with_abort net delay st = (r, st')"
  shows "ss_ports (ssh st') = ss_ports (ssh st) \<and> (unconnected st \<longrightarrow> unconnected st')"
  using assms by (auto simp: sleep_with_abort_def split: option.splits if_splits prod.splits)

lemma reconnect_wait_frame:
  assumes "reconnect_wait net deadline attempt st = (r, st')"
  shows "ss_ports (ssh st') = ss_ports (ssh st) \<and> (unconnected st \<longrightarrow> unconnected st')"
proof -
  obtain random w where "nt_random net (world st) = (random, w)" by fastforce
  then show ?thesis
    using assms sleep_with_abort_frame by (fastforce simp: reconnect_wait_def Let_def)
qed

lemma unconnected_disconnect [simp]: "unconnected (map_ssh disconnect_transport st)"
  by (simp add: unconnected_def)

lemma reconnect_loop_outcome:
  assumes "reconnect_loop fuel net config cap timeout deadline attempt st = Some (r, st')"
    and "unconnected st \<or> (nt_now net (world st) < deadline \<and> attempts_left cap attempt)"
  shows "settled_connection (ss_ports (ssh st)) r st'"
  using assms
proof (induction fuel arbitrary: attempt st)
  case (Suc fuel)
  show ?case
  proof (cases "nt_now net (world st) < deadline \<and> attempts_left cap attempt")
    case True
    obtain q st1 where c: "connect net config (Some deadline) (map_ssh disconnect_transport st) = (q, st1)"
      by fastforce
    have s: "settled_connection (ss_ports (ssh st)) q st1"
      using connect_outcome [OF c] by simp
    show ?thesis
    proof (cases q)
      case (Inr x)
      then show ?thesis using Suc.prems(1) True c s by auto
    next
      case (Inl e)
      show ?thesis
      proof (cases "reconnect_is_fatal e")
        case True
        then show ?thesis using Suc.prems(1) \<open>nt_now net _ < _ \<and> _\<close> c s Inl by auto
      next
        case False
        obtain v st2 where w: "reconnect_wait net deadline attempt st1 = (v, st2)" by fastforce
        note frame = reconnect_wait_frame [OF w]
        have u: "unconnected st2" "ss_ports (ssh st2) = ss_ports (ssh st)"
          using frame s Inl by (simp_all add: settled_connection_def)
        show ?thesis
        proof (cases v)
          case (Inl e2)
          then show ?thesis
            using Suc.prems(1) True c \<open>q = Inl e\<close> False w u by (auto simp: settled_connection_def)
        next
          case (Inr x)
          then show ?thesis
            using Suc.prems(1) True c \<open>q = Inl e\<close> False w u Suc.IH [of "Suc attempt" st2] by auto
        qed
      qed
    qed
  next
    case False
    then show ?thesis using Suc.prems by (auto simp: settled_connection_def)
  qed
qed simp

lemma reconnect_loop_mono:
  "reconnect_loop fuel net config cap timeout deadline attempt st = Some r \<Longrightarrow> fuel \<le> fuel' \<Longrightarrow>
   reconnect_loop fuel' net config cap timeout deadline attempt st = Some r"
proof (induction fuel arbitrary: fuel' attempt st)
  case (Suc fuel)
  obtain f where "fuel' = Suc f" "fuel \<le> f" using Suc.prems(2) by (cases fuel') auto
  then show ?case
    using Suc by (auto split: prod.splits sum.splits if_splits)
qed simp

subsection \<open>The clock\<close>

text \<open>
  What the loop relies on: the clock does not go back, a timer fires no earlier than its
  delay, and the jitter comes from \<^verbatim>\<open>[0, 1)\<close>.
\<close>

definition clock_law :: "'w network \<Rightarrow> bool" where
  "clock_law net \<longleftrightarrow>
     (\<forall>d w w'. nt_sleep net d w = (None, w') \<longrightarrow> of_int (nt_now net w) + d \<le> of_int (nt_now net w')) \<and>
     (\<forall>q w o' s w'. nt_dial net q w = (o', s, w') \<longrightarrow> nt_now net w \<le> nt_now net w') \<and>
     (\<forall>t w a s w'. nt_prompt net t w = (a, s, w') \<longrightarrow> nt_now net w \<le> nt_now net w') \<and>
     (\<forall>w r w'. nt_random net w = (r, w') \<longrightarrow> nt_now net w \<le> nt_now net w' \<and> 0 \<le> r \<and> r < 1)"

lemma clock_lawD:
  assumes "clock_law net"
  shows "nt_sleep net d w = (None, w') \<Longrightarrow> of_int (nt_now net w) + d \<le> of_int (nt_now net w')"
    "nt_dial net q w = (o', s, w') \<Longrightarrow> nt_now net w \<le> nt_now net w'"
    "nt_prompt net t w = (a, s, w') \<Longrightarrow> nt_now net w \<le> nt_now net w'"
    "nt_random net w = (r, w') \<Longrightarrow> nt_now net w \<le> nt_now net w'"
    "nt_random net w = (r, w') \<Longrightarrow> 0 \<le> r"
  using assms unfolding clock_law_def by blast+

definition later :: "'w network \<Rightarrow> 'w run_state \<Rightarrow> 'w run_state \<Rightarrow> bool" where
  "later net st st' \<longleftrightarrow> nt_now net (world st) \<le> nt_now net (world st')"

lemma later_refl [simp]: "later net st st"
  by (simp add: later_def)

lemma later_trans: "later net a b \<Longrightarrow> later net b c \<Longrightarrow> later net a c"
  by (simp add: later_def)

lemma later_ssh [simp]:
  "later net (st\<lparr>ssh := s\<rparr>) st' = later net st st'" "later net st (st'\<lparr>ssh := s\<rparr>) = later net st st'"
  by (simp_all add: later_def)

lemma later_observe: "nt_now net (world st) \<le> nt_now net w \<Longrightarrow> later net st (observe sig w st)"
  by (simp add: later_def)

lemma try_ports_later:
  assumes law: "clock_law net" and "try_ports net config cred deadline ports st = (r, st')"
  shows "later net st st'"
  using assms(2)
proof (induction ports arbitrary: st)
  case (Cons port ports)
  show ?case
  proof (cases "has_reconnect_deadline_expired net deadline st")
    case False
    obtain outcome st1 where d: "dial net config cred deadline port st = (outcome, st1)" by fastforce
    have l: "later net st st1"
      using d clock_lawD(2) [OF law] by (auto simp: dial_def later_observe split: prod.splits)
    show ?thesis
      using Cons.prems False d l later_trans [OF l] Cons.IH
      by (fastforce split: dial_outcome.splits option.splits)
  qed (use Cons.prems in auto)
qed simp

lemma later_and_then:
  "later net st (snd p) \<Longrightarrow> (\<And>x st1. p = (Inr x, st1) \<Longrightarrow> later net st1 (snd (k x st1))) \<Longrightarrow>
   later net st (snd (and_then p k))"
  using later_trans by (cases p; cases "fst p") fastforce+

lemma try_connect_later:
  "clock_law net \<Longrightarrow> later net st (snd (try_connect_on_ports net config cred deadline st))"
  using try_ports_later by (metis prod.collapse try_connect_on_ports_def)

lemma password_fallback_later:
  assumes law: "clock_law net"
  shows "later net st (snd (try_password_fallback net config deadline st))"
proof -
  obtain answer signal w where
    p: "nt_prompt net (''Password for '' @ cf_user config @ ''@'' @ ss_host (ssh st) @ '': '') (world st)
      = (answer, signal, w)" by (cases rule: prod_cases3)
  have "later net st (observe signal w st)"
    using clock_lawD(3) [OF law p] by (rule later_observe)
  then show ?thesis
    unfolding try_password_fallback_def p by (auto intro!: later_and_then try_connect_later [OF law])
qed

lemma connect_without_agent_later:
  "clock_law net \<Longrightarrow> later net st (snd (connect_without_agent_socket net config deadline st))"
  unfolding connect_without_agent_socket_def
  by (auto intro!: later_and_then password_fallback_later)

lemma connect_via_agent_later:
  "clock_law net \<Longrightarrow> later net st (snd (connect_via_agent net config deadline st))"
  unfolding connect_via_agent_def
  by (auto intro!: later_and_then password_fallback_later try_connect_later connect_without_agent_later
      split: option.split)

lemma connect_later:
  assumes "clock_law net"
  shows "later net st (snd (connect net config deadline st))"
proof -
  let ?st = "map_ssh (\<lambda>s. s\<lparr>ss_last_failure := None\<rparr>) st"
  have "later net ?st (snd (connect net config deadline st))"
    using assms unfolding connect_def connect_via_private_key_def Let_def
    by (auto intro!: later_and_then connect_via_agent_later try_connect_later
        simp del: later_ssh(1) split: option.split)
  then show ?thesis by simp
qed

lemma sleep_with_abort_Inr:
  assumes "sleep_with_abort net delay st = (Inr u, st')"
  shows "delay \<le> 0 \<and> st' = st \<or> (\<exists>w. nt_sleep net delay (world st) = (None, w) \<and> world st' = w)"
  using assms by (auto simp: sleep_with_abort_def split: option.splits if_splits prod.splits)

lemma reconnect_jitter_min:
  assumes "0 \<le> random"
  shows "750 \<le> reconnect_jitter attempt random"
proof -
  have "(1::rat) \<le> 2 ^ attempt" by (rule one_le_power) simp
  then have "1000 \<le> min (reconnect_base_delay * 2 ^ attempt) reconnect_max_delay"
    by (simp add: reconnect_base_delay_def reconnect_max_delay_def)
  moreover have "3 / 4 \<le> jitter_base + random * jitter_range"
    using assms by (simp add: jitter_base_def jitter_range_def)
  ultimately have "1000 * (3 / 4) \<le> reconnect_jitter attempt random"
    unfolding reconnect_jitter_def by (intro mult_mono) simp_all
  then show ?thesis by simp
qed

text \<open>A wait that returns either waited at least 750 ms or reached the deadline.\<close>

lemma reconnect_wait_progress:
  assumes law: "clock_law net" and w: "reconnect_wait net deadline attempt st = (Inr u, st')"
  shows "nt_now net (world st) + 750 \<le> nt_now net (world st') \<or> deadline \<le> nt_now net (world st')"
proof -
  obtain random w1 where r: "nt_random net (world st) = (random, w1)" by fastforce
  let ?st1 = "observe None w1 st"
  let ?left = "of_int (deadline - nt_now net w1) :: rat"
  let ?delay = "min (reconnect_jitter attempt random) (max 0 ?left)"
  have now1: "nt_now net (world st) \<le> nt_now net w1" and j: "750 \<le> reconnect_jitter attempt random"
    using clock_lawD(4,5) [OF law r] reconnect_jitter_min by auto
  have s: "sleep_with_abort net ?delay ?st1 = (Inr u, st')"
    using w r by (simp add: reconnect_wait_def Let_def)
  show ?thesis
  proof (cases "?delay \<le> 0")
    case True
    then have "st' = ?st1"
      using s by (auto simp: sleep_with_abort_def split: option.splits)
    moreover have "?left \<le> 0" using True j by (simp add: min_def split: if_splits)
    ultimately show ?thesis by simp
  next
    case False
    obtain w2 where sl: "nt_sleep net ?delay w1 = (None, w2)" and st': "world st' = w2"
      using sleep_with_abort_Inr [OF s] False by auto
    have adv: "of_int (nt_now net w1) + ?delay \<le> of_int (nt_now net w2)"
      by (rule clock_lawD(1) [OF law sl])
    show ?thesis
    proof (cases "reconnect_jitter attempt random \<le> max 0 ?left")
      case True
      then have "of_int (nt_now net w1) + 750 \<le> (of_int (nt_now net w2) :: rat)"
        using adv j by simp
      then have "nt_now net w1 + 750 \<le> nt_now net w2" by linarith
      then show ?thesis using now1 st' by simp
    next
      case jl: False
      then have "?delay = ?left" using False by (simp add: min_def max_def split: if_splits)
      then have "(of_int deadline :: rat) \<le> of_int (nt_now net w2)" using adv by simp
      then show ?thesis using st' by simp
    qed
  qed
qed

definition rounds_left :: "int \<Rightarrow> nat" where
  "rounds_left remaining = (if remaining \<le> 0 then 1 else nat (remaining div 750) + 2)"

lemma rounds_left_750: "0 < remaining \<Longrightarrow> r \<le> remaining - 750 \<or> r \<le> 0 \<Longrightarrow> rounds_left r < rounds_left remaining"
proof -
  assume pos: "0 < remaining" and r: "r \<le> remaining - 750 \<or> r \<le> 0"
  show ?thesis
  proof (cases "r \<le> 0")
    case False
    then have "r div 750 \<le> (remaining - 750) div 750"
      using r by (intro zdiv_mono1) auto
    moreover have "(remaining - 750) div 750 = remaining div 750 - 1" by simp
    moreover have "0 \<le> r div 750" using False by simp
    ultimately show ?thesis using False pos by (simp add: rounds_left_def)
  qed (use pos in \<open>simp add: rounds_left_def\<close>)
qed

lemma reconnect_loop_ends:
  assumes law: "clock_law net"
  shows "rounds_left (deadline - nt_now net (world st)) \<le> fuel \<Longrightarrow>
    reconnect_loop fuel net config cap timeout deadline attempt st \<noteq> None"
proof (induction fuel arbitrary: attempt st)
  case 0
  then show ?case by (simp add: rounds_left_def split: if_splits)
next
  case (Suc fuel)
  show ?case
  proof (cases "nt_now net (world st) < deadline \<and> attempts_left cap attempt")
    case True
    obtain q st1 where c: "connect net config (Some deadline) (map_ssh disconnect_transport st) = (q, st1)"
      by fastforce
    have l: "nt_now net (world st) \<le> nt_now net (world st1)"
      using connect_later [OF law, of "map_ssh disconnect_transport st" config "Some deadline"] c
      by (simp add: later_def)
    obtain v st2 where w: "reconnect_wait net deadline attempt st1 = (v, st2)" by fastforce
    have "reconnect_loop fuel net config cap timeout deadline (Suc attempt) st2 \<noteq> None" if "v = Inr u" for u
    proof (rule Suc.IH)
      have "deadline - nt_now net (world st2) \<le> deadline - nt_now net (world st) - 750 \<or>
          deadline - nt_now net (world st2) \<le> 0"
        using reconnect_wait_progress [OF law] w that l by fastforce
      then have "rounds_left (deadline - nt_now net (world st2)) < rounds_left (deadline - nt_now net (world st))"
        using True by (intro rounds_left_750) auto
      then show "rounds_left (deadline - nt_now net (world st2)) \<le> fuel" using Suc.prems by simp
    qed
    then show ?thesis using True c w by (cases q; cases v) auto
  qed auto
qed

lemma reconnect_is_loop:
  assumes law: "clock_law net" and budget: "resolve_reconnect_budget config default_timeout = (cap, timeout)"
    and fuel: "reconnect_fuel timeout \<le> fuel"
  shows "reconnect_loop fuel net config cap timeout (nt_now net (world st) + timeout) 0 st =
    Some (reconnect net config default_timeout st)"
proof -
  have "rounds_left timeout \<le> reconnect_fuel timeout"
    by (simp add: rounds_left_def reconnect_fuel_def)
  then obtain r where
    r: "reconnect_loop (reconnect_fuel timeout) net config cap timeout (nt_now net (world st) + timeout) 0 st = Some r"
    using reconnect_loop_ends [OF law, of "nt_now net (world st) + timeout" st "reconnect_fuel timeout" config cap timeout 0]
    by auto
  then show ?thesis
    using reconnect_loop_mono [OF r fuel] budget by (simp add: reconnect_def)
qed

subsection \<open>Properties\<close>

text \<open>
  C20: the reconnect loop ends. Under the clock law it needs at most one round per 750 ms of its
  window (and two more), so \<open>reconnect_fuel\<close> rounds always suffice and any larger number of
  rounds gives the same result.
\<close>

theorem reconnect_terminates:
  assumes "clock_law net" and "resolve_reconnect_budget config default_timeout = (cap, timeout)"
    and "nat (timeout div 750) + 3 \<le> fuel"
  shows "reconnect_loop fuel net config cap timeout (nt_now net (world st) + timeout) 0 st =
    Some (reconnect net config default_timeout st)"
  using reconnect_is_loop [OF assms(1,2)] assms(3) by (simp add: reconnect_fuel_def)

lemma reconnect_settles:
  assumes "clock_law net" and "resolve_reconnect_budget config default_timeout = (cap, timeout)"
    and "0 < timeout" "cap \<noteq> Some 0" and "reconnect net config default_timeout st = (r, st')"
  shows "settled_connection (ss_ports (ssh st)) r st'"
proof -
  have "reconnect_loop (reconnect_fuel timeout) net config cap timeout
      (nt_now net (world st) + timeout) 0 st = Some (r, st')"
    using reconnect_is_loop [OF assms(1,2) order_refl, of st] assms(5) by simp
  then show ?thesis
    by (rule reconnect_loop_outcome)
       (use assms(3,4) in \<open>auto simp: attempts_left_def split: option.splits\<close>)
qed

text \<open>
  C17: a reconnect with a positive window and attempt cap leaves the port list alone and ends in
  one of two states: attached to one of the listed ports when it returns, without any connected
  port when it throws. There is no state in between.
\<close>

theorem reconnect_all_or_nothing:
  assumes "clock_law net" and "resolve_reconnect_budget config default_timeout = (cap, timeout)"
    and "0 < timeout" and "cap \<noteq> Some 0" and "reconnect net config default_timeout st = (r, st')"
  shows "ss_ports (ssh st') = ss_ports (ssh st) \<and>
    (case r of Inr _ \<Rightarrow> ss_client (ssh st') \<and> ss_connected_port (ssh st') \<in> set (ss_ports (ssh st))
             | Inl _ \<Rightarrow> ss_connected_port (ssh st') = 0)"
  using reconnect_settles [OF assms]
  by (auto simp: settled_connection_def attached_to_def unconnected_def split: sum.splits)

text \<open>
  a host key that fails verification is final: no further port is dialed, nothing is
  recorded as a retryable failure, and the reconnect loop does not try again.
\<close>

theorem host_key_failure_is_final:
  assumes "\<not> has_reconnect_deadline_expired net deadline st"
    and "dial net config cred deadline port st = (DialFailed raw resolved, st1)"
    and "unwrap_transport_error raw = HostKeyErr m"
  shows "try_ports net config cred deadline (port # ports) st = (Inl (HostKeyErr m), st1) \<and>
    reconnect_is_fatal (HostKeyErr m)"
  using assms by (simp add: handle_try_connect_error_def reconnect_is_fatal_def)

subsection \<open>A network that refuses every connection\<close>

definition refusing_network :: "exn \<Rightarrow> int network" where
  "refusing_network e =
     \<lparr>nt_now = (\<lambda>w. w), nt_sleep = (\<lambda>d w. (None, w + \<lceil>d\<rceil>)), nt_random = (\<lambda>w. (0, w)),
      nt_dial = (\<lambda>_ w. (DialFailed e False, None, w + 1)), nt_prompt = (\<lambda>_ w. (Inr [], None, w)),
      nt_agent_socket = (\<lambda>_. Some ''/agent''), nt_path_exists = (\<lambda>_ _. True),
      nt_read_file = (\<lambda>_ _. Inr []), nt_expand_home = (\<lambda>p. p)\<rparr>"

definition refused :: exn where
  "refused = TransportErr ''CONNECT_FAILED'' None (NativeErr ''ECONNREFUSED'' ''refused'')"

definition agent_config :: "nat option \<Rightarrow> ssh_config" where
  "agent_config cap =
     \<lparr>cf_user = ''root'', cf_private_key = None, cf_certificate = None, cf_password_fallback = False,
      cf_agent_forward = False, cf_reconnect_timeout = Some 1000, cf_max_reconnect_attempts = cap,
      cf_sudo_password = None\<rparr>"

lemma refusing_network_clock [simp]: "clock_law (refusing_network e)"
  by (simp add: clock_law_def refusing_network_def)

lemma agent_config_budget:
  "resolve_reconnect_budget (agent_config cap) default_timeout = (cap, 1000)"
  by (simp add: resolve_reconnect_budget_def agent_config_def)

theorem reconnect_terminates_witness:
  "reconnect_loop 4 (refusing_network refused) (agent_config None) None 1000 1000 0 (fresh_state 0) =
   Some (reconnect (refusing_network refused) (agent_config None) None (fresh_state 0))"
proof -
  have "nat (1000 div 750) + 3 \<le> (4::nat)" by simp
  from reconnect_terminates [OF refusing_network_clock [of refused] agent_config_budget [of None None] this,
      of "fresh_state 0"]
  show ?thesis by (simp add: refusing_network_def fresh_state_def)
qed

theorem reconnect_all_or_nothing_witness:
  "\<exists>e st'. reconnect (refusing_network refused) (agent_config (Some 1)) None (fresh_state 0) = (Inl e, st') \<and>
     ss_ports (ssh st') = [22] \<and> ss_connected_port (ssh st') = 0"
proof -
  let ?p = "reconnect (refusing_network refused) (agent_config (Some 1)) None (fresh_state 0)"
  obtain r st' where p: "?p = (r, st')" by fastforce
  have "isl (fst ?p)" by code_simp
  then obtain e where "r = Inl e" using p by (cases r) auto
  moreover have "ss_ports (ssh (fresh_state (0::int))) = [22]" by (simp add: fresh_state_def fresh_session_def)
  ultimately show ?thesis
    using reconnect_all_or_nothing [OF refusing_network_clock agent_config_budget _ _ p] p by simp
qed

theorem host_key_failure_is_final_witness:
  "\<exists>st1. try_ports (refusing_network (TransportErr ''HOST_KEY_REJECTED'' None (HostKeyErr ''changed'')))
      (agent_config None) (CredAgent ''/agent'') None [22, 2222] (fresh_state 0) =
     (Inl (HostKeyErr ''changed''), st1) \<and> reconnect_is_fatal (HostKeyErr ''changed'')"
proof -
  let ?raw = "TransportErr ''HOST_KEY_REJECTED'' None (HostKeyErr ''changed'')"
  have "\<not> has_reconnect_deadline_expired (refusing_network ?raw) None (fresh_state 0)"
    by (simp add: has_reconnect_deadline_expired_def)
  moreover have "\<exists>st1. dial (refusing_network ?raw) (agent_config None) (CredAgent ''/agent'') None 22 (fresh_state 0)
      = (DialFailed ?raw False, st1)"
    by (simp add: dial_def refusing_network_def)
  ultimately show ?thesis
    using host_key_failure_is_final [where raw = ?raw and m = "''changed''"] by fastforce
qed

end
