(* ===== verification/Runner.thy ===== *)
theory Runner
  imports Reconnect Conditional
begin

text \<open>
  The runner (\<^verbatim>\<open>runner.ts\<close>): one step per top-level module, the control-plane meta that
  moves the SSH connection (port change, reboot), the module loop with its signals, and the
  run of a definition after the connection is up.
\<close>

record 'w runner_context =
  rx_net :: "'w network"
  rx_config :: ssh_config
  rx_grace_ms :: rat
  rx_diff :: bool
  rx_dry_run :: bool
  rx_verbose :: bool

definition default_reboot_grace_seconds :: rat where
  "default_reboot_grace_seconds = 15"

definition default_reboot_reconnect_timeout :: int where
  "default_reboot_reconnect_timeout = 300000"

definition reboot_grace_ms :: "rat option \<Rightarrow> rat" where
  "reboot_grace_ms seconds =
     max 0 (case seconds of None \<Rightarrow> default_reboot_grace_seconds | Some s \<Rightarrow> s) * 1000"

definition sleep_respecting_shutdown :: "'w network \<Rightarrow> rat \<Rightarrow> 'w run_state \<Rightarrow> 'w run_state" where
  "sleep_respecting_shutdown net duration st =
     (if duration \<le> 0 \<or> received st \<noteq> None then st
      else (case nt_sleep net duration (world st) of (signal, w) \<Rightarrow> observe signal w st))"

record step_result =
  sr_env :: environment
  sr_flush :: bool
  sr_break :: bool
  sr_status :: "module_status option"
  sr_stop :: bool

definition interrupted_step_result :: "environment \<Rightarrow> step_result" where
  "interrupted_step_result env =
     \<lparr>sr_env = env, sr_flush = False, sr_break = True, sr_status = None, sr_stop = False\<rparr>"

definition plain_step_result :: "environment \<Rightarrow> bool \<Rightarrow> module_status \<Rightarrow> step_result" where
  "plain_step_result env break status =
     \<lparr>sr_env = env, sr_flush = False, sr_break = break, sr_status = Some status, sr_stop = False\<rparr>"

definition should_break_after_result :: "module_result \<Rightarrow> bool" where
  "should_break_after_result result \<longleftrightarrow> mr_status result = StFailed \<or> mr_stop result"

definition handle_caught_step_error ::
  "environment \<Rightarrow> exn \<Rightarrow> string \<Rightarrow> bool \<Rightarrow> 'w run_state \<Rightarrow> step_result \<times> 'w run_state" where
  "handle_caught_step_error env e name verbose st =
     (if received st \<noteq> None then (interrupted_step_result env, st)
      else (plain_step_result env True StFailed,
            print_command_failure e verbose (print_module_result name StFailed None None st)))"

subsection \<open>Control-plane meta\<close>

fun sshd_ports :: "meta_entry list \<Rightarrow> int list" where
  "sshd_ports [] = []"
| "sshd_ports (MetaSshdPort port # es) = port # sshd_ports es"
| "sshd_ports (_ # es) = sshd_ports es"

fun system_hosts :: "meta_entry list \<Rightarrow> string list" where
  "system_hosts [] = []"
| "system_hosts (MetaSystemHost host # es) = host # system_hosts es"
| "system_hosts (_ # es) = system_hosts es"

fun add_ports :: "int list \<Rightarrow> ssh_session \<Rightarrow> int list \<times> ssh_session" where
  "add_ports [] s = ([], s)"
| "add_ports (port # ports) s =
     (case add_port port s of
        (added, s1) \<Rightarrow>
          (case add_ports ports s1 of
             (rest, s2) \<Rightarrow> (if added then port # rest else rest, s2)))"

definition add_sshd_ports :: "meta_entry list \<Rightarrow> ssh_session \<Rightarrow> int list \<times> ssh_session" where
  "add_sshd_ports es = add_ports (sshd_ports es)"

definition has_sshd_port_meta :: "meta_entry list \<Rightarrow> bool" where
  "has_sshd_port_meta es = list_ex is_sshd_port_meta_entry es"

definition has_system_reboot_meta :: "meta_entry list \<Rightarrow> bool" where
  "has_system_reboot_meta es = list_ex is_system_reboot_meta_entry es"

definition is_connected_to_reported_sshd_port :: "ssh_session \<Rightarrow> meta_entry list \<Rightarrow> bool" where
  "is_connected_to_reported_sshd_port s es \<longleftrightarrow>
     ss_connected_port s > 0 \<and> ss_connected_port s \<in> set (sshd_ports es)"

definition should_skip_port_change_reconnect :: "ssh_session \<Rightarrow> meta_entry list \<Rightarrow> bool" where
  "should_skip_port_change_reconnect s es \<longleftrightarrow>
     has_system_reboot_meta es \<or> is_connected_to_reported_sshd_port s es"

definition port_change_diagnostic :: "bool \<Rightarrow> int list \<Rightarrow> exn \<Rightarrow> string" where
  "port_change_diagnostic reconnected ports e =
     (if reconnected
      then ''Reconnect on port(s) '' @ join_ports ports @ '' succeeded but a follow-up step failed: ''
             @ exn_to_string e @ ''.''
      else ''Failed to reconnect on port(s) '' @ join_ports ports @ '' after port change: ''
             @ exn_to_string e @ ''. '' @ ''Verify that port(s) '' @ join_ports ports
             @ '' are allowed by the server's firewall rules.'')"

definition handle_port_change ::
  "'w runner_context \<Rightarrow> meta_entry list \<Rightarrow> (unit, 'w run_state) effect" where
  "handle_port_change ctx es st =
     (if \<not> has_sshd_port_meta es then (Inr (), st)
      else (case add_sshd_ports es (ssh st) of
              (added, s1) \<Rightarrow>
                (let st1 = st\<lparr>ssh := s1\<rparr>
                 in if should_skip_port_change_reconnect s1 es then (Inr (), st1)
                    else catching (reconnect (rx_net ctx) (rx_config ctx) None st1) (\<lambda>e st2.
                      let reconnected = ss_connected_port (ssh st2) > 0;
                          st3 = (if reconnected then st2 else map_ssh (fold remove_port added) st2)
                      in (Inl e, emit (OutStderr (port_change_diagnostic reconnected added e)) st3)))))"

definition handle_reboot ::
  "'w runner_context \<Rightarrow> meta_entry list \<Rightarrow> (unit, 'w run_state) effect" where
  "handle_reboot ctx es st =
     (if \<not> has_system_reboot_meta es then (Inr (), st)
      else
        (let st1 = (case system_hosts es of [] \<Rightarrow> st | host # _ \<Rightarrow> map_ssh (update_host host) st);
             st2 = sleep_respecting_shutdown (rx_net ctx) (rx_grace_ms ctx) st1
         in catching (reconnect (rx_net ctx) (rx_config ctx) (Some default_reboot_reconnect_timeout) st2)
              (\<lambda>e st3.
                 (Inl e, emit (OutStderr (''Failed to reconnect after reboot: '' @ exn_to_string e)) st3))))"

definition apply_runner_control_plane_meta ::
  "'w runner_context \<Rightarrow> meta_entry list option \<Rightarrow> module_status \<Rightarrow> (unit, 'w run_state) effect"
where
  "apply_runner_control_plane_meta ctx meta status st =
     (if status = StFailed then (Inr (), st)
      else (case meta of
              None \<Rightarrow> (Inr (), st)
            | Some es \<Rightarrow>
                and_then (lift_result (assert_valid_module_meta_entries (Some es)) st) (\<lambda>_ st1.
                and_then (handle_port_change ctx es st1) (\<lambda>_ st2. handle_reboot ctx es st2))))"

definition runner_step_hook :: "'w runner_context \<Rightarrow> 'w step_hook" where
  "runner_step_hook ctx step = apply_runner_control_plane_meta ctx (os_meta step) (os_status step)"

definition handle_meta_and_build_result ::
  "'w runner_context \<Rightarrow> bool \<Rightarrow> environment \<Rightarrow> module_result \<Rightarrow> (step_result, 'w run_state) effect"
where
  "handle_meta_and_build_result ctx dry_run env result st =
     and_then
       (case mr_meta result of
          None \<Rightarrow> (Inr env, st)
        | Some es \<Rightarrow>
            and_then (lift_result (merge_environment_from_meta env (Some es)) st) (\<lambda>next_env st1.
              if dry_run then (Inr next_env, st1)
              else and_then (apply_runner_control_plane_meta ctx (Some es) (mr_status result) st1)
                     (\<lambda>_ st2. (Inr next_env, st2))))
       (\<lambda>next_env st3.
          (Inr \<lparr>sr_env = next_env, sr_flush = mr_flush result,
                sr_break = should_break_after_result result, sr_status = Some (mr_status result),
                sr_stop = mr_stop result\<rparr>, st3))"

subsection \<open>One top-level module\<close>

definition step_of_dry_run :: "dry_run_step_result \<Rightarrow> step_result" where
  "step_of_dry_run r =
     \<lparr>sr_env = dr_env r, sr_flush = False, sr_break = dr_break r, sr_status = dr_status r,
      sr_stop = dr_stop r\<rparr>"

definition recipe_apply_options :: "'w runner_context \<Rightarrow> 'w apply_options" where
  "recipe_apply_options ctx =
     no_options\<lparr>ao_on_child_step := Some (runner_step_hook ctx),
                ao_on_signal_step := Some (runner_step_hook ctx), ao_shutdown := True,
                ao_signal_hooks := Some stats_hooks, ao_verbose := rx_verbose ctx\<rparr>"

definition run_recipe_body ::
  "'w runner_context \<Rightarrow> 'w module_core \<Rightarrow> 'w module list \<Rightarrow> environment
     \<Rightarrow> (step_result, 'w run_state) effect" where
  "run_recipe_body ctx c children env st =
     (if rx_dry_run ctx
      then and_then
        (dry_run_recipe_module Connection (rx_diff ctx) True (rx_verbose ctx) (mc_name c) children env st)
        (\<lambda>r st1. (Inr (step_of_dry_run r), st1))
      else and_then (mc_check c Connection env (start_module_spinner (mc_name c) st)) (\<lambda>checked st1.
        if checked = CheckOk
        then (Inr (plain_step_result env False StOk), print_module_result (mc_name c) StOk None None st1)
        else and_then (mc_apply c Connection env (recipe_apply_options ctx) st1)
               (handle_meta_and_build_result ctx False env)))"

definition settle_step ::
  "environment \<Rightarrow> string \<Rightarrow> bool \<Rightarrow> step_result result \<times> 'w run_state \<Rightarrow> step_result \<times> 'w run_state"
where
  "settle_step env name verbose r =
     (case r of
        (Inr step, st) \<Rightarrow> (step, st)
      | (Inl e, st) \<Rightarrow> handle_caught_step_error env e name verbose st)"

definition run_recipe_module ::
  "'w runner_context \<Rightarrow> 'w module_core \<Rightarrow> 'w module list \<Rightarrow> environment \<Rightarrow> 'w run_state
     \<Rightarrow> step_result \<times> 'w run_state" where
  "run_recipe_module ctx c children env st =
     settle_step env (mc_name c) (rx_verbose ctx) (run_recipe_body ctx c children env st)"

definition execute_module_for_apply ::
  "'w runner_context \<Rightarrow> bool \<Rightarrow> bool \<Rightarrow> 'w module \<Rightarrow> connection \<Rightarrow> environment
     \<Rightarrow> (module_result, 'w run_state) effect" where
  "execute_module_for_apply ctx diff dry_run m conn env st =
     (if dry_run \<and> mc_apply_dry_run (core m) \<noteq> None
      then (the (mc_apply_dry_run (core m))) conn env
             (no_options\<lparr>ao_diff := diff, ao_shutdown := True, ao_verbose := rx_verbose ctx\<rparr>) st
      else if mc_supports_child_step_hook (core m)
      then mc_apply (core m) conn env
             (no_options\<lparr>ao_on_child_step := Some (runner_step_hook ctx), ao_shutdown := True\<rparr>) st
      else mc_apply (core m) conn env no_options st)"

definition apply_module ::
  "'w runner_context \<Rightarrow> bool \<Rightarrow> bool \<Rightarrow> 'w module \<Rightarrow> environment \<Rightarrow> (step_result, 'w run_state) effect"
where
  "apply_module ctx diff dry_run m env st =
     and_then (execute_module_for_apply ctx diff dry_run m (child_connection m Connection) env st)
       (\<lambda>result st1.
     and_then (handle_meta_and_build_result ctx dry_run env result st1) (\<lambda>step st2.
       let detail = (if dry_run
                     then Some (case mr_dry_run_detail result of None \<Rightarrow> dry_run_note | Some d \<Rightarrow> d)
                     else mr_detail result);
           diff_output = (if dry_run \<and> diff then mr_diff result else None);
           st3 = print_module_result (mod_name m) (mr_status result) detail diff_output st2;
           st4 = (case mr_error result of
                    Some e \<Rightarrow> if mr_status result = StFailed
                              then print_command_failure e (rx_verbose ctx) st3 else st3
                  | None \<Rightarrow> st3)
       in (Inr step, st4)))"

definition apply_checked_module ::
  "'w runner_context \<Rightarrow> bool \<Rightarrow> bool \<Rightarrow> 'w module \<Rightarrow> environment \<Rightarrow> (step_result, 'w run_state) effect"
where
  "apply_checked_module ctx diff dry_run m env st =
     (if received st \<noteq> None then (Inr (interrupted_step_result env), st)
      else apply_module ctx diff dry_run m env st)"

definition run_regular_body ::
  "'w runner_context \<Rightarrow> 'w module \<Rightarrow> environment \<Rightarrow> (step_result, 'w run_state) effect" where
  "run_regular_body ctx m env st =
     and_then
       (mc_check (core m) (child_connection m Connection) env (start_module_spinner (mod_name m) st))
       (\<lambda>checked st1.
          if checked = CheckOk
          then (Inr (plain_step_result env False StOk), print_module_result (mod_name m) StOk None None st1)
          else if rx_dry_run ctx
          then (if should_execute_apply_during_dry_run m (rx_diff ctx)
                then apply_checked_module ctx (rx_diff ctx) True m env st1
                else (Inr (plain_step_result env False StChanged),
                      print_module_result (mod_name m) StChanged (Some dry_run_note) None st1))
          else apply_checked_module ctx False False m env st1)"

definition run_regular_module ::
  "'w runner_context \<Rightarrow> 'w module \<Rightarrow> environment \<Rightarrow> 'w run_state \<Rightarrow> step_result \<times> 'w run_state" where
  "run_regular_module ctx m env st =
     settle_step env (mod_name m) (rx_verbose ctx) (run_regular_body ctx m env st)"

fun module_step ::
  "'w runner_context \<Rightarrow> 'w module \<Rightarrow> environment \<Rightarrow> 'w run_state \<Rightarrow> step_result \<times> 'w run_state" where
  "module_step ctx (RecipeModule c children sigs) env st = run_recipe_module ctx c children env st"
| "module_step ctx (LeafModule c) env st = run_regular_module ctx (LeafModule c) env st"

subsection \<open>The module loop and its signals\<close>

record module_loop_state =
  ls_env :: environment
  ls_pending :: bool
  ls_stop :: bool

definition run_signals ::
  "'w runner_context \<Rightarrow> environment \<Rightarrow> 'w module list \<Rightarrow> 'w run_state
     \<Rightarrow> signal_run_status \<times> 'w run_state" where
  "run_signals ctx env signals =
     run_signal_modules (Some stats_hooks) (Some (runner_step_hook ctx)) True Connection
       (rx_verbose ctx) env signals"

definition apply_loop_result_to_state ::
  "module_loop_state \<Rightarrow> step_result \<Rightarrow> 'w run_state \<Rightarrow> module_loop_state \<times> 'w run_state" where
  "apply_loop_result_to_state state result st =
     (\<lparr>ls_env = sr_env result,
       ls_pending = (if sr_status result = Some StChanged then True else ls_pending state),
       ls_stop = (if sr_stop result then True else ls_stop state)\<rparr>,
      case sr_status result of
        None \<Rightarrow> st
      | Some status \<Rightarrow> st\<lparr>stats := update_stats status (stats st)\<rparr>)"

definition should_flush_top_level_signals ::
  "'w runner_context \<Rightarrow> step_result \<Rightarrow> bool \<Rightarrow> 'w module list option \<Rightarrow> 'w run_state \<Rightarrow> bool" where
  "should_flush_top_level_signals ctx result pending signals st \<longleftrightarrow>
     sr_flush result \<and> \<not> rx_dry_run ctx \<and> received st = None \<and> pending \<and>
     rs_failed (stats st) = 0 \<and> signals \<noteq> None"

definition flush_top_level_signals_if_requested ::
  "'w runner_context \<Rightarrow> 'w module list option \<Rightarrow> module_loop_state \<Rightarrow> step_result \<Rightarrow> 'w run_state
     \<Rightarrow> (bool \<times> bool) \<times> 'w run_state" where
  "flush_top_level_signals_if_requested ctx signals state result st =
     (if \<not> should_flush_top_level_signals ctx result (ls_pending state) signals st
      then ((ls_pending state, False), st)
      else (case run_signals ctx (ls_env state) (the signals) st of
              (status, st1) \<Rightarrow> ((False, status = SignalFailed), st1)))"

fun run_module_loop ::
  "'w runner_context \<Rightarrow> 'w module list option \<Rightarrow> 'w module list \<Rightarrow> module_loop_state \<Rightarrow> 'w run_state
     \<Rightarrow> module_loop_state \<times> 'w run_state" where
  "run_module_loop ctx signals [] state st = (state, st)"
| "run_module_loop ctx signals (m # ms) state st =
     (if received st \<noteq> None then (state, st)
      else (case module_step ctx m (ls_env state) st of
              (result, st1) \<Rightarrow>
                (case apply_loop_result_to_state state result st1 of
                   (state2, st2) \<Rightarrow>
                     (case flush_top_level_signals_if_requested ctx signals state2 result st2 of
                        ((pending, failed), st3) \<Rightarrow>
                          (let state3 = state2\<lparr>ls_pending := pending\<rparr>
                           in if failed \<or> sr_break result then (state3, st3)
                              else run_module_loop ctx signals ms state3 st3)))))"

definition initial_loop_state :: "environment \<Rightarrow> module_loop_state" where
  "initial_loop_state env = \<lparr>ls_env = env, ls_pending = False, ls_stop = False\<rparr>"

definition should_run_final_signals ::
  "'w runner_context \<Rightarrow> module_loop_state \<Rightarrow> 'w module list option \<Rightarrow> 'w run_state \<Rightarrow> bool" where
  "should_run_final_signals ctx state signals st \<longleftrightarrow>
     \<not> rx_dry_run ctx \<and> received st = None \<and> ls_pending state \<and> rs_failed (stats st) = 0 \<and>
     signals \<noteq> None"

definition execute_run ::
  "'w runner_context \<Rightarrow> string \<Rightarrow> 'w module list \<Rightarrow> 'w module list option \<Rightarrow> environment
     \<Rightarrow> 'w run_state \<Rightarrow> 'w run_state" where
  "execute_run ctx name modules signals env st =
     (case run_module_loop ctx signals modules (initial_loop_state env) (print_recipe_header name st) of
        (state, st1) \<Rightarrow>
          (let st2 = (if should_run_final_signals ctx state signals st1
                      then snd (run_signals ctx (ls_env state) (the signals) st1) else st1)
           in emit (OutSummary (stats st2)) st2))"

definition signal_exit_code :: "shutdown_signal \<Rightarrow> int" where
  "signal_exit_code s = 128 + (case s of SIGTERM \<Rightarrow> 15 | SIGINT \<Rightarrow> 2)"

definition resolve_exit_code :: "shutdown_signal option \<Rightarrow> run_stats \<Rightarrow> int" where
  "resolve_exit_code signal s =
     (case signal of
        Some sig \<Rightarrow> signal_exit_code sig
      | None \<Rightarrow> if rs_failed s > 0 then 1 else 0)"

subsection \<open>Port changes\<close>







subsection \<open>Control-plane meta reaches the connection once\<close>





subsection \<open>The module loop as a breaking loop\<close>

definition runner_loop_step ::
  "'w runner_context \<Rightarrow> 'w module list option \<Rightarrow> 'w module \<Rightarrow> module_loop_state
     \<Rightarrow> (module_loop_state + module_loop_state, 'w run_state) effect" where
  "runner_loop_step ctx signals m state st =
     (if received st \<noteq> None then (Inr (Inl state), st)
      else (case module_step ctx m (ls_env state) st of
              (result, st1) \<Rightarrow>
                (case apply_loop_result_to_state state result st1 of
                   (state2, st2) \<Rightarrow>
                     (case flush_top_level_signals_if_requested ctx signals state2 result st2 of
                        ((pending, failed), st3) \<Rightarrow>
                          (Inr (if failed \<or> sr_break result then Inl (state2\<lparr>ls_pending := pending\<rparr>)
                                else Inr (state2\<lparr>ls_pending := pending\<rparr>)), st3)))))"

definition runner_loop ::
  "'w runner_context \<Rightarrow> 'w module list option \<Rightarrow> 'w module list \<Rightarrow> module_loop_state
     \<Rightarrow> (module_loop_state, 'w run_state) effect" where
  "runner_loop ctx signals ms state st =
     (case run_module_loop ctx signals ms state st of (state', st') \<Rightarrow> (Inr state', st'))"

interpretation runner_loop:
  breaking_loop "runner_loop ctx signals" "runner_loop_step ctx signals" "\<lambda>state. state"
  for ctx :: "'w runner_context" and signals :: "'w module list option"
  by unfold_locales
    (auto simp: runner_loop_def runner_loop_step_def Let_def split: prod.splits)

lemma run_module_loop_def_via:
  "run_module_loop ctx signals ms state st = (projr (fst (runner_loop ctx signals ms state st)),
     snd (runner_loop ctx signals ms state st))"
  by (simp add: runner_loop_def split: prod.splits)

subsection \<open>Failures end the run\<close>

lemma dry_run_failed_breaks:
  "dry_run_child conn diff sh verbose m env st = (Inr r, st') \<Longrightarrow> dr_status r = Some StFailed \<Longrightarrow> dr_break r"
  "dry_run_child_loop conn diff sh verbose ms acc st = (Inr q, st') \<Longrightarrow>
   da_status acc \<noteq> StFailed \<Longrightarrow>
   (case q of Inl acc' \<Rightarrow> da_status acc' \<noteq> StFailed | Inr r \<Rightarrow> dr_break r)"
proof (induction conn diff sh verbose m env st and conn diff sh verbose ms acc st
    arbitrary: r st' and q st' rule: dry_run_child_dry_run_child_loop.induct)
  case (1 conn diff shutdown verbose c env st)
  then show ?case
    by (auto simp: quiet_break_def dry_run_leaf_def and_then_Inr_iff execute_dry_run_blocking_module_def
        Let_def split: if_splits)
next
  case (2 conn diff shutdown verbose c ms sigs env st)
  show ?case
  proof (cases "poll_shutdown shutdown st = None")
    case True
    obtain q st1 where q: "dry_run_child_loop (child_connection (RecipeModule c ms sigs) conn) diff shutdown verbose ms
        (initial_dry_run_accumulator env) (print_recipe_header (mc_name c) st) = (Inr q, st1)"
      and r: "r = finish_dry_run q"
      using "2.prems"(1) True by (auto simp: and_then_Inr_iff close_dry_run_child_recipe_def)
    show ?thesis
      using "2.IH" [OF _ q] True r "2.prems"(2)
      by (auto simp: initial_dry_run_accumulator_def finish_dry_run_def split: sum.splits)
  qed (use "2.prems" in \<open>auto simp: quiet_break_def\<close>)
next
  case (3 conn diff shutdown verbose acc st)
  then show ?case by auto
next
  case (4 conn diff shutdown verbose m ms acc st)
  show ?case
  proof (cases "poll_shutdown shutdown st = None")
    case True
    obtain r st1 where c: "dry_run_child conn diff shutdown verbose m (da_env acc) st = (Inr r, st1)"
      using "4.prems"(1) True by (auto simp: and_then_Inr_iff)
    show ?thesis
    proof (cases "dr_break r")
      case True
      then show ?thesis using "4.prems" \<open>poll_shutdown shutdown st = None\<close> c by auto
    next
      case False
      have "da_status (apply_dry_run_child_result acc r) \<noteq> StFailed"
        using "4.prems"(2) by (simp add: apply_dry_run_child_result_def)
      then show ?thesis
        using "4.IH"(2) [OF _ False] "4.prems" True c False by auto
    qed
  qed (use "4.prems" in \<open>auto simp: interrupted_dry_run_result_def\<close>)
qed

lemma handle_meta_build_break:
  "handle_meta_and_build_result ctx dry env result st = (Inr step, st') \<Longrightarrow>
   sr_status step = Some StFailed \<Longrightarrow> sr_break step"
  by (auto simp: handle_meta_and_build_result_def and_then_Inr_iff should_break_after_result_def)

lemma settle_step_break:
  assumes "settle_step env name verbose p = (step, st')" and "sr_status step = Some StFailed"
    and "\<And>s t. p = (Inr s, t) \<Longrightarrow> sr_status s = Some StFailed \<Longrightarrow> sr_break s"
  shows "sr_break step"
  using assms
  by (auto simp: settle_step_def handle_caught_step_error_def interrupted_step_result_def
      plain_step_result_def split: prod.splits sum.splits if_splits)

lemma apply_module_break:
  "apply_checked_module ctx diff dry m env st = (Inr step, st') \<Longrightarrow>
   sr_status step = Some StFailed \<Longrightarrow> sr_break step"
  by (auto simp: apply_checked_module_def apply_module_def and_then_Inr_iff interrupted_step_result_def
      Let_def dest: handle_meta_build_break split: if_splits)

lemma module_step_failed_breaks:
  assumes "module_step ctx m env st = (step, st')" and "sr_status step = Some StFailed"
  shows "sr_break step"
proof (cases m)
  case (LeafModule c)
  have "sr_break s" if "run_regular_body ctx m env st = (Inr s, t)" "sr_status s = Some StFailed" for s t
    using that
    by (auto simp: run_regular_body_def and_then_Inr_iff plain_step_result_def
        dest: apply_module_break split: if_splits)
  moreover have "settle_step env (mc_name c) (rx_verbose ctx) (run_regular_body ctx m env st) = (step, st')"
    using assms(1) LeafModule by (simp add: run_regular_module_def)
  ultimately show ?thesis using settle_step_break [OF _ assms(2)] by blast
next
  case (RecipeModule c ms sigs)
  have "sr_break s" if body: "run_recipe_body ctx c ms env st = (Inr s, t)"
    and failed: "sr_status s = Some StFailed" for s t
  proof (cases "rx_dry_run ctx")
    case True
    then obtain q st1 where q: "dry_run_child_loop Connection (rx_diff ctx) True (rx_verbose ctx) ms
        (initial_dry_run_accumulator env) (print_recipe_header (mc_name c) st) = (Inr q, st1)"
      and s: "s = step_of_dry_run (finish_dry_run q)"
      using body by (auto simp: run_recipe_body_def dry_run_recipe_module_def and_then_Inr_iff)
    have "case q of Inl acc' \<Rightarrow> da_status acc' \<noteq> StFailed | Inr r \<Rightarrow> dr_break r"
      by (rule dry_run_failed_breaks(2) [OF q]) (simp add: initial_dry_run_accumulator_def)
    then show ?thesis
      using s failed by (auto simp: finish_dry_run_def step_of_dry_run_def split: sum.splits)
  next
    case False
    then show ?thesis
      using body failed
      by (auto simp: run_recipe_body_def and_then_Inr_iff plain_step_result_def
          dest: handle_meta_build_break split: if_splits)
  qed
  moreover have "settle_step env (mc_name c) (rx_verbose ctx) (run_recipe_body ctx c ms env st) = (step, st')"
    using assms(1) RecipeModule by (simp add: run_recipe_module_def)
  ultimately show ?thesis using settle_step_break [OF _ assms(2)] by blast
qed

text \<open>
  C1: a failed module ends the run. Whatever modules follow it, the loop stops there, the
  failure is counted, and the run's signals are neither flushed nor run at the end.
\<close>

theorem failed_module_ends_run:
  assumes "received st = None" and "module_step ctx m (ls_env state) st = (step, st1)"
    and "sr_status step = Some StFailed"
  shows "run_module_loop ctx signals (m # ms) state st = run_module_loop ctx signals [m] state st \<and>
    rs_failed (stats (snd (run_module_loop ctx signals (m # ms) state st))) = Suc (rs_failed (stats st1)) \<and>
    \<not> should_run_final_signals ctx final signals (snd (run_module_loop ctx signals (m # ms) state st))"
proof -
  have "sr_break step" by (rule module_step_failed_breaks [OF assms(2,3)])
  then show ?thesis
    using assms
    by (simp add: apply_loop_result_to_state_def flush_top_level_signals_if_requested_def
        should_flush_top_level_signals_def should_run_final_signals_def)
qed

lemma dry_run_loop_ignores_signals:
  "rx_dry_run ctx \<Longrightarrow> run_module_loop ctx signals ms state st = run_module_loop ctx None ms state st"
  by (induction ms arbitrary: state st)
     (auto simp: flush_top_level_signals_if_requested_def should_flush_top_level_signals_def Let_def
       split: prod.splits)

text \<open>
  a dry run has no use for the run's signals: with any other signal list it prints, counts
  and does the same.
\<close>

theorem dry_run_ignores_signals:
  assumes "rx_dry_run ctx"
  shows "execute_run ctx name ms signals env st = execute_run ctx name ms None env st"
  using dry_run_loop_ignores_signals [OF assms, of signals] assms
  by (simp add: execute_run_def should_run_final_signals_def split: prod.splits)

text \<open>
  a shutdown signal received before the modules start lets none of them run: only the header
  and the summary are printed.
\<close>

theorem interrupted_run_does_nothing:
  assumes "received st \<noteq> None"
  shows "execute_run ctx name ms signals env st =
    emit (OutSummary (stats st)) (print_recipe_header name st)"
  using assms by (cases ms) (auto simp: execute_run_def should_run_final_signals_def)

subsection \<open>A dry run keeps the connection\<close>

definition keeps_ssh :: "('a, 'w run_state) effect \<Rightarrow> bool" where
  "keeps_ssh f \<longleftrightarrow> (\<forall>st. ssh (snd (f st)) = ssh st)"

lemma keeps_sshD: "keeps_ssh f \<Longrightarrow> f st = (r, st') \<Longrightarrow> ssh st' = ssh st"
  by (metis keeps_ssh_def snd_conv)

lemma and_then_ssh:
  "ssh (snd p) = s \<Longrightarrow> (\<And>x st1. p = (Inr x, st1) \<Longrightarrow> ssh (snd (k x st1)) = ssh st1) \<Longrightarrow>
   ssh (snd (and_then p k)) = s"
  by (cases p; cases "fst p") auto

text \<open>
  A module whose own effects in a dry run (its check, its dry-run hook, the \<^verbatim>\<open>apply\<close> of a
  marked module without a hook) leave the connection alone.
\<close>

fun dry_quiet :: "'w module \<Rightarrow> bool" where
  "dry_quiet (LeafModule c) \<longleftrightarrow>
     (\<forall>conn env. keeps_ssh (mc_check c conn env)) \<and>
     (case mc_apply_dry_run c of
        Some dry \<Rightarrow> \<forall>conn env opts. keeps_ssh (dry conn env opts)
      | None \<Rightarrow> mc_dry_run_blocker c \<or> mc_dry_run_meta_producer c \<longrightarrow>
          \<not> mc_supports_child_step_hook c \<and> (\<forall>conn env. keeps_ssh (mc_apply c conn env no_options)))"
| "dry_quiet (RecipeModule c ms sigs) \<longleftrightarrow> (\<forall>m \<in> set ms. dry_quiet m)"

lemma dispatch_dry_run_ssh:
  assumes "dry_quiet (LeafModule c)" and "should_execute_apply_during_dry_run (LeafModule c) diff"
  shows "ssh (snd (dispatch_dry_run (LeafModule c) conn diff env sh verbose st)) = ssh st"
  using assms
  by (auto simp: dispatch_dry_run_def should_execute_apply_during_dry_run_def keeps_ssh_def Let_def
      split: option.splits if_splits)

lemma dry_run_leaf_ssh:
  assumes "dry_quiet (LeafModule c)"
  shows "ssh (snd (dry_run_leaf (LeafModule c) conn diff env sh verbose st)) = ssh st"
proof -
  have "ssh (snd (mc_check c conn env s)) = ssh s" for s
    using assms by (simp add: keeps_ssh_def)
  then show ?thesis
    unfolding dry_run_leaf_def execute_dry_run_blocking_module_def Let_def lift_result_def
    by (auto intro!: and_then_ssh simp: dispatch_dry_run_ssh [OF assms] split: option.splits if_splits)
qed

lemma dry_run_ssh:
  "dry_quiet m \<Longrightarrow> ssh (snd (dry_run_child conn diff sh verbose m env st)) = ssh st"
  "\<forall>m \<in> set ms. dry_quiet m \<Longrightarrow> ssh (snd (dry_run_child_loop conn diff sh verbose ms acc st)) = ssh st"
proof (induction conn diff sh verbose m env st and conn diff sh verbose ms acc st
    rule: dry_run_child_dry_run_child_loop.induct)
  case (1 conn diff shutdown verbose c env st)
  then show ?case by (simp add: dry_run_leaf_ssh del: dry_quiet.simps)
next
  case (2 conn diff shutdown verbose c ms sigs env st)
  then show ?case
    by (auto intro!: and_then_ssh simp: close_dry_run_child_recipe_def split: option.splits)
next
  case (3 conn diff shutdown verbose acc st)
  then show ?case by simp
next
  case (4 conn diff shutdown verbose m ms acc st)
  then show ?case by (auto intro!: and_then_ssh)
qed

lemma regular_body_ssh:
  assumes "dry_quiet (LeafModule c)" and "rx_dry_run ctx"
  shows "ssh (snd (run_regular_body ctx (LeafModule c) env st)) = ssh st"
proof -
  have chk: "ssh (snd (mc_check c conn env s)) = ssh s" for s conn
    using assms(1) by (simp add: keeps_ssh_def)
  have "ssh (snd (execute_module_for_apply ctx diff True (LeafModule c) conn env s)) = ssh s"
    if "should_execute_apply_during_dry_run (LeafModule c) diff" for diff conn s
    using assms(1) that
    by (auto simp: execute_module_for_apply_def should_execute_apply_during_dry_run_def keeps_ssh_def Let_def
        split: option.splits if_splits)
  then show ?thesis
    using assms(2) chk
    unfolding run_regular_body_def apply_checked_module_def apply_module_def
      handle_meta_and_build_result_def lift_result_def Let_def
    by (auto intro!: and_then_ssh split: option.splits)
qed

lemma settle_step_ssh: "ssh (snd (settle_step env name verbose p)) = ssh (snd p)"
  by (auto simp: settle_step_def handle_caught_step_error_def split: prod.splits sum.splits)

lemma module_step_ssh:
  assumes "dry_quiet m" and "rx_dry_run ctx"
  shows "ssh (snd (module_step ctx m env st)) = ssh st"
proof (cases m)
  case (LeafModule c)
  then show ?thesis
    using assms regular_body_ssh [of c ctx] by (simp add: run_regular_module_def settle_step_ssh)
next
  case (RecipeModule c ms sigs)
  then show ?thesis
    using assms dry_run_ssh(2) [of ms]
    by (auto intro!: and_then_ssh simp: run_recipe_module_def settle_step_ssh run_recipe_body_def
        dry_run_recipe_module_def)
qed

lemma runner_loop_step_ssh:
  assumes "dry_quiet m" and "rx_dry_run ctx"
  shows "ssh (snd (runner_loop_step ctx signals m state st)) = ssh st"
  using module_step_ssh [OF assms, of "ls_env state" st] assms(2)
  by (auto simp: runner_loop_step_def apply_loop_result_to_state_def flush_top_level_signals_if_requested_def
      should_flush_top_level_signals_def split: prod.splits option.splits)

text \<open>
  a dry run never moves the connection. If the dry-run effects of the modules themselves
  leave the session alone, then so does the whole dry run, whatever ports, hosts and reboots the
  modules report: no port is added, no host changed, no reconnect made.
\<close>

theorem dry_run_keeps_connection:
  assumes "rx_dry_run ctx" and "\<And>m. m \<in> set ms \<Longrightarrow> dry_quiet m"
  shows "ssh (execute_run ctx name ms signals env st) = ssh st"
proof -
  let ?st = "print_recipe_header name st"
  have "ssh (snd (runner_loop ctx signals ms (initial_loop_state env) ?st)) = ssh ?st"
    by (rule runner_loop.loop_frame [where R = "\<lambda>s s'. ssh s' = ssh s"])
       (simp_all add: reflp_def transp_def runner_loop_step_ssh assms)
  then show ?thesis
    using assms(1)
    by (auto simp: execute_run_def runner_loop_def should_run_final_signals_def split: prod.splits)
qed

subsection \<open>Witnesses\<close>

definition sample_context :: "bool \<Rightarrow> int runner_context" where
  "sample_context dry_run =
     \<lparr>rx_net = refusing_network refused, rx_config = agent_config (Some 1), rx_grace_ms = 0,
      rx_diff = False, rx_dry_run = dry_run, rx_verbose = False\<rparr>"

definition port_module :: "string \<Rightarrow> int \<Rightarrow> 'w module" where
  "port_module name port =
     LeafModule ((fixed_core name NeedsApply ((plain_result StChanged)\<lparr>mr_meta := Some [MetaSshdPort port]\<rparr>))
       \<lparr>mc_dry_run_meta_producer := True\<rparr>)"




theorem failed_module_ends_run_witness:
  "rs_failed (stats (snd (run_module_loop (sample_context False)
       (Some [fixed_module ''reload'' NeedsApply (plain_result StChanged)])
       (fixed_module ''bad'' NeedsApply (failed_result ''no'') # [fixed_module ''next'' NeedsApply (plain_result StChanged)])
       (initial_loop_state []) (fresh_state 0)))) = 1"
proof -
  let ?m = "fixed_module ''bad'' NeedsApply (failed_result ''no'')"
  let ?p = "module_step (sample_context False) ?m (ls_env (initial_loop_state [])) (fresh_state 0)"
  obtain step st1 where p: "?p = (step, st1)" by fastforce
  have "sr_status (fst ?p) = Some StFailed" "rs_failed (stats (snd ?p)) = 0"
    by code_simp+
  then have "sr_status step = Some StFailed" "rs_failed (stats st1) = 0" using p by simp_all
  then show ?thesis
    using failed_module_ends_run [OF _ p] by (simp add: fresh_state_def)
qed

theorem dry_run_ignores_signals_witness:
  "execute_run (sample_context True) ''web'' [port_module ''port'' 2222]
     (Some [fixed_module ''reload'' NeedsApply (plain_result StChanged)]) [] (fresh_state 0) =
   execute_run (sample_context True) ''web'' [port_module ''port'' 2222] None [] (fresh_state 0)"
  by (rule dry_run_ignores_signals) (simp add: sample_context_def)

theorem interrupted_run_does_nothing_witness:
  "execute_run (sample_context False) ''web'' [port_module ''port'' 2222] None []
     ((fresh_state 0)\<lparr>received := Some SIGINT\<rparr>) =
   emit (OutSummary new_run_stats) (print_recipe_header ''web'' ((fresh_state 0)\<lparr>received := Some SIGINT\<rparr>))"
  by (subst interrupted_run_does_nothing) (simp_all add: fresh_state_def)

theorem dry_run_keeps_connection_witness:
  "ssh (execute_run (sample_context True) ''web'' [port_module ''port'' 2222] None [] (fresh_state 0)) =
   ssh (fresh_state (0::int))"
  by (rule dry_run_keeps_connection)
     (auto simp: sample_context_def port_module_def fixed_core_def keeps_ssh_def)

text \<open>
  the exit code tells the outcome: 130 or 143 after a shutdown signal whatever else
  happened, otherwise 0 exactly when no module and no signal failed.
\<close>

theorem exit_code_outcome:
  "(resolve_exit_code signal s = 0 \<longleftrightarrow> signal = None \<and> rs_failed s = 0) \<and>
   (resolve_exit_code signal s = 1 \<longleftrightarrow> signal = None \<and> rs_failed s > 0) \<and>
   resolve_exit_code signal s \<in> {0, 1, 130, 143}"
  by (auto simp: resolve_exit_code_def signal_exit_code_def split: option.splits shutdown_signal.splits)

end
