(* ===== verification/TerminalSanitizer.thy ===== *)
theory TerminalSanitizer
  imports JsString
begin

text \<open>
  The sanitizer of untrusted terminal text (\<^verbatim>\<open>terminalSanitizer.ts\<close>): a state machine
  over characters that drops escape sequences (ESC, CSI, OSC and their C1 forms) and control
  bytes. A sanitizer is its state; \<open>push_text\<close> is one call of \<^verbatim>\<open>push\<close>.
\<close>

datatype sanitizer_state = SanText | SanEsc | SanCsi | SanOsc | SanOscEsc

abbreviation esc :: char where "esc \<equiv> CHR 0x1B"

definition is_allowed_text_control :: "nat \<Rightarrow> bool" where
  "is_allowed_text_control c \<longleftrightarrow> c = 9 \<or> c = 10"

definition is_control_byte :: "nat \<Rightarrow> bool" where
  "is_control_byte c \<longleftrightarrow> c \<le> 31 \<or> c = 127 \<or> (128 \<le> c \<and> c \<le> 159)"

definition is_csi_final_byte :: "nat \<Rightarrow> bool" where
  "is_csi_final_byte c \<longleftrightarrow> 64 \<le> c \<and> c \<le> 126"

definition is_esc_sequence_final_byte :: "nat \<Rightarrow> bool" where
  "is_esc_sequence_final_byte c \<longleftrightarrow> 48 \<le> c \<and> c \<le> 126"

definition consume_esc_state :: "char \<Rightarrow> sanitizer_state" where
  "consume_esc_state c =
     (if c = CHR ''['' then SanCsi
      else if c = CHR '']'' then SanOsc
      else if is_esc_sequence_final_byte (code c) \<or> is_control_byte (code c) then SanText
      else SanEsc)"

definition consume_osc_state :: "char \<Rightarrow> sanitizer_state" where
  "consume_osc_state c =
     (if code c = 7 \<or> code c = 156 then SanText else if c = esc then SanOscEsc else SanOsc)"

definition consume_text_state :: "char \<Rightarrow> sanitizer_state \<times> string" where
  "consume_text_state c =
     (if c = esc then (SanEsc, [])
      else if code c = 155 then (SanCsi, [])
      else if code c = 157 then (SanOsc, [])
      else (SanText, if \<not> is_control_byte (code c) \<or> is_allowed_text_control (code c) then [c] else []))"

fun consume_terminal_char :: "sanitizer_state \<Rightarrow> char \<Rightarrow> sanitizer_state \<times> string" where
  "consume_terminal_char SanCsi c = (if is_csi_final_byte (code c) then SanText else SanCsi, [])"
| "consume_terminal_char SanEsc c = (consume_esc_state c, [])"
| "consume_terminal_char SanOsc c = (consume_osc_state c, [])"
| "consume_terminal_char SanOscEsc c = (if c = CHR 0x5C then SanText else SanOsc, [])"
| "consume_terminal_char SanText c = consume_text_state c"

fun push_text :: "sanitizer_state \<Rightarrow> string \<Rightarrow> sanitizer_state \<times> string" where
  "push_text s [] = (s, [])"
| "push_text s (c # cs) =
     (case consume_terminal_char s c of
        (s1, out) \<Rightarrow> (case push_text s1 cs of (s2, rest) \<Rightarrow> (s2, out @ rest)))"

definition flush_text :: "sanitizer_state \<Rightarrow> sanitizer_state \<times> string" where
  "flush_text s = (SanText, [])"

definition sanitize_terminal_text :: "string \<Rightarrow> string" where
  "sanitize_terminal_text s =
     (case push_text SanText s of (s1, out) \<Rightarrow> out @ snd (flush_text s1))"

text \<open>A stream: one sanitizer that is given the text in chunks.\<close>

fun push_chunks :: "sanitizer_state \<Rightarrow> string list \<Rightarrow> sanitizer_state \<times> string" where
  "push_chunks s [] = (s, [])"
| "push_chunks s (t # ts) =
     (case push_text s t of
        (s1, out) \<Rightarrow> (case push_chunks s1 ts of (s2, rest) \<Rightarrow> (s2, out @ rest)))"

definition printable :: "char \<Rightarrow> bool" where
  "printable c \<longleftrightarrow> \<not> is_control_byte (code c) \<or> is_allowed_text_control (code c)"

lemma consume_printable: "list_all printable (snd (consume_terminal_char s c))"
  by (cases s) (auto simp: consume_text_state_def printable_def)

lemma push_text_printable: "list_all printable (snd (push_text s t))"
proof (induction t arbitrary: s)
  case (Cons c t)
  then show ?case using consume_printable [of s c]
    by (auto split: prod.splits) (metis snd_conv)+
qed simp

lemma push_text_append:
  "push_text s (t @ u) =
     (case push_text s t of (s1, out) \<Rightarrow> (case push_text s1 u of (s2, rest) \<Rightarrow> (s2, out @ rest)))"
  by (induction t arbitrary: s) (auto split: prod.splits)

lemma push_chunks_concat: "push_chunks s ts = push_text s (concat ts)"
  by (induction ts arbitrary: s) (auto simp: push_text_append split: prod.splits)

lemma printable_not_introducer:
  "printable c \<Longrightarrow> c \<noteq> esc \<and> code c \<noteq> 155 \<and> code c \<noteq> 157"
  by (auto simp: printable_def is_control_byte_def is_allowed_text_control_def char_class_defs)

lemma push_text_printable_id: "list_all printable t \<Longrightarrow> push_text SanText t = (SanText, t)"
proof (induction t)
  case (Cons c t)
  then have "printable c" by simp
  then have "consume_terminal_char SanText c = (SanText, [c])"
    using printable_not_introducer [of c] by (simp add: consume_text_state_def printable_def)
  with Cons show ?case by simp
qed simp

subsection \<open>Properties\<close>

text \<open>
  what the sanitizer lets through is printable in any state and for any chunking: no escape
  byte, no C0 or C1 control other than tab and line feed, no DEL; and the chunks do not
  matter, only the text they make up.
\<close>

theorem sanitizer_output_is_printable:
  "list_all printable (snd (push_chunks s ts)) \<and>
   push_chunks s ts = push_text s (concat ts)"
  by (simp add: push_chunks_concat push_text_printable)

text \<open>
  sanitizing is idempotent and leaves exactly the printable texts unchanged.
\<close>

theorem sanitize_terminal_text_idempotent:
  "sanitize_terminal_text (sanitize_terminal_text t) = sanitize_terminal_text t \<and>
   (sanitize_terminal_text t = t \<longleftrightarrow> list_all printable t)"
proof -
  have out: "sanitize_terminal_text u = snd (push_text SanText u)" for u
    by (simp add: sanitize_terminal_text_def flush_text_def split: prod.split)
  have "sanitize_terminal_text u = u" if "list_all printable u" for u
    using push_text_printable_id [OF that] by (simp add: out)
  then show ?thesis using push_text_printable [of SanText t] by (metis out)
qed

end
