(* ===== verification/ShellText.thy ===== *)
theory ShellText
  imports Complex_Main JsString "HOL-Library.Sublist"
begin

text \<open>
  Text that goes to a shell and text that comes back (\<^verbatim>\<open>sshHelpers.ts\<close>): quoting, the
  truncation of error snippets, the bounded capture of an output stream, the variants of a
  secret and their masking, and the masker of a stream. \<open>sh_lex\<close> is a reference
  definition of the word splitting a POSIX shell does on a command without expansions.
\<close>

subsection \<open>Modes and quoting\<close>

definition is_octal_digit :: "char \<Rightarrow> bool" where
  "is_octal_digit c \<longleftrightarrow> char_between 48 55 c"

definition validate_mode :: "string \<Rightarrow> unit result" where
  "validate_mode mode =
     (if list_all is_octal_digit mode \<and> (length mode = 3 \<or> length mode = 4) then Inr ()
      else Inl (GenericError (''Invalid file mode '' @ [CHR 0x27] @ mode @ [CHR 0x27]
             @ '': expected a 3- or 4-digit octal string (e.g. '' @ json_stringify ''644'' @ '', ''
             @ json_stringify ''0755'' @ '')'')))"

definition shell_quote :: "string \<Rightarrow> string" where
  "shell_quote s = [CHR 0x27] @ replace_all [CHR 0x27] [CHR 0x27, CHR 0x5C, CHR 0x27, CHR 0x27] s @ [CHR 0x27]"

subsection \<open>Truncation of error snippets\<close>

definition max_output_length :: nat where
  "max_output_length = 500"

text \<open>
  The horizontal ellipsis has no Latin-1 code; the marker is written with its Windows-1252
  code 0x85. Every character here is one code point and one UTF-16 unit.
\<close>

definition truncation_mark :: string where
  "truncation_mark = CHR 0x85 # ''(truncated)''"

fun truncate_loop :: "nat \<Rightarrow> nat \<Rightarrow> string \<Rightarrow> string \<Rightarrow> string" where
  "truncate_loop count slice_end whole [] = whole"
| "truncate_loop count slice_end whole (c # cs) =
     (if max_output_length \<le> count then take slice_end whole @ truncation_mark
      else truncate_loop (count + 1) (slice_end + 1) whole cs)"

definition truncate_output :: "string \<Rightarrow> string" where
  "truncate_output text = truncate_loop 0 0 text text"

fun codepoint_length_exceeds_from :: "nat \<Rightarrow> string \<Rightarrow> nat \<Rightarrow> bool" where
  "codepoint_length_exceeds_from count [] limit = False"
| "codepoint_length_exceeds_from count (c # cs) limit =
     (if limit < count + 1 then True else codepoint_length_exceeds_from (count + 1) cs limit)"

definition codepoint_length_exceeds :: "string \<Rightarrow> nat \<Rightarrow> bool" where
  "codepoint_length_exceeds text limit = codepoint_length_exceeds_from 0 text limit"

subsection \<open>The bounded capture of a stream\<close>

definition default_max_output_bytes :: nat where
  "default_max_output_bytes = 1048576"

definition capture_truncation_marker :: string where
  "capture_truncation_marker = [CHR 0x0A] @ ''[output truncated]''"

text \<open>A \<^verbatim>\<open>number\<close> that may be \<^verbatim>\<open>NaN\<close> or infinite.\<close>

datatype js_number = Finite rat | NotFinite

definition resolve_max_output_bytes :: "js_number option \<Rightarrow> nat result" where
  "resolve_max_output_bytes requested =
     (case (case requested of None \<Rightarrow> Finite (of_nat default_max_output_bytes) | Some v \<Rightarrow> v) of
        NotFinite \<Rightarrow> Inl (GenericError ''ExecOptions.maxOutputBytes must be a non-negative finite number'')
      | Finite v \<Rightarrow>
          if v < 0 then Inl (GenericError ''ExecOptions.maxOutputBytes must be a non-negative finite number'')
          else Inr (nat \<lfloor>v\<rfloor>))"

fun fit_loop :: "nat \<Rightarrow> nat \<Rightarrow> nat \<Rightarrow> string \<Rightarrow> nat" where
  "fit_loop max_bytes bytes slice_end [] = slice_end"
| "fit_loop max_bytes bytes slice_end (c # cs) =
     (let char_bytes = utf8_length [c]
      in if max_bytes < bytes + char_bytes then slice_end
         else fit_loop max_bytes (bytes + char_bytes) (slice_end + 1) cs)"

definition fit_utf8_prefix :: "string \<Rightarrow> nat \<Rightarrow> string" where
  "fit_utf8_prefix text max_bytes = take (fit_loop max_bytes 0 0 text) text"

record captured_output =
  co_max :: nat
  co_bytes :: nat
  co_text :: string
  co_truncated :: bool

definition new_captured_output :: "nat \<Rightarrow> captured_output" where
  "new_captured_output max_bytes = \<lparr>co_max = max_bytes, co_bytes = 0, co_text = [], co_truncated = False\<rparr>"

definition capture_append :: "captured_output \<Rightarrow> string \<Rightarrow> captured_output" where
  "capture_append c chunk =
     (if co_truncated c then c
      else (let chunk_bytes = utf8_length chunk;
                remaining_bytes = int (co_max c) - int (co_bytes c)
            in if int chunk_bytes \<le> remaining_bytes
               then c\<lparr>co_text := co_text c @ chunk, co_bytes := co_bytes c + chunk_bytes\<rparr>
               else (let c1 = (if 0 < remaining_bytes
                               then (let prefix = fit_utf8_prefix chunk (nat remaining_bytes)
                                     in c\<lparr>co_text := co_text c @ prefix,
                                          co_bytes := co_bytes c + utf8_length prefix\<rparr>)
                               else c)
                     in c1\<lparr>co_text := co_text c1 @ capture_truncation_marker, co_truncated := True\<rparr>)))"

definition capture_chunks :: "nat \<Rightarrow> string list \<Rightarrow> captured_output" where
  "capture_chunks max_bytes chunks = foldl capture_append (new_captured_output max_bytes) chunks"

text \<open>What the capture should be: a function of the whole text.\<close>

definition captured_text :: "nat \<Rightarrow> string \<Rightarrow> string" where
  "captured_text max_bytes text =
     (if utf8_length text \<le> max_bytes then text
      else fit_utf8_prefix text max_bytes @ capture_truncation_marker)"

subsection \<open>Secrets and their masking\<close>

definition redacted :: string where
  "redacted = ''[REDACTED]''"

definition uri_unreserved :: "char \<Rightarrow> bool" where
  "uri_unreserved c \<longleftrightarrow> is_alpha c \<or> is_digit c \<or> c \<in> set ''-_.!~*()'' \<or> c = CHR 0x27"

definition upper_hex_digit :: "nat \<Rightarrow> char" where
  "upper_hex_digit d = (if d < 10 then char_of (48 + d) else char_of (55 + d))"

definition percent_byte :: "nat \<Rightarrow> string" where
  "percent_byte b = [CHR ''%'', upper_hex_digit (b div 16), upper_hex_digit (b mod 16)]"

definition encode_uri_char :: "char \<Rightarrow> string" where
  "encode_uri_char c =
     (if uri_unreserved c then [c]
      else if code c < 128 then percent_byte (code c)
      else percent_byte (192 + code c div 64) @ percent_byte (128 + code c mod 64))"

definition encode_uri_component :: "string \<Rightarrow> string" where
  "encode_uri_component s = concat (map encode_uri_char s)"

text \<open>Adding to a \<^verbatim>\<open>Set\<close> keeps the order of the first insertions.\<close>

definition set_add :: "'a list \<Rightarrow> 'a \<Rightarrow> 'a list" where
  "set_add vs v = (if v \<in> set vs then vs else vs @ [v])"

fun collect_variants :: "string list \<Rightarrow> string list \<Rightarrow> string list result" where
  "collect_variants variants [] = Inr variants"
| "collect_variants variants (secret # secrets) =
     (if secret = [] then collect_variants variants secrets
      else if js_includes secret redacted
      then Inl (GenericError (''Secret must not contain the redaction placeholder ''
             @ json_stringify redacted))
      else
        (let v1 = set_add variants secret;
             encoded = encode_uri_component secret;
             v2 = (if encoded \<noteq> secret then set_add v1 encoded else v1);
             quoted = shell_quote secret;
             v3 = (if quoted \<noteq> secret then set_add v2 quoted else v2)
         in collect_variants v3 secrets))"

definition get_secret_variants :: "string list \<Rightarrow> string list result" where
  "get_secret_variants secrets =
     (case collect_variants [] secrets of
        Inl e \<Rightarrow> Inl e
      | Inr variants \<Rightarrow> Inr (sort_key (\<lambda>v. - int (length v)) variants))"

definition variants_max_length :: "string list \<Rightarrow> nat" where
  "variants_max_length variants = foldl max 0 (map length variants)"

definition mask_prepared_secrets :: "string \<Rightarrow> string list \<Rightarrow> string" where
  "mask_prepared_secrets text variants =
     foldl (\<lambda>masked variant. replace_all variant redacted masked) text variants"

definition mask_secrets :: "string \<Rightarrow> string list \<Rightarrow> string result" where
  "mask_secrets text secrets =
     (case get_secret_variants secrets of
        Inl e \<Rightarrow> Inl e
      | Inr variants \<Rightarrow> Inr (mask_prepared_secrets text variants))"

text \<open>
  The stream masker: its state is the pending text; \<open>masker_push\<close> returns the texts it
  writes, in order.
\<close>

definition masker_overlap :: "string list \<Rightarrow> nat" where
  "masker_overlap variants = variants_max_length variants - 1"

definition masker_push :: "string list \<Rightarrow> string \<Rightarrow> string \<Rightarrow> string list \<times> string" where
  "masker_push variants pending chunk =
     (let overlap = masker_overlap variants
      in if overlap = 0 then ([mask_prepared_secrets chunk variants], pending)
         else (let pending1 = pending @ chunk
               in if length pending1 \<le> overlap then ([], pending1)
                  else (let masked = mask_prepared_secrets pending1 variants
                        in if length masked \<le> overlap then ([], masked)
                           else ([take (length masked - overlap) masked],
                                 drop (length masked - overlap) masked))))"

definition masker_flush :: "string list \<Rightarrow> string \<Rightarrow> string list \<times> string" where
  "masker_flush variants pending =
     (if pending \<noteq> [] then ([mask_prepared_secrets pending variants], []) else ([], pending))"

fun masker_chunks :: "string list \<Rightarrow> string \<Rightarrow> string list \<Rightarrow> string list \<times> string" where
  "masker_chunks variants pending [] = ([], pending)"
| "masker_chunks variants pending (chunk # chunks) =
     (case masker_push variants pending chunk of
        (written, pending1) \<Rightarrow>
          (case masker_chunks variants pending1 chunks of
             (more_written, pending2) \<Rightarrow> (written @ more_written, pending2)))"

text \<open>Everything a masker writes when it is given the chunks and then flushed.\<close>

definition masked_stream :: "string list \<Rightarrow> string list \<Rightarrow> string" where
  "masked_stream variants chunks =
     (case masker_chunks variants [] chunks of
        (written, pending) \<Rightarrow> concat written @ concat (fst (masker_flush variants pending)))"

subsection \<open>Quoting against a shell's word splitting\<close>

text \<open>
  The lexer of a POSIX shell for commands that use no expansion: blanks separate words,
  single quotes protect everything up to the next one, a backslash protects one character.
  A character that could start an expansion, an operator or a comment ends the lexing with
  \<open>None\<close>. \<open>word\<close> is the word being built.
\<close>

datatype sh_mode = ShPlain | ShQuoted

definition sh_special :: "char \<Rightarrow> bool" where
  "sh_special c \<longleftrightarrow> c \<in> set ''$`|&;<>()*?[]#~%!{}'' \<or> c = CHR 0x22 \<or> c = CHR 0x0A \<or> c = CHR 0x00"

definition sh_blank :: "char \<Rightarrow> bool" where
  "sh_blank c \<longleftrightarrow> c = CHR '' '' \<or> c = CHR 0x09"

definition word_so_far :: "string option \<Rightarrow> string" where
  "word_so_far w = (case w of None \<Rightarrow> [] | Some x \<Rightarrow> x)"

definition end_word :: "string option \<Rightarrow> string list" where
  "end_word w = (case w of None \<Rightarrow> [] | Some x \<Rightarrow> [x])"

fun sh_lex :: "sh_mode \<Rightarrow> string option \<Rightarrow> string \<Rightarrow> string list option" where
  "sh_lex ShQuoted w [] = None"
| "sh_lex ShPlain w [] = Some (end_word w)"
| "sh_lex ShQuoted w (c # cs) =
     (if c = CHR 0x27 then sh_lex ShPlain w cs else sh_lex ShQuoted (Some (word_so_far w @ [c])) cs)"
| "sh_lex ShPlain w (c # cs) =
     (if c = CHR 0x27 then sh_lex ShQuoted (Some (word_so_far w)) cs
      else if c = CHR 0x5C
      then (case cs of
              [] \<Rightarrow> None
            | d # ds \<Rightarrow> if d = CHR 0x0A then sh_lex ShPlain w ds
                        else sh_lex ShPlain (Some (word_so_far w @ [d])) ds)
      else if sh_blank c then map_option (\<lambda>ws. end_word w @ ws) (sh_lex ShPlain None cs)
      else if sh_special c then None
      else sh_lex ShPlain (Some (word_so_far w @ [c])) cs)"

lemma sh_quoted_body:
  "sh_lex ShQuoted (Some w)
     (replace_all [CHR 0x27] [CHR 0x27, CHR 0x5C, CHR 0x27, CHR 0x27] s @ CHR 0x27 # rest) =
   sh_lex ShPlain (Some (w @ s)) rest"
proof (induction s arbitrary: w)
  case (Cons c s)
  show ?case
    by (cases "c = CHR 0x27") (simp_all add: word_so_far_def Cons.IH)
qed simp

lemma sh_lex_quote:
  "sh_lex ShPlain w (shell_quote s @ rest) = sh_lex ShPlain (Some (word_so_far w @ s)) rest"
  using sh_quoted_body[of "word_so_far w" s rest] by (simp add: shell_quote_def)

lemma sh_lex_words:
  "list_all is_word p \<Longrightarrow> p \<noteq> [] \<Longrightarrow> sh_lex ShPlain w (p @ s) = sh_lex ShPlain (Some (word_so_far w @ p)) s"
proof (induction p arbitrary: w)
  case (Cons c p)
  have "c \<noteq> CHR 0x27" "c \<noteq> CHR 0x5C" "\<not> sh_blank c" "\<not> sh_special c"
    using Cons.prems(1) by (auto simp: sh_blank_def sh_special_def char_class_defs)
  then show ?case using Cons by (cases "p = []") (simp_all add: word_so_far_def)
qed simp

lemma sh_lex_args:
  "sh_lex ShPlain None (join_with '' '' (map shell_quote args)) = Some args"
proof (induction args)
  case Nil then show ?case by (simp add: end_word_def)
next
  case (Cons a as)
  show ?case
  proof (cases as)
    case Nil then show ?thesis using sh_lex_quote[of None a "[]"] by (simp add: word_so_far_def end_word_def)
  next
    case (Cons b bs)
    then show ?thesis using Cons.IH sh_lex_quote[of None a "'' '' @ join_with '' '' (map shell_quote as)"]
      by (simp add: word_so_far_def end_word_def sh_blank_def)
  qed
qed

text \<open>
  C39: quoting is safe for a shell. A command line made of quoted arguments is split into
  exactly these arguments, whatever characters they contain, and a quoted value anywhere in a
  command adds exactly its own characters to the word it stands in.
\<close>

theorem shell_quote_round_trip:
  "sh_lex ShPlain None (join_with '' '' (map shell_quote args)) = Some args \<and>
   sh_lex ShPlain w (shell_quote s @ rest) = sh_lex ShPlain (Some (word_so_far w @ s)) rest"
  by (simp add: sh_lex_args sh_lex_quote)

subsection \<open>Truncation and capture\<close>

lemma truncate_loop_take:
  "whole = pre @ rest \<Longrightarrow>
   truncate_loop (length pre) (length pre) whole rest =
     (if max_output_length < length whole \<and> length pre \<le> max_output_length
      then take max_output_length whole @ truncation_mark
      else if max_output_length < length pre \<and> rest \<noteq> [] then pre @ truncation_mark
      else whole)"
proof (induction rest arbitrary: pre)
  case (Cons c cs)
  show ?case using Cons.IH[of "pre @ [c]"] Cons.prems by (auto simp: le_less_Suc_eq)
qed auto

lemma truncate_output_take:
  "truncate_output text =
     (if max_output_length < length text then take max_output_length text @ truncation_mark else text)"
  using truncate_loop_take[of "text" "[]" "text"] by (simp add: truncate_output_def)

lemma codepoint_length_exceeds_from_iff:
  "codepoint_length_exceeds_from count text limit \<longleftrightarrow> text \<noteq> [] \<and> limit < count + length text"
  by (induction count "text" limit rule: codepoint_length_exceeds_from.induct) auto

lemma codepoint_length_exceeds_iff: "codepoint_length_exceeds text limit \<longleftrightarrow> limit < length text"
  by (auto simp: codepoint_length_exceeds_def codepoint_length_exceeds_from_iff)

definition utf8_char :: "char \<Rightarrow> nat" where
  "utf8_char c = (if code c < 128 then 1 else 2)"

lemma utf8_length_simps [simp]:
  "utf8_length [] = 0"
  "utf8_length (c # cs) = utf8_char c + utf8_length cs"
  "utf8_length (s @ t) = utf8_length s + utf8_length t"
  by (simp_all add: utf8_length_def utf8_char_def)

lemma utf8_char_pos: "0 < utf8_char c"
  by (simp add: utf8_char_def)

text \<open>The longest prefix that fits, by recursion on the text.\<close>

fun fitting :: "nat \<Rightarrow> string \<Rightarrow> string" where
  "fitting n [] = []"
| "fitting n (c # cs) = (if n < utf8_length [c] then [] else c # fitting (n - utf8_length [c]) cs)"


lemma fit_loop_fitting:
  "bytes \<le> m \<Longrightarrow> fit_loop m bytes n s = n + length (fitting (m - bytes) s)"
  by (induction s arbitrary: bytes n) (auto simp: Let_def)

lemma fitting_prefix: "take (length (fitting n s)) s = fitting n s"
  by (induction n s rule: fitting.induct) auto

lemma fit_utf8_prefix_fitting: "fit_utf8_prefix s m = fitting m s"
  by (simp add: fit_utf8_prefix_def fit_loop_fitting fitting_prefix)

lemma fitting_bytes: "utf8_length (fitting n s) \<le> n"
  by (induction n s rule: fitting.induct) (auto)

lemma fitting_all: "utf8_length s \<le> n \<Longrightarrow> fitting n s = s"
  by (induction n s rule: fitting.induct) (auto)

lemma fitting_append:
  "utf8_length s \<le> n \<Longrightarrow> fitting n (s @ t) = s @ fitting (n - utf8_length s) t"
  by (induction s arbitrary: n) (auto)

lemma fitting_append_cut: "n < utf8_length s \<Longrightarrow> fitting n (s @ t) = fitting n s"
  by (induction s arbitrary: n) (auto)

lemma fitting_zero: "fitting 0 s = []"
  using utf8_char_pos by (cases s) auto

definition capture_ok :: "nat \<Rightarrow> string \<Rightarrow> captured_output \<Rightarrow> bool" where
  "capture_ok m s c \<longleftrightarrow> co_max c = m \<and> co_text c = captured_text m s \<and>
     co_truncated c = (m < utf8_length s) \<and> (\<not> co_truncated c \<longrightarrow> co_bytes c = utf8_length s)"

lemma capture_ok_append:
  assumes "capture_ok m s c"
  shows "capture_ok m (s @ chunk) (capture_append c chunk)"
proof (cases "co_truncated c")
  case True
  then show ?thesis using assms
    by (auto simp: capture_ok_def capture_append_def captured_text_def fit_utf8_prefix_fitting
        fitting_append_cut)
next
  case False
  with assms have fits: "utf8_length s \<le> m" and bytes: "co_bytes c = utf8_length s"
    and kept: "co_text c = s" and m: "co_max c = m"
    by (auto simp: capture_ok_def captured_text_def split: if_splits)
  show ?thesis
  proof (cases "utf8_length s + utf8_length chunk \<le> m")
    case True
    then show ?thesis using False fits bytes kept m
      by (simp add: capture_ok_def capture_append_def captured_text_def Let_def)
  next
    case over: False
    have cut: "fitting m (s @ chunk) = s @ fitting (m - utf8_length s) chunk"
      by (rule fitting_append[OF fits])
    have rem: "nat (int m - int (utf8_length s)) = m - utf8_length s" using fits by simp
    show ?thesis
    proof (cases "utf8_length s < m")
      case True
      then show ?thesis using False over bytes kept m
        by (simp add: capture_ok_def capture_append_def captured_text_def Let_def
            fit_utf8_prefix_fitting cut rem)
    next
      case full: False
      then have "m = utf8_length s" using fits by simp
      then show ?thesis using False over bytes kept m cut
        by (simp add: capture_ok_def capture_append_def captured_text_def Let_def
            fit_utf8_prefix_fitting fitting_zero)
    qed
  qed
qed

lemma capture_ok_chunks: "capture_ok m s c \<Longrightarrow> capture_ok m (s @ concat chunks) (foldl capture_append c chunks)"
proof (induction chunks arbitrary: s c)
  case (Cons chunk chunks)
  show ?case using Cons.IH[OF capture_ok_append[OF Cons.prems, of chunk]] by simp
qed simp

lemma capture_chunks_ok: "capture_ok m (concat chunks) (capture_chunks m chunks)"
  using capture_ok_chunks[of m "[]" "new_captured_output m" chunks]
  by (simp add: capture_chunks_def capture_ok_def new_captured_output_def captured_text_def)

text \<open>
  C24: the bounded capture is a function of the text, not of its chunks: it is the whole text
  when that fits the limit, otherwise the longest fitting prefix with the marker, and then the
  capture says so. What is kept of the stream never exceeds the limit.
\<close>

theorem capture_is_bounded_prefix:
  "co_text (capture_chunks m chunks) = captured_text m (concat chunks) \<and>
   co_truncated (capture_chunks m chunks) = (m < utf8_length (concat chunks)) \<and>
   utf8_length (co_text (capture_chunks m chunks)) \<le> m + length capture_truncation_marker"
proof -
  have "utf8_length capture_truncation_marker = length capture_truncation_marker" by code_simp
  then have "utf8_length (captured_text m (concat chunks)) \<le> m + length capture_truncation_marker"
    using fitting_bytes[of m "concat chunks"]
    by (auto simp: captured_text_def fit_utf8_prefix_fitting)
  then show ?thesis using capture_chunks_ok[of m chunks] by (simp add: capture_ok_def)
qed

subsection \<open>Masking\<close>

text \<open>
  A variant is clean when it cannot be confused with the placeholder: neither contains the
  other and no end of one is a start of the other.
\<close>

definition no_border :: "string \<Rightarrow> string \<Rightarrow> bool" where
  "no_border a b \<longleftrightarrow>
     list_all (\<lambda>k. drop (length a - k) a \<noteq> take k b) [1..<Suc (min (length a) (length b))]"

definition clean_variant :: "string \<Rightarrow> bool" where
  "clean_variant v \<longleftrightarrow> v \<noteq> [] \<and> \<not> js_includes redacted v \<and> \<not> js_includes v redacted \<and>
     no_border redacted v \<and> no_border v redacted"

text \<open>\<open>occ i v t\<close>: the text \<open>v\<close> stands in \<open>t\<close> at position \<open>i\<close>.\<close>

definition occ :: "nat \<Rightarrow> string \<Rightarrow> string \<Rightarrow> bool" where
  "occ i v t \<longleftrightarrow> i + length v \<le> length t \<and> take (length v) (drop i t) = v"

lemma includes_occ: "js_includes t v \<longleftrightarrow> (\<exists>i. occ i v t)"
proof
  assume "js_includes t v"
  then obtain a b where "t = a @ v @ b" unfolding includes_iff by blast
  then have "occ (length a) v t" by (simp add: occ_def)
  then show "\<exists>i. occ i v t" ..
next
  assume "\<exists>i. occ i v t"
  then obtain i where "take (length v) (drop i t) = v" by (auto simp: occ_def)
  then have "t = take i t @ v @ drop (length v) (drop i t)"
    by (metis append_take_drop_id)
  then show "js_includes t v" unfolding includes_iff by blast
qed

lemma occ_append: "occ i v x \<Longrightarrow> occ i v (x @ y)"
  by (auto simp: occ_def)

lemma occ_append_iff: "i + length v \<le> length x \<Longrightarrow> occ i v (x @ y) \<longleftrightarrow> occ i v x"
  by (auto simp: occ_def)

lemma occ_shift: "length x \<le> i \<Longrightarrow> occ i v (x @ y) \<longleftrightarrow> occ (i - length x) v y"
  by (auto simp: occ_def)

lemma occ_prefix: "occ 0 v t \<longleftrightarrow> starts_with t v"
  by (auto simp: occ_def starts_with_def) (metis length_take min.absorb_iff2 min.commute nat_le_linear)

lemma no_borderD:
  "no_border a b \<Longrightarrow> 0 < k \<Longrightarrow> k \<le> length a \<Longrightarrow> k \<le> length b \<Longrightarrow>
   drop (length a - k) a \<noteq> take k b"
  unfolding no_border_def list_all_iff set_upt by (drule bspec[of _ _ k]) auto

lemma clean_occ:
  assumes "clean_variant v" and "occ i v (x @ redacted @ y)"
  shows "i + length v \<le> length x \<or> length x + length redacted \<le> i"
proof (rule ccontr)
  assume "\<not> ?thesis"
  then have right: "length x < i + length v" and left: "i < length x + length redacted" by auto
  have v: "take (length v) (drop i (x @ redacted @ y)) = v"
    and len: "i + length v \<le> length (x @ redacted @ y)"
    using assms(2) by (auto simp: occ_def)
  show False
  proof (cases "i \<le> length x")
    case True
    let ?n = "length x - i"
    have v1: "take (length v - ?n) (redacted @ y) = drop ?n v"
      using arg_cong[OF v, of "drop ?n"] True right by (simp add: drop_take)
    show False
    proof (cases "length redacted \<le> length v - ?n")
      case True
      then have "js_includes (drop ?n v) redacted"
        by (simp flip: v1 add: includes_iff) (metis append_Nil)
      then have "js_includes v redacted"
        unfolding includes_iff by (metis append.assoc append_take_drop_id)
      with assms(1) show False by (simp add: clean_variant_def)
    next
      case False
      let ?k = "length v - ?n"
      have "take ?k redacted = drop (length v - ?k) v"
        using v1 False True right by simp
      moreover have "0 < ?k" "?k \<le> length v" "?k \<le> length redacted" using False right True by auto
      ultimately show False
        using assms(1) no_borderD[of v redacted ?k] by (simp add: clean_variant_def)
    qed
  next
    case False
    let ?m = "i - length x"
    have v1: "take (length v) (drop ?m redacted @ y) = v"
      using v False left by simp
    show False
    proof (cases "length v \<le> length redacted - ?m")
      case True
      then have "take (length v) (drop ?m redacted) = v" using v1 by simp
      then have "js_includes redacted v" unfolding includes_occ occ_def
        using True left False by (intro exI[of _ ?m]) auto
      with assms(1) show False by (simp add: clean_variant_def)
    next
      case over: False
      let ?k = "length redacted - ?m"
      have "drop ?m redacted = take ?k v"
        using arg_cong[OF v1, of "take ?k"] over by (simp add: min_def)
      moreover have "?m = length redacted - ?k" using left False by simp
      ultimately have "drop (length redacted - ?k) redacted = take ?k v" by simp
      moreover have "0 < ?k" "?k \<le> length v" using over left False by auto
      ultimately show False
        using assms(1) no_borderD[of redacted v ?k] by (simp add: clean_variant_def)
    qed
  qed
qed

lemma replace_all_cases [case_names empty match step]:
  assumes "w \<noteq> []"
  obtains "t = []" | t' where "t = w @ t'" "replace_all w rep t = rep @ replace_all w rep t'"
  | c t' where "t = c # t'" "\<not> starts_with t w" "replace_all w rep t = c # replace_all w rep t'"
proof (cases t)
  case Nil then show ?thesis using that(1) by simp
next
  case (Cons c t')
  show ?thesis
  proof (cases "starts_with t w")
    case True
    then obtain r where "t = w @ r" unfolding starts_with_iff by blast
    then show ?thesis using that(2) replace_all_match[OF assms] by blast
  next
    case False then show ?thesis using that(3) Cons replace_all_step by blast
  qed
qed

lemma occ_before_replacement:
  assumes "w \<noteq> []" "clean_variant v" "occ i v (u @ replace_all w redacted t)" "i < length u"
  shows "occ i v (u @ t)"
  using assms(3,4)
proof (induction t arbitrary: u rule: length_induct)
  case (1 t)
  show ?case using assms(1)
  proof (cases rule: replace_all_cases[where t = t and rep = redacted])
    case empty then show ?thesis using 1 by simp
  next
    case (match t')
    then have "occ i v (u @ redacted @ replace_all w redacted t')" using 1 by simp
    then have "i + length v \<le> length u" "occ i v (u @ redacted @ replace_all w redacted t')"
      using clean_occ[OF assms(2)] 1(3) by fastforce+
    then show ?thesis by (simp add: occ_append_iff)
  next
    case (step c t')
    then show ?thesis using 1(1)[rule_format, of t' "u @ [c]"] 1(2,3) by simp
  qed
qed

lemma replaced_is_gone:
  assumes "clean_variant w" "\<And>i. i < length u \<Longrightarrow> \<not> occ i w (u @ t)"
  shows "\<not> occ i w (u @ replace_all w redacted t)"
  using assms(2)
proof (induction t arbitrary: u i rule: length_induct)
  case (1 t)
  have w: "w \<noteq> []" using assms(1) by (simp add: clean_variant_def)
  show ?case using w
  proof (cases rule: replace_all_cases[where t = t and rep = redacted])
    case empty
    have "\<not> occ i w u"
      using 1(2)[of i] w empty by (cases "i < length u") (auto simp: occ_def)
    then show ?thesis using empty by simp
  next
    case (match t')
    show ?thesis
    proof
      assume "occ i w (u @ replace_all w redacted t)"
      then have o: "occ i w (u @ redacted @ replace_all w redacted t')" using match by simp
      from clean_occ[OF assms(1) o] show False
      proof
        assume le: "i + length w \<le> length u"
        moreover have "0 < length w" using w by simp
        ultimately have "i < length u" by linarith
        moreover have "occ i w (u @ t)" using o le by (simp add: occ_append_iff)
        ultimately show False using 1(2) by blast
      next
        assume "length u + length redacted \<le> i"
        then have "occ (i - length (u @ redacted)) w ([] @ replace_all w redacted t')"
          using o occ_shift[of "u @ redacted" i] by simp
        moreover have "length t' < length t" using match w by simp
        ultimately show False using 1(1)[rule_format, of t' "[]"] by simp
      qed
    qed
  next
    case (step c t')
    have "\<not> occ j w ((u @ [c]) @ t')" if "j < length (u @ [c])" for j
    proof (cases "j < length u")
      case True then show ?thesis using 1(2)[of j] step by simp
    next
      case False
      then have "j = length u" using that by simp
      then show ?thesis using step occ_shift[of u j w t] by (simp add: occ_prefix)
    qed
    then show ?thesis using 1(1)[rule_format, of t' "u @ [c]" i] step by simp
  qed
qed

lemma replacement_adds_none:
  assumes "w \<noteq> []" "clean_variant v" "\<And>i. \<not> occ i v (u @ t)"
  shows "\<not> occ i v (u @ replace_all w redacted t)"
  using assms(3)
proof (induction t arbitrary: u i rule: length_induct)
  case (1 t)
  show ?case using assms(1)
  proof (cases rule: replace_all_cases[where t = t and rep = redacted])
    case empty then show ?thesis using 1 by simp
  next
    case (match t')
    show ?thesis
    proof
      assume "occ i v (u @ replace_all w redacted t)"
      then have o: "occ i v (u @ redacted @ replace_all w redacted t')" using match by simp
      from clean_occ[OF assms(2) o] show False
      proof
        assume "i + length v \<le> length u"
        then show False using o 1(2)[of i] by (simp add: occ_append_iff)
      next
        assume "length u + length redacted \<le> i"
        then have "occ (i - length (u @ redacted)) v ([] @ replace_all w redacted t')"
          using o occ_shift[of "u @ redacted" i] by simp
        moreover have "\<not> occ j v ([] @ t')" for j
          using 1(2)[of "j + length (u @ w)"] match occ_shift[of "u @ w" "j + length (u @ w)" v t']
          by simp
        moreover have "length t' < length t" using match assms(1) by simp
        ultimately show False using 1(1)[rule_format, of t' "[]"] by blast
      qed
    qed
  next
    case (step c t')
    then show ?thesis using 1(1)[rule_format, of t' "u @ [c]" i] 1(2) by simp
  qed
qed

lemma replace_all_changed:
  "w \<noteq> [] \<Longrightarrow> replace_all w rep t = t \<or> js_includes (replace_all w rep t) rep"
proof (induction t rule: length_induct)
  case (1 t)
  show ?case using 1(2)
  proof (cases rule: replace_all_cases[where t = t and rep = rep])
    case empty then show ?thesis by simp
  next
    case (match t')
    then show ?thesis unfolding includes_iff by (metis append_Nil)
  next
    case (step c t')
    then have "replace_all w rep t' = t' \<or> js_includes (replace_all w rep t') rep"
      using 1 by simp
    then show ?thesis using step by auto
  qed
qed


lemma mask_snoc: "mask_prepared_secrets t (vs @ [v]) = replace_all v redacted (mask_prepared_secrets t vs)"
  by (simp add: mask_prepared_secrets_def)

lemma mask_Nil [simp]: "mask_prepared_secrets t [] = t"
  by (simp add: mask_prepared_secrets_def)

lemma masked_has_none:
  assumes "list_all clean_variant vs" "v \<in> set vs"
  shows "\<not> occ i v (mask_prepared_secrets t vs)"
  using assms
proof (induction vs arbitrary: v i rule: rev_induct)
  case (snoc w vs)
  have w: "clean_variant w" and "list_all clean_variant vs" using snoc.prems(1) by simp_all
  show ?case
  proof (cases "v = w")
    case True
    then show ?thesis
      using replaced_is_gone[OF w, of "[]" "mask_prepared_secrets t vs" i] by (simp add: mask_snoc)
  next
    case False
    then have v: "v \<in> set vs" using snoc.prems(2) by simp
    have "w \<noteq> []" "clean_variant v"
      using w v snoc.prems(1) by (auto simp: clean_variant_def list_all_iff)
    then show ?thesis
      using replacement_adds_none[of w v "[]" "mask_prepared_secrets t vs" i]
        snoc.IH[OF \<open>list_all clean_variant vs\<close> v] by (simp add: mask_snoc)
  qed
qed simp

lemma occ_before_mask:
  assumes "list_all clean_variant vs" "clean_variant v"
    "occ i v (z @ mask_prepared_secrets t vs)" "i < length z"
  shows "occ i v (z @ t)"
  using assms(1,3)
proof (induction vs rule: rev_induct)
  case (snoc w vs)
  have "w \<noteq> []" using snoc.prems(1) by (simp add: clean_variant_def)
  then have "occ i v (z @ mask_prepared_secrets t vs)"
    using occ_before_replacement[OF _ assms(2) _ assms(4)] snoc.prems(2) by (simp add: mask_snoc)
  then show ?case using snoc by simp
qed simp

lemma mask_changed:
  assumes "list_all clean_variant vs"
  shows "mask_prepared_secrets t vs = t \<or> js_includes (mask_prepared_secrets t vs) redacted"
  using assms
proof (induction vs rule: rev_induct)
  case (snoc w vs)
  have "w \<noteq> []" using snoc.prems by (simp add: clean_variant_def)
  then show ?case
    using replace_all_changed[of w redacted "mask_prepared_secrets t vs"] snoc
    by (auto simp: mask_snoc)
qed simp

lemma mask_id: "\<forall>v \<in> set vs. \<not> js_includes t v \<Longrightarrow> mask_prepared_secrets t vs = t"
  by (induction vs rule: rev_induct) (auto simp: mask_snoc replace_all_id)

subsection \<open>The stream masker\<close>

definition masker_ok :: "string list \<Rightarrow> string \<Rightarrow> string \<Rightarrow> bool" where
  "masker_ok vs out pending \<longleftrightarrow>
     (\<forall>v \<in> set vs. \<forall>i < length out. \<not> occ i v (out @ pending)) \<and>
     (masker_overlap vs = 0 \<longrightarrow> pending = []) \<and>
     (out = [] \<or> masker_overlap vs \<le> length pending \<or> js_includes pending redacted)"

lemma foldl_max_ge: "x = a \<or> x \<in> set xs \<Longrightarrow> (x::nat) \<le> foldl max a xs"
proof (induction xs arbitrary: a x)
  case (Cons y ys)
  show ?case
  proof (cases "x \<in> set ys")
    case True then show ?thesis using Cons.IH[of x "max a y"] by simp
  next
    case False
    then have "x \<le> max a y" using Cons.prems by auto
    also have "\<dots> \<le> foldl max (max a y) ys" using Cons.IH by blast
    finally show ?thesis by simp
  qed
qed simp

lemma variant_length: "v \<in> set vs \<Longrightarrow> length v \<le> variants_max_length vs"
  by (simp add: variants_max_length_def foldl_max_ge)

lemma masker_ok_extend:
  assumes clean: "list_all clean_variant vs" and ok: "masker_ok vs out pending"
    and v: "v \<in> set vs" "i < length out"
  shows "\<not> occ i v (out @ pending @ chunk)"
proof
  assume o: "occ i v (out @ pending @ chunk)"
  show False
  proof (cases "i + length v \<le> length (out @ pending)")
    case True
    then have "occ i v (out @ pending)" using o occ_append_iff[of i v "out @ pending" chunk] by simp
    then show False using ok v by (auto simp: masker_ok_def)
  next
    case False
    then have long: "length pending + 1 < length v" using v(2) by simp
    then have "\<not> masker_overlap vs \<le> length pending"
      using variant_length[OF v(1)] by (simp add: masker_overlap_def)
    moreover have "out \<noteq> []" using v(2) by auto
    ultimately have "js_includes pending redacted" using ok by (simp add: masker_ok_def)
    then obtain a b where ab: "pending = a @ redacted @ b" unfolding includes_iff by blast
    have "clean_variant v" using clean v(1) by (simp add: list_all_iff)
    moreover have "occ i v ((out @ a) @ redacted @ (b @ chunk))" using o ab by simp
    ultimately have "i + length v \<le> length (out @ a) \<or> length (out @ a) + length redacted \<le> i"
      by (rule clean_occ)
    then show False using False ab v(2) by (auto simp: redacted_def)
  qed
qed

lemma masker_ok_masked:
  assumes clean: "list_all clean_variant vs"
    and none: "\<And>v i. v \<in> set vs \<Longrightarrow> i < length out \<Longrightarrow> \<not> occ i v (out @ pending)"
    and v: "v \<in> set vs"
  shows "\<not> occ i v (out @ mask_prepared_secrets pending vs)"
proof
  assume o: "occ i v (out @ mask_prepared_secrets pending vs)"
  show False
  proof (cases "i < length out")
    case True
    then show False using occ_before_mask[OF clean _ o] none v clean by (auto simp: list_all_iff)
  next
    case False
    then show False using o masked_has_none[OF clean v] by (simp add: occ_shift)
  qed
qed

lemma masker_ok_push:
  assumes clean: "list_all clean_variant vs" and ok: "masker_ok vs out pending"
    and push: "masker_push vs pending chunk = (written, pending')"
  shows "masker_ok vs (out @ concat written) pending'"
proof (cases "masker_overlap vs = 0")
  case True
  have pending: "pending = []" using ok True by (simp add: masker_ok_def)
  have res: "written = [mask_prepared_secrets chunk vs]" "pending' = []"
    using push True pending by (auto simp: masker_push_def)
  have "\<not> occ i v (out @ mask_prepared_secrets chunk vs)" if "v \<in> set vs" for v i
    using masker_ok_masked[OF clean, of out chunk v i] masker_ok_extend[OF clean ok, of _ _ chunk]
      that pending by simp
  then show ?thesis using True by (simp add: masker_ok_def res)
next
  case overlap: False
  define masked where "masked = mask_prepared_secrets (pending @ chunk) vs"
  have ext: "\<not> occ i v (out @ pending @ chunk)" if "v \<in> set vs" "i < length out" for v i
    using masker_ok_extend[OF clean ok] that by blast
  have none: "\<not> occ i v (out @ masked)" if "v \<in> set vs" for v i
    unfolding masked_def using masker_ok_masked[OF clean _ that] ext by simp
  have push': "(written, pending') =
      (if length (pending @ chunk) \<le> masker_overlap vs then ([], pending @ chunk)
       else if length masked \<le> masker_overlap vs then ([], masked)
       else ([take (length masked - masker_overlap vs) masked],
             drop (length masked - masker_overlap vs) masked))"
    using push overlap unfolding masker_push_def masked_def Let_def by simp
  consider (short) "length (pending @ chunk) \<le> masker_overlap vs" "written = []"
      "pending' = pending @ chunk"
    | (kept) "\<not> length (pending @ chunk) \<le> masker_overlap vs" "length masked \<le> masker_overlap vs"
        "written = []" "pending' = masked"
    | (split) "\<not> length masked \<le> masker_overlap vs"
        "written = [take (length masked - masker_overlap vs) masked]"
        "pending' = drop (length masked - masker_overlap vs) masked"
  proof (cases "length (pending @ chunk) \<le> masker_overlap vs")
    case True
    then show ?thesis using push' by (intro short) simp_all
  next
    case False
    show ?thesis
    proof (cases "length masked \<le> masker_overlap vs")
      case True then show ?thesis using push' False by (intro kept) simp_all
    next
      case False then show ?thesis using push' \<open>\<not> length (pending @ chunk) \<le> _\<close> by (intro split) simp_all
    qed
  qed
  then show ?thesis
  proof cases
    case short
    have "out = [] \<or> masker_overlap vs \<le> length pending' \<or> js_includes pending' redacted"
    proof -
      have "js_includes pending redacted \<Longrightarrow> js_includes pending' redacted"
        unfolding includes_iff short(3) by (metis append.assoc)
      then show ?thesis using ok short by (auto simp: masker_ok_def)
    qed
    then show ?thesis using ext overlap short by (simp add: masker_ok_def)
  next
    case kept
    have "masked \<noteq> pending @ chunk" using kept by auto
    then have "js_includes masked redacted" using mask_changed[OF clean] by (auto simp: masked_def)
    then show ?thesis using none overlap kept by (simp add: masker_ok_def)
  next
    case split
    have "out @ concat written @ pending' = out @ masked" using split by simp
    then show ?thesis using none overlap split by (simp add: masker_ok_def)
  qed
qed

lemma masker_ok_chunks:
  "list_all clean_variant vs \<Longrightarrow> masker_ok vs out pending \<Longrightarrow>
   masker_chunks vs pending chunks = (written, pending') \<Longrightarrow> masker_ok vs (out @ concat written) pending'"
proof (induction chunks arbitrary: out pending written)
  case (Cons chunk chunks)
  obtain w1 p1 where push: "masker_push vs pending chunk = (w1, p1)" by fastforce
  obtain w2 where rest: "masker_chunks vs p1 chunks = (w2, pending')" and w: "written = w1 @ w2"
    using Cons.prems(3) push by (auto split: prod.splits)
  show ?case
    using Cons.IH[OF Cons.prems(1) masker_ok_push[OF Cons.prems(1,2) push] rest] w by simp
qed simp

lemma masked_stream_clean:
  assumes clean: "list_all clean_variant vs" and v: "v \<in> set vs"
  shows "\<not> js_includes (masked_stream vs chunks) v"
proof -
  obtain written pending where run: "masker_chunks vs [] chunks = (written, pending)" by fastforce
  have ok: "masker_ok vs (concat written) pending"
    using masker_ok_chunks[OF clean _ run, of "[]"] by (simp add: masker_ok_def)
  have "\<not> occ i v (masked_stream vs chunks)" for i
  proof (cases "pending = []")
    case True
    have "\<not> occ i v (concat written)"
    proof (cases "i < length (concat written)")
      case True
      then show ?thesis using ok v \<open>pending = []\<close> by (auto simp: masker_ok_def)
    next
      case False
      moreover have "v \<noteq> []" using clean v by (auto simp: list_all_iff clean_variant_def)
      ultimately show ?thesis by (auto simp: occ_def)
    qed
    then show ?thesis by (simp add: masked_stream_def run masker_flush_def True)
  next
    case False
    have "\<not> occ i v (concat written @ mask_prepared_secrets pending vs)"
      using masker_ok_masked[OF clean _ v] ok by (auto simp: masker_ok_def)
    then show ?thesis by (simp add: masked_stream_def run masker_flush_def False)
  qed
  then show ?thesis unfolding includes_occ by blast
qed

subsection \<open>The variants of clean secrets are clean\<close>

lemma occ_disjoint:
  assumes "set v \<inter> set ins = {}" "v \<noteq> []" "ins \<noteq> []" "occ i v (u @ ins @ y)"
  shows "i + length v \<le> length u \<or> length u + length ins \<le> i"
proof (rule ccontr)
  assume no: "\<not> ?thesis"
  let ?p = "max i (length u)"
  have at: "v ! (?p - i) = (u @ ins @ y) ! ?p"
  proof -
    have "0 < length v" using assms(2) by simp
    then have "?p - i < length v" using no by linarith
    then have "take (length v) (drop i (u @ ins @ y)) ! (?p - i) = drop i (u @ ins @ y) ! (?p - i)"
      by (rule nth_take)
    moreover have "take (length v) (drop i (u @ ins @ y)) = v" "i + length v \<le> length (u @ ins @ y)"
      using assms(4) by (auto simp: occ_def)
    ultimately show ?thesis by (metis max.cobounded1 le_add_diff_inverse nth_drop le_add1 le_trans)
  qed
  have "0 < length ins" using assms(3) by simp
  then have "?p - length u < length ins" using no by linarith
  then have "(u @ ins @ y) ! ?p \<in> set ins" using no by (simp add: nth_append)
  moreover have "v ! (?p - i) \<in> set v"
  proof (rule nth_mem)
    have "0 < length v" using assms(2) by simp
    then show "?p - i < length v" using no by linarith
  qed
  ultimately show False using at assms(1) by auto
qed

lemma includes_disjoint:
  assumes "set v \<inter> set ins = {}" "v \<noteq> []" "ins \<noteq> []" "js_includes (u @ ins @ y) v"
  shows "js_includes u v \<or> js_includes y v"
proof -
  obtain i where o: "occ i v (u @ ins @ y)" using assms(4) unfolding includes_occ by blast
  from occ_disjoint[OF assms(1-3) o] show ?thesis
  proof
    assume "i + length v \<le> length u"
    then show ?thesis using o occ_append_iff unfolding includes_occ by blast
  next
    assume "length u + length ins \<le> i"
    then have "occ (i - length (u @ ins)) v y" using o occ_shift[of "u @ ins" i v y] by simp
    then show ?thesis unfolding includes_occ by blast
  qed
qed

lemma includes_mono: "js_includes u v \<Longrightarrow> js_includes (a @ u @ b) v"
  unfolding includes_iff by (metis append.assoc)

lemma includes_replaced_single:
  assumes "set v \<inter> set ins = {}" "v \<noteq> []" "ins \<noteq> []"
  shows "js_includes (u @ replace_all [q] ins s) v \<Longrightarrow> js_includes (u @ s) v"
proof (induction s arbitrary: u)
  case (Cons c s)
  show ?case
  proof (cases "c = q")
    case True
    then have "js_includes u v \<or> js_includes (replace_all [q] ins s) v"
      using includes_disjoint[OF assms, of u "replace_all [q] ins s"] Cons.prems by simp
    then have "js_includes u v \<or> js_includes s v" using Cons.IH[of "[]"] by auto
    then show ?thesis
      using includes_mono[of u v "[]" "c # s"] includes_mono[of s v "u @ [c]" "[]"] by auto
  next
    case False
    then show ?thesis using Cons.IH[of "u @ [c]"] Cons.prems by simp
  qed
qed simp

lemma shell_quote_includes_redacted: "js_includes (shell_quote s) redacted \<Longrightarrow> js_includes s redacted"
proof -
  let ?q = "[CHR 0x27]" and ?ins = "[CHR 0x27, CHR 0x5C, CHR 0x27, CHR 0x27]"
  have dis: "set redacted \<inter> set ?ins = {}" "set redacted \<inter> set ?q = {}" "redacted \<noteq> []"
    by (simp_all add: redacted_def)
  assume "js_includes (shell_quote s) redacted"
  then have "js_includes ([] @ ?q @ (replace_all ?q ?ins s @ ?q)) redacted"
    by (simp add: shell_quote_def)
  then have "js_includes (replace_all ?q ?ins s @ ?q @ []) redacted"
    using includes_disjoint[OF dis(2,3)] by (fastforce simp: redacted_def)
  then have "js_includes ([] @ replace_all ?q ?ins s) redacted"
    using includes_disjoint[OF dis(2,3)] by (fastforce simp: redacted_def)
  then show ?thesis
    using includes_replaced_single[OF dis(1,3), where u = "[]" and q = "CHR 0x27" and s = s] by simp
qed

lemma shell_quote_ends: "\<exists>x. shell_quote s = CHR 0x27 # x @ [CHR 0x27]"
  by (auto simp: shell_quote_def)

lemma no_border_hd: "b \<noteq> [] \<Longrightarrow> hd b \<notin> set a \<Longrightarrow> no_border a b"
  unfolding no_border_def list_all_iff set_upt
proof (intro ballI notI)
  fix k assume b: "b \<noteq> []" "hd b \<notin> set a" "k \<in> {1..<Suc (min (length a) (length b))}"
    "drop (length a - k) a = take k b"
  then have "hd b \<in> set (take k b)" by (cases b; cases k) auto
  then show False using b by (metis in_set_dropD)
qed

lemma no_border_last: "a \<noteq> [] \<Longrightarrow> last a \<notin> set b \<Longrightarrow> no_border a b"
  unfolding no_border_def list_all_iff set_upt
proof (intro ballI notI)
  fix k assume a: "a \<noteq> []" "last a \<notin> set b" "k \<in> {1..<Suc (min (length a) (length b))}"
    "drop (length a - k) a = take k b"
  then have ne: "drop (length a - k) a \<noteq> []" by auto
  then have "last a \<in> set (drop (length a - k) a)" by (metis last_drop last_in_set drop_eq_Nil not_le)
  then show False using a by (metis in_set_takeD)
qed

lemma includes_chars: "js_includes t v \<Longrightarrow> set v \<subseteq> set t"
  by (auto simp: includes_iff)

lemma clean_shell_quote:
  assumes "\<not> js_includes s redacted"
  shows "clean_variant (shell_quote s)"
proof -
  obtain x where x: "shell_quote s = CHR 0x27 # x @ [CHR 0x27]" using shell_quote_ends by blast
  have q: "CHR 0x27 \<notin> set redacted" by (simp add: redacted_def)
  have "\<not> js_includes redacted (shell_quote s)"
    using includes_chars[of redacted "shell_quote s"] q x by auto
  moreover have "no_border redacted (shell_quote s)" by (rule no_border_hd) (simp_all add: x q)
  moreover have "no_border (shell_quote s) redacted" by (rule no_border_last) (simp_all add: x q)
  ultimately show ?thesis
    using assms shell_quote_includes_redacted by (auto simp: clean_variant_def x)
qed

lemma upper_hex_digit_not: "d < 16 \<Longrightarrow> upper_hex_digit d \<noteq> CHR ''['' \<and> upper_hex_digit d \<noteq> CHR '']''"
proof -
  assume "d < 16"
  then have "d \<in> set [0..<16]" by simp
  moreover have "list_all (\<lambda>d. upper_hex_digit d \<noteq> CHR ''['' \<and> upper_hex_digit d \<noteq> CHR '']'') [0..<16]"
    by code_simp
  ultimately show ?thesis unfolding list_all_iff by blast
qed

lemma percent_byte_not:
  assumes "b < 256"
  shows "CHR ''['' \<notin> set (percent_byte b) \<and> CHR '']'' \<notin> set (percent_byte b)"
proof -
  have "b div 16 < 16" using assms by (intro less_mult_imp_div_less) simp
  moreover have "b mod 16 < 16" by simp
  ultimately show ?thesis
    using upper_hex_digit_not[of "b div 16"] upper_hex_digit_not[of "b mod 16"]
    by (auto simp: percent_byte_def)
qed

lemma code_bound: "code c < 256"
  by (simp add: code_def)

lemma encode_uri_char_not:
  "CHR ''['' \<notin> set (encode_uri_char c)" "CHR '']'' \<notin> set (encode_uri_char c)" "encode_uri_char c \<noteq> []"
proof -
  have u: "\<not> uri_unreserved (CHR ''['')" "\<not> uri_unreserved (CHR '']'')"
    by (simp_all add: uri_unreserved_def char_class_defs)
  have b: "192 + code c div 64 < 256" "128 + code c mod 64 < 256" using code_bound[of c] by auto
  show "CHR ''['' \<notin> set (encode_uri_char c)" "CHR '']'' \<notin> set (encode_uri_char c)"
    using u percent_byte_not[OF b(1)] percent_byte_not[OF b(2)] percent_byte_not[OF code_bound, of c]
    by (auto simp: encode_uri_char_def)
  show "encode_uri_char c \<noteq> []" by (simp add: encode_uri_char_def percent_byte_def)
qed

lemma encode_uri_char_percent: "encode_uri_char c \<noteq> [c] \<Longrightarrow> CHR ''%'' \<in> set (encode_uri_char c)"
  by (auto simp: encode_uri_char_def percent_byte_def split: if_splits)

lemma encode_percent: "encode_uri_component s \<noteq> s \<Longrightarrow> CHR ''%'' \<in> set (encode_uri_component s)"
proof (induction s)
  case (Cons c s)
  then show ?case using encode_uri_char_percent[of c]
    by (cases "encode_uri_char c = [c]") (auto simp: encode_uri_component_def)
qed (simp add: encode_uri_component_def)

lemma clean_encoded:
  assumes "encode_uri_component s \<noteq> s"
  shows "clean_variant (encode_uri_component s)"
proof -
  let ?v = "encode_uri_component s"
  have b: "CHR ''['' \<notin> set ?v" "CHR '']'' \<notin> set ?v"
    using encode_uri_char_not by (auto simp: encode_uri_component_def)
  have r: "hd redacted = CHR ''[''" "last redacted = CHR '']''" "redacted \<noteq> []"
    "CHR ''%'' \<notin> set redacted" "CHR ''['' \<in> set redacted"
    by (simp_all add: redacted_def)
  have "\<not> js_includes redacted ?v" using includes_chars encode_percent[OF assms] r(4) by blast
  moreover have "\<not> js_includes ?v redacted" using includes_chars b r(5) by blast
  moreover have "no_border redacted ?v" using no_border_last b r by simp
  moreover have "no_border ?v redacted" using no_border_hd b r by simp
  moreover have "?v \<noteq> []" using encode_percent[OF assms] by auto
  ultimately show ?thesis by (simp add: clean_variant_def)
qed

lemma set_set_add [simp]: "set (set_add vs v) = insert v (set vs)"
  by (auto simp: set_add_def)

lemma shell_quote_longer: "shell_quote s \<noteq> s"
proof
  assume "shell_quote s = s"
  have "length s \<le> length (replace_all [CHR 0x27] [CHR 0x27, CHR 0x5C, CHR 0x27, CHR 0x27] s)"
    by (induction s) auto
  then have "length s < length (shell_quote s)" by (simp add: shell_quote_def)
  then show False using \<open>shell_quote s = s\<close> by simp
qed

lemma collect_variants_set:
  "collect_variants acc secrets = Inr vs \<Longrightarrow>
   set vs = set acc \<union> (\<Union>s \<in> {s \<in> set secrets. s \<noteq> []}. {s, encode_uri_component s, shell_quote s}) \<and>
   (\<forall>s \<in> set secrets. s \<noteq> [] \<longrightarrow> \<not> js_includes s redacted)"
proof (induction acc secrets rule: collect_variants.induct)
  case (2 variants secret secrets)
  show ?case
  proof (cases "secret = [] \<or> js_includes secret redacted")
    case True
    then show ?thesis using 2 by (auto split: if_splits)
  next
    case False
    let ?v3 = "set_add (if encode_uri_component secret \<noteq> secret
        then set_add (set_add variants secret) (encode_uri_component secret)
        else set_add variants secret) (shell_quote secret)"
    have "collect_variants ?v3 secrets = Inr vs"
      using 2(3) False by (simp add: Let_def shell_quote_longer)
    then have "set vs = set ?v3 \<union> (\<Union>s \<in> {s \<in> set secrets. s \<noteq> []}. {s, encode_uri_component s, shell_quote s}) \<and>
        (\<forall>s \<in> set secrets. s \<noteq> [] \<longrightarrow> \<not> js_includes s redacted)"
      using 2(2)[OF _ _ refl refl refl refl refl] False by (simp add: shell_quote_longer)
    moreover have "set ?v3 = set variants \<union> {secret, encode_uri_component secret, shell_quote secret}"
      by auto
    ultimately show ?thesis using False by auto
  qed
qed simp

lemma secret_variants_set:
  assumes "get_secret_variants secrets = Inr vs"
  shows "set vs = (\<Union>s \<in> {s \<in> set secrets. s \<noteq> []}. {s, encode_uri_component s, shell_quote s})"
    and "s \<in> set secrets \<Longrightarrow> s \<noteq> [] \<Longrightarrow> \<not> js_includes s redacted"
proof -
  obtain ws where ws: "collect_variants [] secrets = Inr ws" "set vs = set ws"
    using assms by (auto simp: get_secret_variants_def split: sum.splits)
  show "set vs = (\<Union>s \<in> {s \<in> set secrets. s \<noteq> []}. {s, encode_uri_component s, shell_quote s})"
    using collect_variants_set[OF ws(1)] ws(2) by simp
  show "s \<in> set secrets \<Longrightarrow> s \<noteq> [] \<Longrightarrow> \<not> js_includes s redacted"
    using collect_variants_set[OF ws(1)] by blast
qed

lemma variants_clean:
  assumes "get_secret_variants secrets = Inr vs" and "list_all (\<lambda>s. s = [] \<or> clean_variant s) secrets"
  shows "list_all clean_variant vs"
proof -
  have "clean_variant v" if "v \<in> set vs" for v
  proof -
    from that obtain s where s: "s \<in> set secrets" "s \<noteq> []"
      and v: "v = s \<or> v = encode_uri_component s \<or> v = shell_quote s"
      unfolding secret_variants_set(1)[OF assms(1)] by blast
    have "clean_variant s" using assms(2) s by (auto simp: list_all_iff)
    moreover have "clean_variant (shell_quote s)"
      by (rule clean_shell_quote) (rule secret_variants_set(2)[OF assms(1) s])
    ultimately show ?thesis using v clean_encoded[of s] by (cases "encode_uri_component s = s") auto
  qed
  then show ?thesis by (simp add: list_all_iff)
qed

subsection \<open>Properties of masking\<close>

text \<open>
  C4: no secret leaves a stream. However the text of a command's output is cut into chunks,
  what the masker writes contains no secret, no URI encoding and no shell quoting of one, as
  long as the secrets cannot be confused with the placeholder.
\<close>

theorem stream_masker_hides_secrets:
  assumes "get_secret_variants secrets = Inr vs" and "list_all (\<lambda>s. s = [] \<or> clean_variant s) secrets"
    and "s \<in> set secrets" and "s \<noteq> []"
  shows "\<not> js_includes (masked_stream vs chunks) s \<and>
    \<not> js_includes (masked_stream vs chunks) (encode_uri_component s) \<and>
    \<not> js_includes (masked_stream vs chunks) (shell_quote s)"
proof -
  have "{s, encode_uri_component s, shell_quote s} \<subseteq> set vs"
    unfolding secret_variants_set(1)[OF assms(1)] using assms(3,4) by blast
  then show ?thesis using masked_stream_clean[OF variants_clean[OF assms(1,2)]] by blast
qed

theorem stream_masker_hides_secrets_witness:
  "\<exists>vs. get_secret_variants [''hunter2!'', []] = Inr vs \<and>
     \<not> js_includes (masked_stream vs [''pw=hun'', ''te'', ''r2! ok'']) ''hunter2!''"
proof -
  have "list_all (\<lambda>s. s = [] \<or> clean_variant s) [''hunter2!'', []]" by code_simp
  moreover have "get_secret_variants [''hunter2!'', []] =
      Inr (projr (get_secret_variants [''hunter2!'', []]))" by code_simp
  ultimately show ?thesis
    using stream_masker_hides_secrets[of "[''hunter2!'', []]" _ "''hunter2!''"] by fastforce
qed

lemma masker_push_plain:
  assumes "\<forall>v \<in> set vs. \<not> js_includes (pending @ chunk) v"
    and "masker_overlap vs = 0 \<Longrightarrow> pending = []"
    and "masker_push vs pending chunk = (written, pending')"
  shows "concat written @ pending' = pending @ chunk \<and> (masker_overlap vs = 0 \<longrightarrow> pending' = [])"
proof -
  have "mask_prepared_secrets (pending @ chunk) vs = pending @ chunk" using assms(1) by (rule mask_id)
  then show ?thesis using assms(2,3)
    by (auto simp: masker_push_def Let_def simp del: take_append drop_append length_append
        split: if_splits)
qed

lemma masker_chunks_plain:
  assumes "masker_chunks vs pending chunks = (written, pending')"
    and "\<forall>v \<in> set vs. \<not> js_includes (pending @ concat chunks) v"
    and "masker_overlap vs = 0 \<longrightarrow> pending = []"
  shows "concat written @ pending' = pending @ concat chunks"
  using assms
proof (induction chunks arbitrary: pending written)
  case (Cons chunk chunks)
  obtain w1 p1 where push: "masker_push vs pending chunk = (w1, p1)" by fastforce
  obtain w2 where rest: "masker_chunks vs p1 chunks = (w2, pending')" and w: "written = w1 @ w2"
    using Cons.prems(1) push by (auto split: prod.splits)
  have "\<forall>v \<in> set vs. \<not> js_includes (pending @ chunk) v"
    using Cons.prems(2) includes_mono[of "pending @ chunk" _ "[]" "concat chunks"] by auto
  then have p1: "concat w1 @ p1 = pending @ chunk" "masker_overlap vs = 0 \<longrightarrow> p1 = []"
    using masker_push_plain[OF _ _ push] Cons.prems(3) by auto
  have split: "pending @ concat (chunk # chunks) = concat w1 @ p1 @ concat chunks"
    using p1(1) by (metis append.assoc concat.simps(2))
  have "\<forall>v \<in> set vs. \<not> js_includes (p1 @ concat chunks) v"
    using Cons.prems(2) includes_mono[of "p1 @ concat chunks" _ "concat w1" "[]"]
    unfolding split by auto
  then have "concat w2 @ pending' = p1 @ concat chunks" using Cons.IH[OF rest] p1(2) by blast
  then show ?case by (simp only: w concat_append append.assoc split)
qed simp

text \<open>
  masking loses nothing else. A text without any variant of a secret passes the stream
  masker unchanged, whatever its chunks.
\<close>

theorem stream_masker_transparent:
  assumes "list_all (\<lambda>v. \<not> js_includes (concat chunks) v) vs"
  shows "masked_stream vs chunks = concat chunks"
proof -
  obtain written pending where run: "masker_chunks vs [] chunks = (written, pending)" by fastforce
  have all: "concat written @ pending = concat chunks"
    using masker_chunks_plain[OF run] assms by (simp add: list_all_iff)
  have "mask_prepared_secrets pending vs = pending"
  proof (rule mask_id, rule ballI, rule notI)
    fix v assume "v \<in> set vs" "js_includes pending v"
    then show False using includes_mono[of pending v "concat written" "[]"] all assms
      by (auto simp: list_all_iff)
  qed
  then show ?thesis using all by (auto simp: masked_stream_def run masker_flush_def)
qed

theorem stream_masker_transparent_witness:
  "masked_stream [''token''] [''to'', ''k'', ''e-n''] = ''toke-n''"
  using stream_masker_transparent[of "[''to'', ''k'', ''e-n'']" "[''token'']"]
  by (simp add: starts_with_def)

text \<open>
  The masker does not hide the rest of a longer secret that starts with a shorter one when a
  chunk ends between them.
\<close>

lemma stream_masker_leaks_suffix:
  "masked_stream [''abcdefgh'', ''abcd''] [''1234567abcd'', ''efgh''] = ''1234567[REDACTED]efgh'' \<and>
   mask_prepared_secrets ''1234567abcdefgh'' [''abcdefgh'', ''abcd''] = ''1234567[REDACTED]''"
  by code_simp

end
