(* ===== verification/StreamOutput.thy ===== *)
theory StreamOutput
  imports ShellText TerminalSanitizer
begin

text \<open>
  The collection of a command's output (\<^verbatim>\<open>collectStreamOutput\<close>): a state machine over the
  events of the channel. Decoded text passes the masker, what the masker writes is captured
  and, sanitized, shown on the terminal; the exit of the channel settles the promise. The
  two byte decoders of the platform are the parameter \<open>decoder\<close>: a chunk of bytes gives
  text, the end of the input may give some more, and the strict one knows whether the input
  was valid.
\<close>

record exec_result =
  er_code :: int
  er_stderr :: string
  er_stdout :: string

record ('b, 'd) decoder =
  dc_start :: 'd
  dc_write :: "'d \<Rightarrow> 'b \<Rightarrow> string \<times> 'd"
  dc_end :: "'d \<Rightarrow> string \<times> 'd"
  dc_valid :: "'d \<Rightarrow> bool"

record ('b, 'd) collect_options =
  cx_command :: string
  cx_secrets :: "string list"
  cx_max :: "js_number option"
  cx_silent :: bool
  cx_ignore_exit_code :: bool
  cx_stdout_decoder :: "('b, 'd) decoder"
  cx_stderr_decoder :: "('b, 'd) decoder"

text \<open>One of the two output streams on its way: decoder, masker, capture, terminal.\<close>

record 'd lane =
  ln_decoder :: 'd
  ln_pending :: string
  ln_capture :: captured_output
  ln_terminal :: sanitizer_state
  ln_screen :: string

record 'd collector =
  cl_out :: "'d lane"
  cl_err :: "'d lane"
  cl_timer :: bool
  cl_settled :: "exec_result result option"

datatype 'b channel_event =
    StdoutData 'b
  | StderrData 'b
  | StreamError exn
  | ChannelExit "int option" "string option"

text \<open>The callback of the masker: capture first, then the terminal.\<close>

definition lane_write :: "bool \<Rightarrow> 'd lane \<Rightarrow> string \<Rightarrow> 'd lane" where
  "lane_write silent l written =
     (let l1 = l\<lparr>ln_capture := capture_append (ln_capture l) written\<rparr>
      in if silent then l1
         else (case push_text (ln_terminal l1) written of
                 (s, shown) \<Rightarrow> l1\<lparr>ln_terminal := s, ln_screen := ln_screen l1 @ shown\<rparr>))"

definition lane_push :: "bool \<Rightarrow> string list \<Rightarrow> 'd lane \<Rightarrow> string \<Rightarrow> 'd lane" where
  "lane_push silent variants l chunk =
     (case masker_push variants (ln_pending l) chunk of
        (written, pending) \<Rightarrow> (foldl (lane_write silent) l written)\<lparr>ln_pending := pending\<rparr>)"

definition lane_data :: "('b, 'd) decoder \<Rightarrow> bool \<Rightarrow> string list \<Rightarrow> 'b \<Rightarrow> 'd lane \<Rightarrow> 'd lane" where
  "lane_data dec silent variants data l =
     (case dc_write dec (ln_decoder l) data of
        (decoded, d) \<Rightarrow> lane_push silent variants (l\<lparr>ln_decoder := d\<rparr>) decoded)"

definition finish_decode :: "('b, 'd) decoder \<Rightarrow> bool \<Rightarrow> string list \<Rightarrow> 'd lane \<Rightarrow> 'd lane" where
  "finish_decode dec silent variants l =
     (case dc_end dec (ln_decoder l) of
        (decoded, d) \<Rightarrow>
          (let l1 = l\<lparr>ln_decoder := d\<rparr>
           in if decoded \<noteq> [] then lane_push silent variants l1 decoded else l1))"

definition lane_flush :: "bool \<Rightarrow> string list \<Rightarrow> 'd lane \<Rightarrow> 'd lane" where
  "lane_flush silent variants l =
     (case masker_flush variants (ln_pending l) of
        (written, pending) \<Rightarrow> (foldl (lane_write silent) l written)\<lparr>ln_pending := pending\<rparr>)"

definition terminal_flush :: "bool \<Rightarrow> 'd lane \<Rightarrow> 'd lane" where
  "terminal_flush silent l =
     (if silent then l
      else (case flush_text (ln_terminal l) of
              (s, shown) \<Rightarrow> l\<lparr>ln_terminal := s, ln_screen := ln_screen l @ shown\<rparr>))"

definition lane_drain :: "('b, 'd) decoder \<Rightarrow> bool \<Rightarrow> string list \<Rightarrow> 'd lane \<Rightarrow> 'd lane" where
  "lane_drain dec silent variants l =
     terminal_flush silent (lane_flush silent variants (finish_decode dec silent variants l))"

text \<open>
  The two lanes share nothing, so draining one after the other is the interleaved order of
  the code. \<open>settle\<close> is \<^verbatim>\<open>resolve\<close> or \<^verbatim>\<open>reject\<close>: only the first call counts.
\<close>

definition drain :: "('b, 'd) collect_options \<Rightarrow> string list \<Rightarrow> 'd collector \<Rightarrow> 'd collector" where
  "drain cx variants c =
     c\<lparr>cl_timer := False,
       cl_out := lane_drain (cx_stdout_decoder cx) (cx_silent cx) variants (cl_out c),
       cl_err := lane_drain (cx_stderr_decoder cx) (cx_silent cx) variants (cl_err c)\<rparr>"

definition settle :: "exec_result result \<Rightarrow> 'd collector \<Rightarrow> 'd collector" where
  "settle outcome c = (if cl_settled c = None then c\<lparr>cl_settled := Some outcome\<rparr> else c)"

definition normalize_ssh_close_code :: "int option \<Rightarrow> int" where
  "normalize_ssh_close_code c = (case c of None \<Rightarrow> 0 | Some n \<Rightarrow> n)"

definition normalize_ssh_close_signal :: "string option \<Rightarrow> string option" where
  "normalize_ssh_close_signal s = (if s = None \<or> s = Some [] then None else s)"

definition output_summary_was_truncated :: "'d collector \<Rightarrow> bool" where
  "output_summary_was_truncated c \<longleftrightarrow>
     co_truncated (ln_capture (cl_out c)) \<or> co_truncated (ln_capture (cl_err c)) \<or>
     codepoint_length_exceeds (co_text (ln_capture (cl_out c))) max_output_length \<or>
     codepoint_length_exceeds (co_text (ln_capture (cl_err c))) max_output_length"

definition build_command_error ::
  "string \<Rightarrow> string \<Rightarrow> string \<Rightarrow> string \<Rightarrow> string list \<Rightarrow> bool \<Rightarrow> exn" where
  "build_command_error captured_stderr captured_stdout command reason variants was_truncated =
     CommandErr
       (''Command failed with '' @ reason @ '': '' @ mask_prepared_secrets command variants
        @ [CHR 0x0A] @ ''stdout: '' @ truncate_output captured_stdout
        @ [CHR 0x0A] @ ''stderr: '' @ truncate_output captured_stderr
        @ (if was_truncated then [CHR 0x0A] @ ''(use --verbose for full output)'' else []))
       captured_stdout captured_stderr"

definition invalid_utf8_stdout_error :: "string \<Rightarrow> string list \<Rightarrow> int \<Rightarrow> string option \<Rightarrow> exn" where
  "invalid_utf8_stdout_error command variants end_code end_signal =
     InvalidUtf8Err
       (''Command stdout is not valid UTF-8 (''
        @ (case end_signal of None \<Rightarrow> ''exit code '' @ show_int end_code | Some s \<Rightarrow> ''signal '' @ s)
        @ ''): '' @ mask_prepared_secrets command variants)"

definition exit_outcome ::
  "('b, 'd) collect_options \<Rightarrow> string list \<Rightarrow> int option \<Rightarrow> string option \<Rightarrow> 'd collector \<Rightarrow> exec_result result"
where
  "exit_outcome cx variants exit_code exit_signal c =
     (let captured_stdout = co_text (ln_capture (cl_out c));
          captured_stderr = co_text (ln_capture (cl_err c));
          close_signal = normalize_ssh_close_signal exit_signal;
          close_code = normalize_ssh_close_code exit_code
      in if \<not> dc_valid (cx_stdout_decoder cx) (ln_decoder (cl_out c))
         then Inl (invalid_utf8_stdout_error (cx_command cx) variants close_code close_signal)
         else (case close_signal of
                 Some s \<Rightarrow>
                   Inl (build_command_error captured_stderr captured_stdout (cx_command cx)
                          (''signal '' @ s) variants (output_summary_was_truncated c))
               | None \<Rightarrow>
                   if close_code \<noteq> 0 \<and> \<not> cx_ignore_exit_code cx
                   then Inl (build_command_error captured_stderr captured_stdout (cx_command cx)
                               (''exit code '' @ show_int close_code) variants
                               (output_summary_was_truncated c))
                   else Inr \<lparr>er_code = close_code, er_stderr = captured_stderr,
                             er_stdout = captured_stdout\<rparr>))"

fun channel_step ::
  "('b, 'd) collect_options \<Rightarrow> string list \<Rightarrow> 'd collector \<Rightarrow> 'b channel_event \<Rightarrow> 'd collector" where
  "channel_step cx variants c (StdoutData data) =
     c\<lparr>cl_out := lane_data (cx_stdout_decoder cx) (cx_silent cx) variants data (cl_out c)\<rparr>"
| "channel_step cx variants c (StderrData data) =
     c\<lparr>cl_err := lane_data (cx_stderr_decoder cx) (cx_silent cx) variants data (cl_err c)\<rparr>"
| "channel_step cx variants c (StreamError e) = settle (Inl e) (drain cx variants c)"
| "channel_step cx variants c (ChannelExit exit_code exit_signal) =
     (let c1 = drain cx variants c
      in settle (exit_outcome cx variants exit_code exit_signal c1) c1)"

definition new_lane :: "('b, 'd) decoder \<Rightarrow> nat \<Rightarrow> 'd lane" where
  "new_lane dec max_bytes =
     \<lparr>ln_decoder = dc_start dec, ln_pending = [], ln_capture = new_captured_output max_bytes,
      ln_terminal = SanText, ln_screen = []\<rparr>"

definition new_collector :: "('b, 'd) collect_options \<Rightarrow> nat \<Rightarrow> 'd collector" where
  "new_collector cx max_bytes =
     \<lparr>cl_out = new_lane (cx_stdout_decoder cx) max_bytes,
      cl_err = new_lane (cx_stderr_decoder cx) max_bytes, cl_timer = True, cl_settled = None\<rparr>"

text \<open>
  The whole call: options or secrets that are refused stop the timer and reject before any
  listener is installed, so no event is seen.
\<close>

definition collect_stream_output ::
  "('b, 'd) collect_options \<Rightarrow> 'b channel_event list \<Rightarrow> 'd collector" where
  "collect_stream_output cx events =
     (case (case resolve_max_output_bytes (cx_max cx) of
              Inl e \<Rightarrow> Inl e
            | Inr max_bytes \<Rightarrow>
                (case get_secret_variants (cx_secrets cx) of
                   Inl e \<Rightarrow> Inl e
                 | Inr variants \<Rightarrow> Inr (max_bytes, variants))) of
        Inl e \<Rightarrow> (new_collector cx 0)\<lparr>cl_timer := False, cl_settled := Some (Inl e)\<rparr>
      | Inr (max_bytes, variants) \<Rightarrow>
          foldl (channel_step cx variants) (new_collector cx max_bytes) events)"

subsection \<open>What a lane computes\<close>

definition lane_has_written :: "bool \<Rightarrow> nat \<Rightarrow> string list \<Rightarrow> 'd lane \<Rightarrow> bool" where
  "lane_has_written silent m written l \<longleftrightarrow>
     ln_capture l = capture_chunks m written \<and>
     (if silent then ln_screen l = [] else push_chunks SanText written = (ln_terminal l, ln_screen l))"

definition lane_ok :: "bool \<Rightarrow> string list \<Rightarrow> nat \<Rightarrow> string list \<Rightarrow> 'd lane \<Rightarrow> bool" where
  "lane_ok silent vs m chunks l \<longleftrightarrow>
     ln_pending l = snd (masker_chunks vs [] chunks) \<and>
     lane_has_written silent m (fst (masker_chunks vs [] chunks)) l"

lemma push_chunks_snoc:
  "push_chunks s (ts @ [t]) =
     (case push_chunks s ts of (s1, out) \<Rightarrow> (case push_text s1 t of (s2, rest) \<Rightarrow> (s2, out @ rest)))"
  by (simp add: push_chunks_concat push_text_append)

lemma masker_chunks_snoc:
  "masker_chunks vs p (cs @ [c]) =
     (case masker_chunks vs p cs of
        (w1, p1) \<Rightarrow> (case masker_push vs p1 c of (w2, p2) \<Rightarrow> (w1 @ w2, p2)))"
  by (induction cs arbitrary: p) (auto split: prod.splits)

lemma lane_write_ok:
  "lane_has_written silent m ws l \<Longrightarrow> lane_has_written silent m (ws @ [w]) (lane_write silent l w)"
  by (auto simp: lane_has_written_def lane_write_def capture_chunks_def push_chunks_snoc split: prod.splits)

lemma lane_writes_ok:
  "lane_has_written silent m ws l \<Longrightarrow> lane_has_written silent m (ws @ us) (foldl (lane_write silent) l us)"
proof (induction us arbitrary: ws l)
  case (Cons u us)
  show ?case using Cons.IH[OF lane_write_ok[OF Cons.prems, of u]] by simp
qed simp

lemma lane_has_written_pending [simp]:
  "lane_has_written silent m ws (l\<lparr>ln_pending := p\<rparr>) = lane_has_written silent m ws l"
  "lane_has_written silent m ws (l\<lparr>ln_decoder := d\<rparr>) = lane_has_written silent m ws l"
  by (simp_all add: lane_has_written_def)

lemma lane_ok_decoder [simp]: "lane_ok silent vs m cs (l\<lparr>ln_decoder := d\<rparr>) = lane_ok silent vs m cs l"
  by (simp add: lane_ok_def)

lemma lane_write_decoder [simp]:
  "ln_decoder (foldl (lane_write silent) l us) = ln_decoder l"
  by (induction us arbitrary: l) (auto simp: lane_write_def Let_def split: prod.splits)

lemma lane_push_ok:
  "lane_ok silent vs m cs l \<Longrightarrow> lane_ok silent vs m (cs @ [c]) (lane_push silent vs l c)"
  using lane_writes_ok[of silent m "fst (masker_chunks vs [] cs)" l]
  by (auto simp: lane_ok_def lane_push_def masker_chunks_snoc split: prod.splits)

lemma lane_push_decoder [simp]: "ln_decoder (lane_push silent vs l c) = ln_decoder l"
  by (simp add: lane_push_def split: prod.split)

text \<open>The texts the decoder makes of the chunks of bytes, and its final state.\<close>

fun decode_chunks :: "('b, 'd) decoder \<Rightarrow> 'd \<Rightarrow> 'b list \<Rightarrow> string list \<times> 'd" where
  "decode_chunks dec d [] = ([], d)"
| "decode_chunks dec d (b # bs) =
     (case dc_write dec d b of
        (t, d1) \<Rightarrow> (case decode_chunks dec d1 bs of (ts, d2) \<Rightarrow> (t # ts, d2)))"

definition decode_all :: "('b, 'd) decoder \<Rightarrow> 'b list \<Rightarrow> string list \<times> 'd" where
  "decode_all dec bs =
     (case decode_chunks dec (dc_start dec) bs of
        (ts, d) \<Rightarrow> (case dc_end dec d of (t, d1) \<Rightarrow> (if t \<noteq> [] then ts @ [t] else ts, d1)))"

lemma lane_data_run:
  "lane_ok silent vs m cs l \<Longrightarrow> decode_chunks dec (ln_decoder l) bs = (ts, d) \<Longrightarrow>
   lane_ok silent vs m (cs @ ts) (foldl (\<lambda>l b. lane_data dec silent vs b l) l bs) \<and>
   ln_decoder (foldl (\<lambda>l b. lane_data dec silent vs b l) l bs) = d"
proof (induction bs arbitrary: l cs ts)
  case (Cons b bs)
  obtain t d1 where w: "dc_write dec (ln_decoder l) b = (t, d1)" by fastforce
  obtain ts' where r: "decode_chunks dec d1 bs = (ts', d)" "ts = t # ts'"
    using Cons.prems(2) w by (auto split: prod.splits)
  have l1: "lane_data dec silent vs b l = lane_push silent vs (l\<lparr>ln_decoder := d1\<rparr>) t"
    by (simp add: lane_data_def w)
  have "lane_ok silent vs m (cs @ [t]) (lane_data dec silent vs b l)"
    unfolding l1 using Cons.prems(1) by (intro lane_push_ok) simp
  moreover have "ln_decoder (lane_data dec silent vs b l) = d1" by (simp add: l1)
  ultimately show ?case using Cons.IH[of "cs @ [t]" "lane_data dec silent vs b l" ts'] r by simp
qed auto

lemma lane_drain_result:
  assumes ok: "lane_ok silent vs m ts l" and d: "dc_end dec (ln_decoder l) = (t, d1)"
  defines "chunks \<equiv> if t \<noteq> [] then ts @ [t] else ts"
  shows "co_text (ln_capture (lane_drain dec silent vs l)) = captured_text m (masked_stream vs chunks) \<and>
    co_truncated (ln_capture (lane_drain dec silent vs l)) = (m < utf8_length (masked_stream vs chunks)) \<and>
    ln_decoder (lane_drain dec silent vs l) = d1 \<and>
    ln_screen (lane_drain dec silent vs l) =
      (if silent then [] else sanitize_terminal_text (masked_stream vs chunks))"
proof -
  define l1 where "l1 = finish_decode dec silent vs l"
  have l1: "lane_ok silent vs m chunks l1" "ln_decoder l1 = d1"
    using ok lane_push_ok[of silent vs m ts "l\<lparr>ln_decoder := d1\<rparr>" t]
    by (auto simp: l1_def finish_decode_def d chunks_def Let_def)
  define ws where "ws = fst (masker_chunks vs [] chunks) @ fst (masker_flush vs (ln_pending l1))"
  define l2 where "l2 = lane_flush silent vs l1"
  have l2: "lane_has_written silent m ws l2" "ln_decoder l2 = d1"
    using l1 lane_writes_ok[of silent m "fst (masker_chunks vs [] chunks)" l1
        "fst (masker_flush vs (ln_pending l1))"]
    by (auto simp: l2_def lane_flush_def lane_ok_def ws_def split: prod.split)
  have all: "concat ws = masked_stream vs chunks"
    using l1(1) by (simp add: ws_def masked_stream_def lane_ok_def split: prod.split)
  have "lane_drain dec silent vs l = terminal_flush silent l2"
    by (simp add: lane_drain_def l1_def l2_def)
  then show ?thesis using l2 capture_chunks_ok[of m ws] unfolding all
    by (auto simp: terminal_flush_def lane_has_written_def capture_ok_def flush_text_def
        push_chunks_concat all sanitize_terminal_text_def split: prod.splits)
qed

subsection \<open>The events\<close>

fun stdout_data :: "'b channel_event list \<Rightarrow> 'b list" where
  "stdout_data [] = []"
| "stdout_data (StdoutData b # es) = b # stdout_data es"
| "stdout_data (_ # es) = stdout_data es"

fun stderr_data :: "'b channel_event list \<Rightarrow> 'b list" where
  "stderr_data [] = []"
| "stderr_data (StderrData b # es) = b # stderr_data es"
| "stderr_data (_ # es) = stderr_data es"

fun is_data :: "'b channel_event \<Rightarrow> bool" where
  "is_data (StdoutData _) = True"
| "is_data (StderrData _) = True"
| "is_data _ = False"

lemma data_run:
  "list_all is_data es \<Longrightarrow>
   foldl (channel_step cx vs) c es =
     c\<lparr>cl_out := foldl (\<lambda>l b. lane_data (cx_stdout_decoder cx) (cx_silent cx) vs b l) (cl_out c) (stdout_data es),
       cl_err := foldl (\<lambda>l b. lane_data (cx_stderr_decoder cx) (cx_silent cx) vs b l) (cl_err c) (stderr_data es)\<rparr>"
proof (induction es arbitrary: c)
  case (Cons e es)
  then show ?case by (cases e) auto
qed simp

lemma new_lane_ok: "lane_ok silent vs m [] (new_lane dec m)"
  by (simp add: lane_ok_def new_lane_def lane_has_written_def capture_chunks_def)

lemma settled_step: "cl_settled c = Some r \<Longrightarrow> cl_settled (channel_step cx vs c e) = Some r \<and>
    (\<not> cl_timer c \<longrightarrow> \<not> cl_timer (channel_step cx vs c e))"
  by (cases e) (auto simp: settle_def drain_def Let_def)

lemma settled_run: "cl_settled c = Some r \<Longrightarrow> cl_settled (foldl (channel_step cx vs) c es) = Some r \<and>
    (\<not> cl_timer c \<longrightarrow> \<not> cl_timer (foldl (channel_step cx vs) c es))"
proof (induction es arbitrary: c)
  case (Cons e es)
  then show ?case using settled_step[OF Cons.prems, of cx vs e] by auto
qed simp

lemma drained_lane:
  assumes "decode_all dec bs = (chunks, d)"
    and l: "l = lane_drain dec silent vs (foldl (\<lambda>l b. lane_data dec silent vs b l) (new_lane dec m) bs)"
  shows "co_text (ln_capture l) = captured_text m (masked_stream vs chunks) \<and>
    co_truncated (ln_capture l) = (m < utf8_length (masked_stream vs chunks)) \<and> ln_decoder l = d \<and>
    ln_screen l = (if silent then [] else sanitize_terminal_text (masked_stream vs chunks))"
proof -
  obtain ts d0 where ts: "decode_chunks dec (dc_start dec) bs = (ts, d0)" by fastforce
  obtain t d1 where t: "dc_end dec d0 = (t, d1)" by fastforce
  have res: "chunks = (if t \<noteq> [] then ts @ [t] else ts)" "d = d1"
    using assms(1) by (auto simp: decode_all_def ts t split: if_splits)
  have start: "ln_decoder (new_lane dec m) = dc_start dec" by (simp add: new_lane_def)
  have dc: "decode_chunks dec (ln_decoder (new_lane dec m)) bs = (ts, d0)" using ts start by simp
  have "lane_ok silent vs m ts (foldl (\<lambda>l b. lane_data dec silent vs b l) (new_lane dec m) bs)"
    and "ln_decoder (foldl (\<lambda>l b. lane_data dec silent vs b l) (new_lane dec m) bs) = d0"
    using lane_data_run[OF new_lane_ok dc, of silent vs] by simp_all
  then show ?thesis unfolding l res using lane_drain_result[of silent vs m ts _ dec t d1] t by auto
qed

lemma collected_at_exit:
  assumes data: "list_all is_data es" and m: "resolve_max_output_bytes (cx_max cx) = Inr m"
    and vs: "get_secret_variants (cx_secrets cx) = Inr vs"
    and out: "decode_all (cx_stdout_decoder cx) (stdout_data es) = (out, d)"
    and err: "decode_all (cx_stderr_decoder cx) (stderr_data es) = (err, d')"
    and c: "c = collect_stream_output cx (es @ [ChannelExit exit_code exit_signal])"
  shows "co_text (ln_capture (cl_out c)) = captured_text m (masked_stream vs out)"
    and "co_text (ln_capture (cl_err c)) = captured_text m (masked_stream vs err)"
    and "cl_settled c = Some (exit_outcome cx vs exit_code exit_signal c)"
    and "\<not> cl_timer c" and "ln_decoder (cl_out c) = d"
    and "ln_screen (cl_out c) =
      (if cx_silent cx then [] else sanitize_terminal_text (masked_stream vs out))"
    and "ln_screen (cl_err c) =
      (if cx_silent cx then [] else sanitize_terminal_text (masked_stream vs err))"
proof -
  define c0 where "c0 = new_collector cx m"
  define c1 where "c1 = foldl (channel_step cx vs) c0 es"
  have c1: "c1 = c0\<lparr>cl_out := foldl (\<lambda>l b. lane_data (cx_stdout_decoder cx) (cx_silent cx) vs b l)
        (cl_out c0) (stdout_data es),
      cl_err := foldl (\<lambda>l b. lane_data (cx_stderr_decoder cx) (cx_silent cx) vs b l)
        (cl_err c0) (stderr_data es)\<rparr>"
    unfolding c1_def by (rule data_run[OF data])
  have c: "c = channel_step cx vs c1 (ChannelExit exit_code exit_signal)"
    by (simp add: c collect_stream_output_def m vs c1_def c0_def)
  have unsettled: "cl_settled c1 = None" by (simp add: c1 c0_def new_collector_def)
  have outl: "cl_out c = lane_drain (cx_stdout_decoder cx) (cx_silent cx) vs
      (foldl (\<lambda>l b. lane_data (cx_stdout_decoder cx) (cx_silent cx) vs b l)
        (new_lane (cx_stdout_decoder cx) m) (stdout_data es))"
    and errl: "cl_err c = lane_drain (cx_stderr_decoder cx) (cx_silent cx) vs
      (foldl (\<lambda>l b. lane_data (cx_stderr_decoder cx) (cx_silent cx) vs b l)
        (new_lane (cx_stderr_decoder cx) m) (stderr_data es))"
    and rest: "\<not> cl_timer c" "cl_settled c = Some (exit_outcome cx vs exit_code exit_signal (drain cx vs c1))"
    using unsettled by (simp_all add: c Let_def settle_def drain_def c1 c0_def new_collector_def)
  show "co_text (ln_capture (cl_out c)) = captured_text m (masked_stream vs out)"
    "ln_decoder (cl_out c) = d"
    "ln_screen (cl_out c) = (if cx_silent cx then [] else sanitize_terminal_text (masked_stream vs out))"
    using drained_lane[OF out outl] by blast+
  show "co_text (ln_capture (cl_err c)) = captured_text m (masked_stream vs err)"
    "ln_screen (cl_err c) = (if cx_silent cx then [] else sanitize_terminal_text (masked_stream vs err))"
    using drained_lane[OF err errl] by blast+
  have same: "output_summary_was_truncated c2 = output_summary_was_truncated c3"
    if "cl_out c2 = cl_out c3" "cl_err c2 = cl_err c3" for c2 c3 :: "'b collector"
    by (simp add: output_summary_was_truncated_def that)
  have lanes: "exit_outcome cx vs x y c2 = exit_outcome cx vs x y c3"
    if "cl_out c2 = cl_out c3" "cl_err c2 = cl_err c3" for x y and c2 c3 :: "'b collector"
    unfolding exit_outcome_def that same[OF that] by (rule refl)
  have "exit_outcome cx vs exit_code exit_signal c = exit_outcome cx vs exit_code exit_signal (drain cx vs c1)"
    by (rule lanes) (simp_all add: c Let_def settle_def)
  with rest show "\<not> cl_timer c" "cl_settled c = Some (exit_outcome cx vs exit_code exit_signal c)"
    by simp_all
qed

subsection \<open>Properties\<close>

text \<open>
  C14: the exit of the channel settles the command for good. The timer is stopped and the
  promise has exactly one outcome, which nothing that follows changes: the masked and bounded
  text of the decoded streams when stdout was valid, no signal ended the command and its code
  is zero or ignored, and an error otherwise.
\<close>

theorem collector_exit_outcome:
  assumes "list_all is_data es" and "resolve_max_output_bytes (cx_max cx) = Inr m"
    and "get_secret_variants (cx_secrets cx) = Inr vs"
    and "decode_all (cx_stdout_decoder cx) (stdout_data es) = (out, d)"
    and "decode_all (cx_stderr_decoder cx) (stderr_data es) = (err, d')"
    and "c = collect_stream_output cx (es @ ChannelExit exit_code exit_signal # after_exit)"
  shows "\<not> cl_timer c \<and>
    (\<exists>e. cl_settled c = Some
      (if dc_valid (cx_stdout_decoder cx) d \<and> normalize_ssh_close_signal exit_signal = None \<and>
          (normalize_ssh_close_code exit_code = 0 \<or> cx_ignore_exit_code cx)
       then Inr \<lparr>er_code = normalize_ssh_close_code exit_code,
                 er_stderr = captured_text m (masked_stream vs err),
                 er_stdout = captured_text m (masked_stream vs out)\<rparr>
       else Inl e))"
proof -
  define c1 where "c1 = collect_stream_output cx (es @ [ChannelExit exit_code exit_signal])"
  note at = collected_at_exit[OF assms(1-5) c1_def]
  have c: "c = foldl (channel_step cx vs) c1 after_exit"
    by (simp add: assms(6) c1_def collect_stream_output_def assms(2,3))
  have "cl_settled c = cl_settled c1" "\<not> cl_timer c"
    using settled_run[OF at(3), of cx vs after_exit] at(3,4) unfolding c by simp_all
  then show ?thesis unfolding at(3)
    by (auto simp: exit_outcome_def Let_def at(1,2,5) split: option.splits)
qed

text \<open>A decoder for the witnesses: the bytes are the text, a NUL makes it invalid.\<close>

definition plain_decoder :: "(string, bool) decoder" where
  "plain_decoder =
     \<lparr>dc_start = True, dc_write = (\<lambda>ok b. (b, ok \<and> CHR 0x00 \<notin> set b)), dc_end = (\<lambda>ok. ([], ok)),
      dc_valid = (\<lambda>ok. ok)\<rparr>"

definition plain_options :: "string list \<Rightarrow> (string, bool) collect_options" where
  "plain_options secrets =
     \<lparr>cx_command = ''cat f'', cx_secrets = secrets, cx_max = Some (Finite 64), cx_silent = False,
      cx_ignore_exit_code = False, cx_stdout_decoder = plain_decoder, cx_stderr_decoder = plain_decoder\<rparr>"

lemma plain_max: "resolve_max_output_bytes (cx_max (plain_options ss)) = Inr 64"
  by (simp add: resolve_max_output_bytes_def plain_options_def)

theorem collector_exit_outcome_witness:
  "\<exists>c. c = collect_stream_output (plain_options [])
      ([StdoutData ''hel'', StderrData ''!'', StdoutData ''lo''] @ ChannelExit (Some 0) None
        # [StreamError (GenericError ''late'')]) \<and>
     cl_settled c = Some (Inr \<lparr>er_code = 0, er_stderr = ''!'', er_stdout = ''hello''\<rparr>)"
proof -
  have dec: "decode_all (cx_stdout_decoder (plain_options []))
      (stdout_data [StdoutData ''hel'', StderrData ''!'', StdoutData ''lo'']) = ([''hel'', ''lo''], True)"
    "decode_all (cx_stderr_decoder (plain_options []))
      (stderr_data [StdoutData ''hel'', StderrData ''!'', StdoutData ''lo'']) = ([''!''], True)"
    by (simp_all add: decode_all_def plain_options_def plain_decoder_def)
  have vs: "get_secret_variants (cx_secrets (plain_options [])) = Inr []"
    by (simp add: plain_options_def get_secret_variants_def)
  have val: "dc_valid (cx_stdout_decoder (plain_options [])) True"
    by (simp add: plain_options_def plain_decoder_def)
  have cap: "captured_text 64 (masked_stream [] [''hel'', ''lo'']) = ''hello''"
    "captured_text 64 (masked_stream [] [''!'']) = ''!''"
    by code_simp+
  show ?thesis
    using collector_exit_outcome[OF _ plain_max vs dec refl, of "Some 0" None
        "[StreamError (GenericError ''late'')]"] val
    by (simp add: cap normalize_ssh_close_signal_def normalize_ssh_close_code_def)
qed



text \<open>
  Sanitizing comes after masking, so an escape sequence inside a secret hides it from the
  masker and is then removed.
\<close>

lemma sanitizing_reassembles_secret:
  "sanitize_terminal_text (masked_stream [''hunter2''] [''hun'' @ [CHR 0x1B] @ ''[0mter2'']) = ''hunter2''"
  by code_simp

end
