(* ===== verification/Base64.thy ===== *)
theory Base64
  imports JsString
begin

text \<open>
  Buffers are strings whose characters are the bytes. \<open>base64_encode\<close> is
  \<^verbatim>\<open>buffer.toString("base64")\<close>; \<open>base64_decode\<close> is \<^verbatim>\<open>Buffer.from(text, "base64")\<close>: it
  reads up to the first padding character, takes the URL alphabet for the standard one,
  skips every other character and drops an incomplete last byte.
\<close>

type_synonym buffer = string

definition base64_char :: "nat \<Rightarrow> char" where
  "base64_char d =
     char_of (if d < 26 then 65 + d else if d < 52 then 71 + d else if d < 62 then d - 4
              else if d = 62 then 43 else (47::nat))"

definition base64_value :: "char \<Rightarrow> nat option" where
  "base64_value c =
     (if is_upper c then Some (code c - 65)
      else if is_lower c then Some (code c - 71)
      else if is_digit c then Some (code c + 4)
      else if code c = 43 \<or> code c = 45 then Some 62
      else if code c = 47 \<or> code c = 95 then Some 63 else None)"

fun sextets :: "nat list \<Rightarrow> nat list" where
  "sextets [] = []"
| "sextets [a] = [a div 4, a mod 4 * 16]"
| "sextets [a, b] = [a div 4, a mod 4 * 16 + b div 16, b mod 16 * 4]"
| "sextets (a # b # c # bs) =
     (a div 4) # (a mod 4 * 16 + b div 16) # (b mod 16 * 4 + c div 64) # (c mod 64) # sextets bs"

definition base64_padding :: "nat \<Rightarrow> string" where
  "base64_padding n = (if n mod 3 = 1 then ''=='' else if n mod 3 = 2 then ''='' else [])"

definition base64_encode :: "buffer \<Rightarrow> string" where
  "base64_encode b = map base64_char (sextets (map code b)) @ base64_padding (length b)"

fun octets :: "nat list \<Rightarrow> nat list" where
  "octets (a # b # c # d # ds) =
     (a * 4 + b div 16) # (b mod 16 * 16 + c div 4) # (c mod 4 * 64 + d) # octets ds"
| "octets [a, b, c] = [a * 4 + b div 16, b mod 16 * 16 + c div 4]"
| "octets [a, b] = [a * 4 + b div 16]"
| "octets _ = []"

definition base64_decode :: "string \<Rightarrow> buffer" where
  "base64_decode s =
     map char_of (octets (List.map_filter base64_value (takeWhile (\<lambda>c. c \<noteq> CHR ''='') s)))"

definition strict_base64_body :: "char \<Rightarrow> bool" where
  "strict_base64_body c \<longleftrightarrow> is_alpha c \<or> is_digit c \<or> code c = 43 \<or> code c = 47"

text \<open>\<^verbatim>\<open>/^[A-Za-z0-9+\/]+=*$/v\<close>\<close>

definition strict_base64_pattern :: "string \<Rightarrow> bool" where
  "strict_base64_pattern s \<longleftrightarrow>
     takeWhile strict_base64_body s \<noteq> [] \<and>
     list_all (\<lambda>c. c = CHR ''='') (dropWhile strict_base64_body s)"

lemma code_lt: "code c < 256"
  by (simp add: code_def)

lemma char_of_code [simp]: "char_of (code c) = c"
  by (simp add: code_def)

lemma byte_parts:
  assumes "(b::nat) < 256"
  shows "b div 4 < 64" "b div 16 < 16" "b div 64 < 4"
  using assms by (auto intro: less_mult_imp_div_less)

lemma sextet_bounds:
  "(b::nat) < 256 \<Longrightarrow> a mod 4 * 16 + b div 16 < 64"
  "(c::nat) < 256 \<Longrightarrow> b mod 16 * 4 + c div 64 < 64"
  "a mod 4 * 16 < (64::nat)" "b mod 16 * 4 < (64::nat)"
proof -
  have "a mod 4 < 4" "b mod 16 < 16" by simp_all
  then show "b < 256 \<Longrightarrow> a mod 4 * 16 + b div 16 < 64" "c < 256 \<Longrightarrow> b mod 16 * 4 + c div 64 < 64"
    "a mod 4 * 16 < (64::nat)" "b mod 16 * 4 < (64::nat)"
    using byte_parts(2)[of b] byte_parts(3)[of c] by linarith+
qed

lemma sextets_bound: "list_all (\<lambda>b. b < 256) bs \<Longrightarrow> list_all (\<lambda>d. d < 64) (sextets bs)"
  by (induction bs rule: sextets.induct) (simp_all add: sextet_bounds byte_parts(1))

lemma octets_sextets: "list_all (\<lambda>b. b < 256) bs \<Longrightarrow> octets (sextets bs) = bs"
proof (induction bs rule: sextets.induct)
  case (3 a b)
  then have "b div 16 < 16" by (simp add: byte_parts)
  then show ?case by (simp add: div_less mod_less)
next
  case (4 a b c bs)
  then have "b div 16 < 16" "c div 64 < 4" by (simp_all add: byte_parts)
  then show ?case using 4 by (simp add: div_less mod_less)
qed simp_all

lemma code_base64_char:
  "d < 64 \<Longrightarrow> code (base64_char d) =
     (if d < 26 then 65 + d else if d < 52 then 71 + d else if d < 62 then d - 4
      else if d = 62 then 43 else 47)"
  by (simp add: base64_char_def code_def)

lemma base64_char_ok:
  assumes "d < 64"
  shows "base64_value (base64_char d) = Some d" "base64_char d \<noteq> CHR ''=''"
    "strict_base64_body (base64_char d)" "\<not> js_space (base64_char d)"
proof -
  note c = code_base64_char
  have eq: "code (CHR ''='') = 61" by (simp add: code_def)
  show "base64_value (base64_char d) = Some d" "strict_base64_body (base64_char d)"
    "\<not> js_space (base64_char d)"
    using assms by (auto simp: base64_value_def strict_base64_body_def is_upper_def is_lower_def
        is_alpha_def is_digit_def js_space_def char_between_def c)
  show "base64_char d \<noteq> CHR ''=''"
  proof
    assume "base64_char d = CHR ''=''"
    then have "code (base64_char d) = 61" using eq by simp
    then show False using assms unfolding c[OF assms] by (auto split: if_splits)
  qed
qed

lemma byte_codes: "list_all (\<lambda>b. b < 256) (map code b)"
  using code_lt by (simp add: list_all_iff)

lemma encoded_sextets: "list_all (\<lambda>d. d < 64) (sextets (map code b))"
  by (rule sextets_bound[OF byte_codes])

lemma padding_eq: "list_all (\<lambda>c. c = CHR ''='') (base64_padding n)"
  by (simp add: base64_padding_def)

lemma map_filter_values:
  "list_all (\<lambda>d. d < 64) ds \<Longrightarrow> List.map_filter base64_value (map base64_char ds) = ds"
  by (induction ds) (simp_all add: map_filter_simps base64_char_ok(1))

lemma base64_decode_encode: "base64_decode (base64_encode b) = b"
proof -
  let ?ds = "sextets (map code b)"
  have body: "c \<in> set (map base64_char ?ds) \<Longrightarrow> c \<noteq> CHR ''=''" for c
    using encoded_sextets[of b] base64_char_ok(2) by (auto simp: list_all_iff)
  have pad: "takeWhile (\<lambda>c. c \<noteq> CHR ''='') (base64_padding (length b)) = []"
    by (simp add: base64_padding_def)
  have "takeWhile (\<lambda>c. c \<noteq> CHR ''='') (map base64_char ?ds @ base64_padding (length b)) = map base64_char ?ds"
    using takeWhile_append2[of "map base64_char ?ds", OF body] by (simp only: pad append_Nil2)
  then show ?thesis
    using map_filter_values[OF encoded_sextets[of b]] octets_sextets[OF byte_codes[of b]]
    by (simp add: base64_decode_def base64_encode_def comp_def)
qed

lemma base64_encode_no_space:
  assumes "c \<in> set (base64_encode b)"
  shows "\<not> js_space c"
proof (cases "c = CHR ''=''")
  case True then show ?thesis by (simp add: char_class_defs)
next
  case False
  then have "c \<in> set (map base64_char (sextets (map code b)))"
    using assms padding_eq[of "length b"] by (auto simp: base64_encode_def list_all_iff)
  then obtain d where "d \<in> set (sextets (map code b))" "c = base64_char d" by auto
  then show ?thesis
    using encoded_sextets[of b] base64_char_ok(4)[of d] by (simp add: list_all_iff)
qed

lemma strict_base64_encode:
  assumes "b \<noteq> []"
  shows "strict_base64_pattern (base64_encode b)"
proof -
  let ?body = "map base64_char (sextets (map code b))"
  have body: "\<forall>c \<in> set ?body. strict_base64_body c"
    using encoded_sextets[of b] base64_char_ok(3) by (auto simp: list_all_iff)
  have pad: "takeWhile strict_base64_body (base64_padding (length b)) = []"
    "dropWhile strict_base64_body (base64_padding (length b)) = base64_padding (length b)"
    by (auto simp: base64_padding_def strict_base64_body_def char_class_defs)
  have "?body \<noteq> []" using assms by (cases "map code b" rule: sextets.cases) auto
  then show ?thesis
    using pad padding_eq[of "length b"] takeWhile_append2[of ?body strict_base64_body]
      dropWhile_append2[of ?body strict_base64_body] body
    unfolding strict_base64_pattern_def base64_encode_def by auto
qed

end
