(* ===== verification/HostPatterns.thy ===== *)
theory HostPatterns
  imports Base64
begin

text \<open>
  Matching a host against the patterns of a known_hosts line (\<^verbatim>\<open>knownHostPatterns.ts\<close>): the
  backtracking matcher for \<^verbatim>\<open>*\<close> and \<^verbatim>\<open>?\<close> as a loop over its index state, hashed hosts,
  and the pattern list with negation. HMAC-SHA1 and SHA-256 are the parameter \<open>crypto\<close>.
  \<open>glob\<close> is the reference definition the matcher is compared with.
\<close>

record crypto =
  hmac_sha1 :: "buffer \<Rightarrow> string \<Rightarrow> buffer"
  sha256 :: "buffer \<Rightarrow> buffer"

record host_pattern_match_state =
  needle_index :: nat
  pattern_index :: nat
  star_index :: "nat option"
  star_needle_index :: nat

definition char_at :: "string \<Rightarrow> nat \<Rightarrow> char option" where
  "char_at s i = (if i < length s then Some (s ! i) else None)"

definition advance_host_pattern_match ::
  "string \<Rightarrow> string \<Rightarrow> host_pattern_match_state \<Rightarrow> host_pattern_match_state option" where
  "advance_host_pattern_match pattern needle st =
     (let pattern_character = char_at pattern (pattern_index st)
      in if pattern_character = Some (CHR ''?'') \<or> pattern_character = char_at needle (needle_index st)
         then Some (st\<lparr>needle_index := needle_index st + 1, pattern_index := pattern_index st + 1\<rparr>)
         else if pattern_character = Some (CHR ''*'')
         then Some (st\<lparr>pattern_index := pattern_index st + 1, star_index := Some (pattern_index st),
                      star_needle_index := needle_index st\<rparr>)
         else (case star_index st of
                 None \<Rightarrow> None
               | Some star \<Rightarrow>
                   (let star_needle = star_needle_index st + 1
                    in Some (st\<lparr>needle_index := star_needle, pattern_index := star + 1,
                               star_needle_index := star_needle\<rparr>))))"

text \<open>
  The \<^verbatim>\<open>while\<close> loop: \<open>None\<close> would be a loop that does not end, \<open>Some None\<close> is the
  \<^verbatim>\<open>return false\<close> inside it.
\<close>

partial_function (option) host_pattern_loop ::
  "string \<Rightarrow> string \<Rightarrow> host_pattern_match_state \<Rightarrow> host_pattern_match_state option option" where
  "host_pattern_loop pattern needle st =
     (if needle_index st < length needle
      then (case advance_host_pattern_match pattern needle st of
              None \<Rightarrow> Some None
            | Some next_state \<Rightarrow> host_pattern_loop pattern needle next_state)
      else Some (Some st))"

declare host_pattern_loop.simps [code]

definition initial_match_state :: host_pattern_match_state where
  "initial_match_state =
     \<lparr>needle_index = 0, pattern_index = 0, star_index = None, star_needle_index = 0\<rparr>"

definition matches_host_pattern :: "string \<Rightarrow> string \<Rightarrow> bool" where
  "matches_host_pattern pattern needle =
     (case host_pattern_loop pattern needle initial_match_state of
        Some (Some st) \<Rightarrow>
          (let trailing = takeWhile (\<lambda>c. c = CHR ''*'') (drop (pattern_index st) pattern)
           in pattern_index st + length trailing = length pattern)
      | _ \<Rightarrow> False)"

definition matches_plain_host_pattern :: "string \<Rightarrow> string \<Rightarrow> bool" where
  "matches_plain_host_pattern pattern needle =
     (if starts_with pattern ''|1|'' then False
      else matches_host_pattern (to_lower pattern) (to_lower needle))"

definition matches_hashed_host :: "crypto \<Rightarrow> string \<Rightarrow> string \<Rightarrow> bool" where
  "matches_hashed_host cr pattern needle =
     (if \<not> starts_with pattern ''|1|'' then False
      else (let parts = split_on (CHR ''|'') pattern
            in if length parts \<noteq> 4 \<or> parts ! 1 \<noteq> ''1'' then False
               else (let salt = base64_decode (parts ! 2);
                         expected_hash = base64_decode (parts ! 3)
                     in if salt = [] \<or> expected_hash = [] then False
                        else hmac_sha1 cr salt needle = expected_hash)))"

fun match_pattern_list :: "crypto \<Rightarrow> bool \<Rightarrow> string list \<Rightarrow> string \<Rightarrow> bool" where
  "match_pattern_list cr matched_positive_pattern [] needle = matched_positive_pattern"
| "match_pattern_list cr matched_positive_pattern (raw_pattern # patterns) needle =
     (let negated = starts_with raw_pattern ''!'';
          pattern = (if negated then drop 1 raw_pattern else raw_pattern)
      in if pattern = [] then match_pattern_list cr matched_positive_pattern patterns needle
         else if \<not> (matches_hashed_host cr pattern needle \<or> matches_plain_host_pattern pattern needle)
         then match_pattern_list cr matched_positive_pattern patterns needle
         else if negated then False
         else match_pattern_list cr True patterns needle)"

definition matches_known_host_pattern_list :: "crypto \<Rightarrow> string list \<Rightarrow> string \<Rightarrow> bool" where
  "matches_known_host_pattern_list cr patterns needle = match_pattern_list cr False patterns needle"

subsection \<open>The reference definition\<close>

fun glob :: "string \<Rightarrow> string \<Rightarrow> bool" where
  "glob [] [] = True"
| "glob [] (c # cs) = False"
| "glob (p # ps) [] = (p = CHR ''*'' \<and> glob ps [])"
| "glob (p # ps) (c # cs) =
     (if p = CHR ''*'' then glob ps (c # cs) \<or> glob (p # ps) cs
      else (p = CHR ''?'' \<or> p = c) \<and> glob ps cs)"

lemma glob_star: "glob (CHR ''*'' # ps) s \<longleftrightarrow> (\<exists>j \<le> length s. glob ps (drop j s))"
proof (induction s)
  case (Cons c cs)
  have "(\<exists>j \<le> length (c # cs). glob ps (drop j (c # cs))) \<longleftrightarrow>
      glob ps (c # cs) \<or> (\<exists>j \<le> length cs. glob ps (drop j cs))"
  proof
    assume "\<exists>j \<le> length (c # cs). glob ps (drop j (c # cs))"
    then obtain j where "j \<le> length (c # cs)" "glob ps (drop j (c # cs))" by blast
    then show "glob ps (c # cs) \<or> (\<exists>j \<le> length cs. glob ps (drop j cs))" by (cases j) auto
  next
    assume "glob ps (c # cs) \<or> (\<exists>j \<le> length cs. glob ps (drop j cs))"
    then show "\<exists>j \<le> length (c # cs). glob ps (drop j (c # cs))"
      by (metis Suc_le_mono drop0 drop_Suc_Cons le0 length_Cons)
  qed
  then show ?case using Cons by simp
qed simp

lemma glob_literal:
  "CHR ''*'' \<notin> set seg \<Longrightarrow> glob (seg @ ps) s \<Longrightarrow> length seg \<le> length s \<and> glob ps (drop (length seg) s)"
proof (induction seg arbitrary: s)
  case (Cons p seg)
  then show ?case by (cases s) auto
qed simp

lemma glob_nil: "glob ps [] \<longleftrightarrow> (\<forall>c \<in> set ps. c = CHR ''*'')"
  by (induction ps) auto

subsection \<open>The matcher is the reference definition\<close>

text \<open>
  \<open>match_ok\<close> is the invariant of the loop: since the last star the pattern and the needle
  have advanced together over pattern characters that are not stars.
\<close>

definition match_ok :: "string \<Rightarrow> string \<Rightarrow> host_pattern_match_state \<Rightarrow> bool" where
  "match_ok P N st \<longleftrightarrow>
     needle_index st \<le> length N \<and> pattern_index st \<le> length P \<and>
     (case star_index st of
        None \<Rightarrow> True
      | Some s \<Rightarrow>
          s < pattern_index st \<and> star_needle_index st \<le> needle_index st \<and>
          pattern_index st - (s + 1) = needle_index st - star_needle_index st \<and>
          CHR ''*'' \<notin> set (take (pattern_index st - (s + 1)) (drop (s + 1) P)))"

text \<open>What is still to be found out: the current attempt, or a later one from the star.\<close>

definition match_goal :: "string \<Rightarrow> string \<Rightarrow> host_pattern_match_state \<Rightarrow> bool" where
  "match_goal P N st \<longleftrightarrow>
     glob (drop (pattern_index st) P) (drop (needle_index st) N) \<or>
     (case star_index st of
        None \<Rightarrow> False
      | Some s \<Rightarrow> \<exists>j. star_needle_index st < j \<and> j \<le> length N \<and> glob (drop (s + 1) P) (drop j N))"

definition match_order :: "string \<Rightarrow> string \<Rightarrow> (host_pattern_match_state \<times> host_pattern_match_state) set" where
  "match_order P N = measures
     [\<lambda>st. length P - (case star_index st of None \<Rightarrow> 0 | Some s \<Rightarrow> s + 1),
      \<lambda>st. length N - star_needle_index st,
      \<lambda>st. length P - pattern_index st]"

lemma star_segment:
  assumes "match_ok P N st" "star_index st = Some s" "glob (drop (s + 1) P) (drop j N)"
    "star_needle_index st < j" "j \<le> length N"
  shows "\<exists>k. needle_index st < k \<and> k \<le> length N \<and> glob (drop (pattern_index st) P) (drop k N)"
proof -
  let ?p = "pattern_index st" and ?L = "pattern_index st - (s + 1)"
  let ?seg = "take ?L (drop (s + 1) P)"
  have inv: "s < ?p" "?p \<le> length P" "?L = needle_index st - star_needle_index st"
    "star_needle_index st \<le> needle_index st" "CHR ''*'' \<notin> set ?seg"
    using assms(1,2) by (auto simp: match_ok_def)
  have "drop (s + 1) P = ?seg @ drop ?p P"
    using inv(1) append_take_drop_id[of ?L "drop (s + 1) P"] by (simp add: add.commute)
  then have "glob (?seg @ drop ?p P) (drop j N)" using assms(3) by simp
  then have "length ?seg \<le> length (drop j N) \<and> glob (drop ?p P) (drop (length ?seg) (drop j N))"
    using glob_literal[OF inv(5)] by blast
  moreover have "length ?seg = ?L" using inv(1,2) by simp
  ultimately have "?L \<le> length N - j" "glob (drop ?p P) (drop (j + ?L) N)"
    by (simp_all add: add.commute)
  then show ?thesis using inv(3,4) assms(4,5) by (intro exI[of _ "j + ?L"]) auto
qed

lemma advance_match:
  assumes ok: "match_ok P N st" and in_needle: "needle_index st < length N" and star: "CHR ''*'' \<notin> set N"
  shows "case advance_host_pattern_match P N st of
      None \<Rightarrow> \<not> match_goal P N st
    | Some st' \<Rightarrow> match_ok P N st' \<and> (match_goal P N st' \<longleftrightarrow> match_goal P N st) \<and> (st', st) \<in> match_order P N"
proof -
  let ?p = "pattern_index st" and ?n = "needle_index st"
  have N: "drop ?n N = N ! ?n # drop (?n + 1) N" using in_needle Cons_nth_drop_Suc[of ?n N] by simp
  have nostar: "N ! ?n \<noteq> CHR ''*''" using in_needle star by (metis nth_mem)
  have at_n: "char_at N ?n = Some (N ! ?n)" using in_needle by (simp add: char_at_def)
  consider (literal) "?p < length P" "P ! ?p = CHR ''?'' \<or> P ! ?p = N ! ?n"
    | (star) "?p < length P" "P ! ?p = CHR ''*''"
    | (mismatch) "?p < length P \<Longrightarrow> P ! ?p \<noteq> CHR ''?'' \<and> P ! ?p \<noteq> N ! ?n \<and> P ! ?p \<noteq> CHR ''*''"
    by blast
  then show ?thesis
  proof cases
    case literal
    have P: "drop ?p P = P ! ?p # drop (?p + 1) P" using literal Cons_nth_drop_Suc[of ?p P] by simp
    have p: "P ! ?p \<noteq> CHR ''*''" using literal nostar by auto
    let ?st' = "st\<lparr>needle_index := ?n + 1, pattern_index := ?p + 1\<rparr>"
    have adv: "advance_host_pattern_match P N st = Some ?st'"
      using literal at_n by (auto simp: advance_host_pattern_match_def char_at_def)
    have "glob (drop ?p P) (drop ?n N) \<longleftrightarrow> glob (drop (?p + 1) P) (drop (?n + 1) N)"
      unfolding P N using literal p by auto
    then have goal: "match_goal P N ?st' \<longleftrightarrow> match_goal P N st"
      by (cases "star_index st") (simp_all add: match_goal_def)
    have "match_ok P N ?st'"
    proof (cases "star_index st")
      case None then show ?thesis using ok literal in_needle by (simp add: match_ok_def)
    next
      case (Some s)
      then have s: "s < ?p" "star_needle_index st \<le> ?n" "?p - (s + 1) = ?n - star_needle_index st"
        "CHR ''*'' \<notin> set (take (?p - (s + 1)) (drop (s + 1) P))"
        using ok by (auto simp: match_ok_def)
      have "take (?p + 1 - (s + 1)) (drop (s + 1) P) = take (?p - (s + 1)) (drop (s + 1) P) @ [P ! ?p]"
        using s(1) literal take_Suc_conv_app_nth[of "?p - (s + 1)" "drop (s + 1) P"]
        by (simp add: Suc_diff_Suc)
      then show ?thesis using s p literal in_needle Some by (auto simp: match_ok_def)
    qed
    moreover have "(?st', st) \<in> match_order P N" using literal by (simp add: match_order_def)
    ultimately show ?thesis using adv goal by simp
  next
    case star: star
    have P: "drop ?p P = CHR ''*'' # drop (?p + 1) P"
      using star Cons_nth_drop_Suc[of ?p P] by simp
    let ?st' = "st\<lparr>pattern_index := ?p + 1, star_index := Some ?p, star_needle_index := ?n\<rparr>"
    have adv: "advance_host_pattern_match P N st = Some ?st'"
      using star at_n nostar by (auto simp: advance_host_pattern_match_def char_at_def)
    have reach: "glob (drop ?p P) (drop ?n N) \<longleftrightarrow>
        (\<exists>j. ?n \<le> j \<and> j \<le> length N \<and> glob (drop (?p + 1) P) (drop j N))"
    proof -
      have "glob (drop ?p P) (drop ?n N) \<longleftrightarrow>
          (\<exists>i \<le> length (drop ?n N). glob (drop (?p + 1) P) (drop i (drop ?n N)))"
        unfolding P by (rule glob_star)
      also have "\<dots> \<longleftrightarrow> (\<exists>j. ?n \<le> j \<and> j \<le> length N \<and> glob (drop (?p + 1) P) (drop j N))"
      proof
        assume "\<exists>i \<le> length (drop ?n N). glob (drop (?p + 1) P) (drop i (drop ?n N))"
        then obtain i where "i \<le> length N - ?n" "glob (drop (?p + 1) P) (drop (i + ?n) N)" by auto
        then show "\<exists>j. ?n \<le> j \<and> j \<le> length N \<and> glob (drop (?p + 1) P) (drop j N)"
          using in_needle by (intro exI[of _ "i + ?n"]) auto
      next
        assume "\<exists>j. ?n \<le> j \<and> j \<le> length N \<and> glob (drop (?p + 1) P) (drop j N)"
        then obtain j where "?n \<le> j" "j \<le> length N" "glob (drop (?p + 1) P) (drop j N)" by blast
        then show "\<exists>i \<le> length (drop ?n N). glob (drop (?p + 1) P) (drop i (drop ?n N))"
          by (intro exI[of _ "j - ?n"]) auto
      qed
      finally show ?thesis .
    qed
    have new: "match_goal P N ?st' \<longleftrightarrow> glob (drop ?p P) (drop ?n N)"
      unfolding reach match_goal_def using in_needle
      by (auto simp: le_less)
    have "match_goal P N st \<longrightarrow> glob (drop ?p P) (drop ?n N)"
    proof (cases "star_index st")
      case None then show ?thesis by (simp add: match_goal_def)
    next
      case (Some s)
      show ?thesis
      proof
        assume "match_goal P N st"
        then consider "glob (drop ?p P) (drop ?n N)"
          | j where "star_needle_index st < j" "j \<le> length N" "glob (drop (s + 1) P) (drop j N)"
          using Some by (auto simp: match_goal_def)
        then show "glob (drop ?p P) (drop ?n N)"
        proof cases
          case (2 j)
          then obtain k where k: "?n < k" "k \<le> length N" "glob (drop ?p P) (drop k N)"
            using star_segment[OF ok Some] by blast
          then obtain i where "i \<le> length (drop k N)" "glob (drop (?p + 1) P) (drop i (drop k N))"
            unfolding P glob_star by blast
          then show ?thesis unfolding reach using k by (intro exI[of _ "i + k"]) (auto simp: add.commute)
        qed
      qed
    qed
    then have goal: "match_goal P N ?st' \<longleftrightarrow> match_goal P N st"
      unfolding new by (auto simp: match_goal_def)
    have "match_ok P N ?st'" using star ok by (simp add: match_ok_def)
    moreover have "(?st', st) \<in> match_order P N"
      using star ok by (auto simp: match_order_def match_ok_def split: option.splits)
    ultimately show ?thesis using adv goal by simp
  next
    case mismatch
    have no: "\<not> glob (drop ?p P) (drop ?n N)"
    proof (cases "?p < length P")
      case True
      then have "drop ?p P = P ! ?p # drop (?p + 1) P" using Cons_nth_drop_Suc[of ?p P] by simp
      then show ?thesis unfolding N using mismatch[OF True] by simp
    next
      case False then show ?thesis unfolding N by simp
    qed
    have at: "char_at P ?p \<noteq> Some (CHR ''?'')" "char_at P ?p \<noteq> char_at N ?n" "char_at P ?p \<noteq> Some (CHR ''*'')"
      using mismatch at_n by (auto simp: char_at_def)
    show ?thesis
    proof (cases "star_index st")
      case None
      then show ?thesis using no at by (simp add: advance_host_pattern_match_def match_goal_def)
    next
      case (Some s)
      let ?m = "star_needle_index st"
      let ?st' = "st\<lparr>needle_index := ?m + 1, pattern_index := s + 1, star_needle_index := ?m + 1\<rparr>"
      have adv: "advance_host_pattern_match P N st = Some ?st'"
        using at Some by (simp add: advance_host_pattern_match_def Let_def)
      have m: "?m + 1 \<le> length N" "s < ?p" "?p \<le> length P"
        using ok in_needle Some by (auto simp: match_ok_def)
      have goal: "match_goal P N ?st' \<longleftrightarrow> match_goal P N st"
      proof -
        have "(\<exists>j. ?m < j \<and> j \<le> length N \<and> Q j) \<longleftrightarrow>
            Q (?m + 1) \<or> (\<exists>j. ?m + 1 < j \<and> j \<le> length N \<and> Q j)" for Q
          using m(1) by (metis Suc_eq_plus1 Suc_lessD Suc_lessI lessI)
        then show ?thesis using no Some by (simp add: match_goal_def)
      qed
      have "match_ok P N ?st'" using m Some by (simp add: match_ok_def)
      moreover have "(?st', st) \<in> match_order P N"
        using m Some by (auto simp: match_order_def)
      ultimately show ?thesis using adv goal by simp
    qed
  qed
qed


lemma wf_match_order: "wf (match_order P N)"
  by (simp add: match_order_def)

lemma match_end:
  assumes ok: "match_ok P N st" and done_: "\<not> needle_index st < length N"
  shows "match_goal P N st \<longleftrightarrow>
    pattern_index st + length (takeWhile (\<lambda>c. c = CHR ''*'') (drop (pattern_index st) P)) = length P"
proof -
  let ?p = "pattern_index st"
  have n: "needle_index st = length N" and p: "?p \<le> length P" using ok done_ by (auto simp: match_ok_def)
  have "match_goal P N st \<longleftrightarrow> glob (drop ?p P) []"
  proof (cases "star_index st")
    case (Some s)
    have "\<not> (star_needle_index st < j \<and> j \<le> length N \<and> glob (drop (s + 1) P) (drop j N))" for j
      using star_segment[OF ok Some, of j] n by auto
    then show ?thesis using Some n by (auto simp: match_goal_def)
  qed (simp add: match_goal_def n)
  also have "\<dots> \<longleftrightarrow> takeWhile (\<lambda>c. c = CHR ''*'') (drop ?p P) = drop ?p P"
    unfolding glob_nil by (simp add: takeWhile_eq_all_conv)
  also have "\<dots> \<longleftrightarrow> ?p + length (takeWhile (\<lambda>c. c = CHR ''*'') (drop ?p P)) = length P"
    using p by (metis add_diff_cancel_left' diff_add_inverse2 le_add_diff_inverse length_drop
        length_takeWhile_le takeWhile_eq_take take_all_iff order_refl)
  finally show ?thesis .
qed

lemma host_pattern_loop_result:
  assumes "match_ok P N st" and star: "CHR ''*'' \<notin> set N"
  shows "\<exists>r. host_pattern_loop P N st = Some r \<and>
    (case r of None \<Rightarrow> \<not> match_goal P N st
     | Some end_state \<Rightarrow> match_ok P N end_state \<and> \<not> needle_index end_state < length N \<and>
         (match_goal P N end_state \<longleftrightarrow> match_goal P N st))"
  using assms(1)
proof (induction st rule: wf_induct_rule[OF wf_match_order[of P N]])
  case (1 st)
  show ?case
  proof (cases "needle_index st < length N")
    case True
    show ?thesis
    proof (cases "advance_host_pattern_match P N st")
      case None
      then show ?thesis using advance_match[OF 1(2) True star] True
        by (subst host_pattern_loop.simps) simp
    next
      case (Some st')
      then have next_ok: "match_ok P N st'" "match_goal P N st' \<longleftrightarrow> match_goal P N st"
        "(st', st) \<in> match_order P N"
        using advance_match[OF 1(2) True star] by simp_all
      show ?thesis using 1(1)[OF next_ok(3,1), unfolded next_ok(2)] True Some
        by (subst host_pattern_loop.simps) simp
    qed
  next
    case False
    then show ?thesis using 1(2) by (subst host_pattern_loop.simps) simp
  qed
qed

lemma matches_host_pattern_glob:
  assumes "CHR ''*'' \<notin> set N"
  shows "matches_host_pattern P N \<longleftrightarrow> glob P N"
proof -
  have ok: "match_ok P N initial_match_state" by (simp add: match_ok_def initial_match_state_def)
  have goal: "match_goal P N initial_match_state \<longleftrightarrow> glob P N"
    by (simp add: match_goal_def initial_match_state_def)
  obtain r where r: "host_pattern_loop P N initial_match_state = Some r"
    and res: "case r of None \<Rightarrow> \<not> glob P N
     | Some st \<Rightarrow> match_ok P N st \<and> \<not> needle_index st < length N \<and> (match_goal P N st \<longleftrightarrow> glob P N)"
    using host_pattern_loop_result[OF ok assms] unfolding goal by blast
  show ?thesis
  proof (cases r)
    case None then show ?thesis using r res by (simp add: matches_host_pattern_def)
  next
    case (Some st)
    then show ?thesis using r res match_end[of P N st]
      by (simp add: matches_host_pattern_def Let_def)
  qed
qed

subsection \<open>Properties\<close>

text \<open>
  C23: the backtracking matcher always ends and is exactly the textbook matching of \<open>*\<close> and
  \<open>?\<close>, for every pattern and every host without a star; valid hosts have none.
\<close>

theorem host_pattern_matcher_correct:
  assumes "CHR ''*'' \<notin> set needle"
  shows "(\<exists>r. host_pattern_loop pattern needle initial_match_state = Some r) \<and>
    (matches_host_pattern pattern needle \<longleftrightarrow> glob pattern needle)"
  using host_pattern_loop_result[of pattern needle initial_match_state] assms
    matches_host_pattern_glob[OF assms]
  by (auto simp: match_ok_def initial_match_state_def)

theorem host_pattern_matcher_correct_witness:
  "matches_host_pattern ''*.ex?mple.*'' ''a.example.example.org'' \<and>
   \<not> matches_host_pattern ''*.ex?mple'' ''a.example.org''"
proof -
  have "glob ''*.ex?mple.*'' ''a.example.example.org''" "\<not> glob ''*.ex?mple'' ''a.example.org''"
    by code_simp+
  then show ?thesis
    using host_pattern_matcher_correct[of "''a.example.example.org''" "''*.ex?mple.*''"]
      host_pattern_matcher_correct[of "''a.example.org''" "''*.ex?mple''"] by simp
qed

text \<open>The effect of one pattern of a list.\<close>

definition pattern_matches :: "crypto \<Rightarrow> string \<Rightarrow> string \<Rightarrow> bool" where
  "pattern_matches cr pattern needle \<longleftrightarrow> pattern \<noteq> [] \<and>
     (if starts_with pattern ''|1|'' then matches_hashed_host cr pattern needle
      else glob (to_lower pattern) (to_lower needle))"

lemma lower_star: "lower_char c = CHR ''*'' \<longleftrightarrow> c = CHR ''*''"
proof -
  have "code (lower_char c) = 42 \<longleftrightarrow> code c = 42"
    using code_lt[of c]
    by (auto simp: lower_char_def is_upper_def char_between_def) (auto simp: code_def)
  moreover have "d = CHR ''*'' \<longleftrightarrow> code d = 42" for d
  proof -
    have "d = CHR ''*'' \<longleftrightarrow> code d = code (CHR ''*'')" by (metis char_of_code)
    moreover have "code (CHR ''*'') = 42" by (simp add: code_def)
    ultimately show ?thesis by simp
  qed
  ultimately show ?thesis by simp
qed

lemma to_lower_star: "CHR ''*'' \<in> set (to_lower s) \<longleftrightarrow> CHR ''*'' \<in> set s"
proof -
  have "CHR ''*'' \<in> set (to_lower s) \<longleftrightarrow> (\<exists>c \<in> set s. lower_char c = CHR ''*'')"
    by (auto simp: to_lower_def) (metis imageI)
  then show ?thesis by (simp add: lower_star)
qed

lemma one_pattern:
  assumes "CHR ''*'' \<notin> set needle"
  shows "pattern \<noteq> [] \<and> (matches_hashed_host cr pattern needle \<or> matches_plain_host_pattern pattern needle)
    \<longleftrightarrow> pattern_matches cr pattern needle"
  using matches_host_pattern_glob[of "to_lower needle" "to_lower pattern"] to_lower_star[of needle] assms
  by (auto simp: pattern_matches_def matches_plain_host_pattern_def matches_hashed_host_def)

lemma match_pattern_list_iff:
  assumes "CHR ''*'' \<notin> set needle"
  shows "match_pattern_list cr b patterns needle \<longleftrightarrow>
    (b \<or> (\<exists>p \<in> set patterns. \<not> starts_with p ''!'' \<and> pattern_matches cr p needle)) \<and>
    \<not> (\<exists>p \<in> set patterns. starts_with p ''!'' \<and> pattern_matches cr (drop 1 p) needle)"
proof (induction patterns arbitrary: b)
  case (Cons p ps)
  show ?case
    using one_pattern[OF assms, of "drop 1 p"] one_pattern[OF assms, of p] Cons.IH
    by (cases "starts_with p ''!''") (auto simp: Let_def)
qed simp

text \<open>
  a list of patterns matches a host exactly when some pattern matches and no negated one
  does, wherever the negated one stands in the list.
\<close>

theorem pattern_list_negation_wins:
  assumes "CHR ''*'' \<notin> set needle"
  shows "matches_known_host_pattern_list cr patterns needle \<longleftrightarrow>
    list_ex (\<lambda>p. \<not> starts_with p ''!'' \<and> pattern_matches cr p needle) patterns \<and>
    \<not> list_ex (\<lambda>p. starts_with p ''!'' \<and> pattern_matches cr (drop 1 p) needle) patterns"
  using match_pattern_list_iff[OF assms, of cr False patterns]
  by (auto simp: matches_known_host_pattern_list_def list_ex_iff)

theorem pattern_list_negation_wins_witness:
  "\<forall>cr. \<not> matches_known_host_pattern_list cr [''*.example.org'', ''!bad.example.org''] ''bad.example.org''"
proof
  fix cr
  have "pattern_matches cr (drop 1 ''!bad.example.org'') ''bad.example.org''"
    by (simp add: pattern_matches_def starts_with_def) code_simp
  then show "\<not> matches_known_host_pattern_list cr [''*.example.org'', ''!bad.example.org''] ''bad.example.org''"
    using pattern_list_negation_wins[of "''bad.example.org''" cr "[''*.example.org'', ''!bad.example.org'']"]
    by (simp add: starts_with_def)
qed

text \<open>
  The matcher compares a star of the pattern with a star of the host before it takes it for a
  wildcard, so outside valid hosts it is not the textbook matching.
\<close>

lemma star_in_needle_is_literal:
  "advance_host_pattern_match ''*'' ''*a'' initial_match_state =
     Some (initial_match_state\<lparr>needle_index := 1, pattern_index := 1\<rparr>) \<and> glob ''*'' ''*a''"
  by code_simp

end
