(* ===== verification/KnownHosts.thy ===== *)
theory KnownHosts
  imports HostPatterns HostLabel ShellText
begin

text \<open>
  Host key verification (\<^verbatim>\<open>knownHosts.ts\<close>, \<^verbatim>\<open>hostCertificates.ts\<close>): parsing the known_hosts
  file, the lookup of the entries of a host, the verdict on a raw key or a certificate in the
  three modes, pins, and the trust on first use that is written to the file. The file, its
  failures, the per-connection cache and the warnings are the state \<open>trust_store\<close>; the
  in-process lock makes every access to the file one step. Dashes of the warnings are written
  with their Windows-1252 code 0x97.
\<close>

subsection \<open>Entries\<close>

record known_host_entry =
  kh_algo :: string
  kh_host :: string
  kh_patterns :: "string list"
  kh_key :: buffer
  kh_marker :: "string option"

text \<open>\<^verbatim>\<open>text.split(/\s+/)\<close>\<close>

function split_spaces :: "string \<Rightarrow> string list" where
  "split_spaces s =
     (let field = takeWhile (\<lambda>c. \<not> js_space c) s;
          rest = dropWhile (\<lambda>c. \<not> js_space c) s
      in if rest = [] then [field] else field # split_spaces (dropWhile js_space rest))"
  by auto

termination
proof (relation "measure length")
  fix s field rest :: string
  assume "rest = dropWhile (\<lambda>c. \<not> js_space c) s" "rest \<noteq> []"
  then have "js_space (hd rest)" using hd_dropWhile by metis
  then have "length (dropWhile js_space rest) < length rest"
    using \<open>rest \<noteq> []\<close> by (cases rest) (auto simp: less_Suc_eq_le length_dropWhile_le)
  also have "length rest \<le> length s" using \<open>rest = _\<close> length_dropWhile_le by metis
  finally show "(dropWhile js_space rest, s) \<in> measure length" by simp
qed simp

declare split_spaces.simps [simp del]

definition parse_known_hosts_line :: "string \<Rightarrow> known_host_entry list" where
  "parse_known_hosts_line line =
     (let parts = split_spaces line;
          offset = (if starts_with (parts ! 0) ''@'' then 1 else 0)
      in if length parts < 3 + offset then []
         else (let marker = (if offset = 1 then Some (parts ! 0) else None);
                   hosts_part = parts ! offset;
                   algo = parts ! (offset + 1);
                   base64_key = parts ! (offset + 2)
               in if \<not> strict_base64_pattern base64_key then []
                  else (let key = base64_decode base64_key;
                            host_patterns = split_on (CHR '','') hosts_part
                        in map (\<lambda>host. \<lparr>kh_algo = algo, kh_host = host, kh_patterns = host_patterns,
                                        kh_key = key, kh_marker = marker\<rparr>) host_patterns)))"

definition parse_known_hosts :: "string \<Rightarrow> known_host_entry list" where
  "parse_known_hosts content =
     concat (map (\<lambda>raw. let line = trim raw
                        in if line = [] \<or> starts_with line ''#'' then [] else parse_known_hosts_line line)
              (split_on newline content))"

definition format_host_needle :: "string \<Rightarrow> int \<Rightarrow> string" where
  "format_host_needle host port =
     (if port = 22 then host else ''['' @ host @ '']:'' @ show_int port)"

definition assert_safe_host_for_known_hosts :: "string \<Rightarrow> unit result" where
  "assert_safe_host_for_known_hosts host =
     (case validate_host_label (Some host) of
        None \<Rightarrow> Inr ()
      | Some failure \<Rightarrow>
          Inl (KnownHostsErr (''Refusing to persist known_hosts entry: host label ''
                 @ describe_host_validation_failure failure)))"

definition matches_known_host_entry :: "crypto \<Rightarrow> known_host_entry \<Rightarrow> string \<Rightarrow> bool" where
  "matches_known_host_entry cr entry needle = matches_known_host_pattern_list cr (kh_patterns entry) needle"

definition find_matching_entries ::
  "crypto \<Rightarrow> known_host_entry list \<Rightarrow> string \<Rightarrow> int \<Rightarrow> known_host_entry list" where
  "find_matching_entries cr entries host port =
     filter (\<lambda>entry. matches_known_host_entry cr entry (format_host_needle host port)) entries"

definition lookup_host_entry ::
  "crypto \<Rightarrow> known_host_entry list \<Rightarrow> string \<Rightarrow> int \<Rightarrow> known_host_entry option" where
  "lookup_host_entry cr entries host port =
     List.find (\<lambda>entry. kh_marker entry = None) (find_matching_entries cr entries host port)"

definition lookup_host_key :: "crypto \<Rightarrow> known_host_entry list \<Rightarrow> string \<Rightarrow> int \<Rightarrow> buffer option" where
  "lookup_host_key cr entries host port = map_option kh_key (lookup_host_entry cr entries host port)"

subsection \<open>Keys on the wire\<close>

text \<open>Decoding bytes as ASCII clears the high bit.\<close>

definition ascii_decode :: "buffer \<Rightarrow> string" where
  "ascii_decode b = map (\<lambda>c. char_of (code c mod 128)) b"

definition read_uint32 :: "buffer \<Rightarrow> nat" where
  "read_uint32 b = code (b ! 0) * 16777216 + code (b ! 1) * 65536 + code (b ! 2) * 256 + code (b ! 3)"

definition write_uint32 :: "nat \<Rightarrow> buffer" where
  "write_uint32 n = [char_of (n div 16777216 mod 256), char_of (n div 65536 mod 256),
                     char_of (n div 256 mod 256), char_of (n mod 256)]"

definition pinned_host_key_algorithm_pattern :: "string \<Rightarrow> bool" where
  "pinned_host_key_algorithm_pattern algo \<longleftrightarrow>
     algo \<in> set [''ssh-ed25519'', ''ssh-rsa'', ''ecdsa-sha2-nistp256'', ''ecdsa-sha2-nistp384'',
                 ''ecdsa-sha2-nistp521'']"

definition extract_algo_from_key :: "buffer \<Rightarrow> string result" where
  "extract_algo_from_key key_buffer =
     (if length key_buffer < 4
      then Inl (GenericError ''Invalid SSH key buffer: too short to contain algorithm length'')
      else (let algo_length = read_uint32 key_buffer
            in if algo_length = 0 \<or> length key_buffer < 4 + algo_length
               then Inl (GenericError ''Invalid SSH key buffer: algorithm length exceeds buffer size'')
               else (let algo = ascii_decode (take algo_length (drop 4 key_buffer))
                     in if \<not> pinned_host_key_algorithm_pattern algo
                        then Inl (KnownHostsErr (''Invalid SSH key buffer: unsupported algorithm ''
                               @ [squote] @ algo @ [squote]))
                        else Inr algo)))"

definition describe_algo_for_diagnostics :: "buffer \<Rightarrow> string" where
  "describe_algo_for_diagnostics key_buffer =
     (case extract_algo_from_key key_buffer of Inl _ \<Rightarrow> ''<unknown>'' | Inr algo \<Rightarrow> algo)"

definition compute_fingerprint :: "crypto \<Rightarrow> buffer \<Rightarrow> string" where
  "compute_fingerprint cr key =
     ''SHA256:'' @ filter (\<lambda>c. c \<noteq> CHR ''='') (base64_encode (sha256 cr key))"

text \<open>\<^verbatim>\<open>readString\<close>: the next length-prefixed field, \<open>None\<close> for its throw.\<close>

definition read_string :: "buffer \<Rightarrow> (buffer \<times> buffer) option" where
  "read_string b =
     (if length b < 4 then None
      else (let n = read_uint32 b
            in if length b - 4 < n then None else Some (take n (drop 4 b), drop (4 + n) b)))"

definition write_string :: "buffer \<Rightarrow> buffer" where
  "write_string value = write_uint32 (length value) @ value"

definition cert_suffix :: string where
  "cert_suffix = ''-cert-v01@openssh.com''"

text \<open>\<^verbatim>\<open>text.replace(pattern, "")\<close> with a string pattern removes its first occurrence.\<close>

fun remove_first :: "string \<Rightarrow> string \<Rightarrow> string" where
  "remove_first pat [] = []"
| "remove_first pat (c # cs) =
     (if starts_with (c # cs) pat then drop (length pat) (c # cs) else c # remove_first pat cs)"

fun read_strings :: "nat \<Rightarrow> buffer \<Rightarrow> (buffer list \<times> buffer) option" where
  "read_strings 0 b = Some ([], b)"
| "read_strings (Suc n) b =
     (case read_string b of
        None \<Rightarrow> None
      | Some (v, rest) \<Rightarrow>
          (case read_strings n rest of None \<Rightarrow> None | Some (vs, r) \<Rightarrow> Some (v # vs, r)))"

definition normalize_revoked_key :: "buffer \<Rightarrow> buffer" where
  "normalize_revoked_key key =
     (case read_string key of
        None \<Rightarrow> key
      | Some (name, rest) \<Rightarrow>
          (let algorithm = ascii_decode name
           in if \<not> ends_with algorithm cert_suffix then key
              else (let raw_algorithm = remove_first cert_suffix algorithm
                    in case read_string rest of
                         None \<Rightarrow> key
                       | Some (nonce, rest2) \<Rightarrow>
                           (let field_count = (if raw_algorithm = ''ssh-ed25519'' then 1 else 2)
                            in if \<not> pinned_host_key_algorithm_pattern raw_algorithm then key
                               else (case read_strings field_count rest2 of
                                       None \<Rightarrow> key
                                     | Some (key_fields, _) \<Rightarrow>
                                         concat (map write_string (raw_algorithm # key_fields)))))))"

subsection \<open>Verdicts\<close>

definition find_revoked_entry :: "known_host_entry list \<Rightarrow> buffer \<Rightarrow> known_host_entry option" where
  "find_revoked_entry entries key =
     List.find (\<lambda>entry. kh_marker entry = Some ''@revoked'' \<and> normalize_revoked_key (kh_key entry) = key)
       entries"

definition host_key_mismatch :: "string \<Rightarrow> buffer \<Rightarrow> buffer option \<Rightarrow> exn" where
  "host_key_mismatch host presented_key existing_key =
     HostKeyErr (''HOST KEY VERIFICATION FAILED for '' @ host @ '': ''
       @ (case existing_key of
            None \<Rightarrow> ''remote host key does not match the key in known_hosts. ''
          | Some k \<Rightarrow> ''remote host key ('' @ describe_algo_for_diagnostics presented_key
                @ '') does not match the key in known_hosts ('' @ describe_algo_for_diagnostics k
                @ ''). '')
       @ ''This could indicate a man-in-the-middle attack.'')"

definition verify_host_key_against_known_entries ::
  "buffer option \<Rightarrow> known_host_entry list \<Rightarrow> string \<Rightarrow> buffer \<Rightarrow> bool result" where
  "verify_host_key_against_known_entries cached_key file_entries host key =
     (case find_revoked_entry file_entries key of
        Some revoked \<Rightarrow>
          Inl (HostKeyErr (''HOST KEY VERIFICATION FAILED for '' @ host @ '': remote host key (''
                 @ describe_algo_for_diagnostics (kh_key revoked)
                 @ '') is marked as revoked in known_hosts.''))
      | None \<Rightarrow>
          (let raw_host_key_entries = filter (\<lambda>entry. kh_marker entry = None) file_entries
           in if list_ex (\<lambda>entry. kh_key entry = key) raw_host_key_entries then Inr True
              else if cached_key = Some key then Inr True
              else (case raw_host_key_entries of
                      entry # _ \<Rightarrow> Inl (host_key_mismatch host key (Some (kh_key entry)))
                    | [] \<Rightarrow>
                        (case cached_key of
                           Some k \<Rightarrow> Inl (host_key_mismatch host key (Some k))
                         | None \<Rightarrow> Inr False))))"

definition normalize_pinned_public_key :: "string \<Rightarrow> string result" where
  "normalize_pinned_public_key public_key =
     (let parts = split_spaces (trim public_key)
      in if length parts < 2
         then Inl (GenericError (''Expected host public key must use the format ''
                @ [squote] @ ''<algorithm> <base64>'' @ [squote]))
         else (let algorithm = parts ! 0; key = parts ! 1
               in if \<not> pinned_host_key_algorithm_pattern algorithm
                  then Inl (GenericError (''Expected host public key uses unsupported algorithm ''
                         @ [squote] @ algorithm @ [squote] @ ''. Supported algorithms: ssh-ed25519, ''
                         @ ''ssh-rsa, ecdsa-sha2-nistp256, ecdsa-sha2-nistp384, ecdsa-sha2-nistp521.''))
                  else if \<not> strict_base64_pattern key
                  then Inl (GenericError (''Expected host public key contains invalid base64 in the key ''
                         @ ''field. Use the exact value from `ssh-keygen -y` or the second field of an ''
                         @ ''OpenSSH known_hosts line.''))
                  else Inr (algorithm @ '' '' @ key)))"

definition validate_expected_host_public_key :: "string \<Rightarrow> string option" where
  "validate_expected_host_public_key public_key =
     (case normalize_pinned_public_key public_key of Inr _ \<Rightarrow> None | Inl e \<Rightarrow> Some (exn_message e))"

definition format_presented_public_key :: "buffer \<Rightarrow> string option" where
  "format_presented_public_key key =
     (case extract_algo_from_key key of
        Inl _ \<Rightarrow> None
      | Inr algo \<Rightarrow> Some (algo @ '' '' @ base64_encode key))"

record verifier_options =
  vo_fingerprint :: "string option"
  vo_public_key :: "string option"

definition has_pinned_host_trust_anchor :: "verifier_options \<Rightarrow> bool" where
  "has_pinned_host_trust_anchor options \<longleftrightarrow> vo_fingerprint options \<noteq> None \<or> vo_public_key options \<noteq> None"



subsection \<open>Certificates\<close>





subsection \<open>The trust store\<close>

datatype known_hosts_file =
    FileMissing
  | FileReadable nat string
  | FileUnreadable exn

record trust_store =
  ts_path :: string
  ts_file :: known_hosts_file
  ts_mkdir_error :: "exn option"
  ts_append_error :: "exn option"
  ts_cache :: "string \<rightharpoonup> buffer"
  ts_stderr :: "string list"

definition known_hosts_file_byte_limit :: nat where
  "known_hosts_file_byte_limit = 16777216"

definition load_known_host_entries :: "bool \<Rightarrow> trust_store \<Rightarrow> known_host_entry list result" where
  "load_known_host_entries require_existing ts =
     (case ts_file ts of
        FileReadable file_size content \<Rightarrow>
          if known_hosts_file_byte_limit < file_size
          then Inl (HostKeyErr (''Refusing to read known_hosts at '' @ ts_path ts @ '': size ''
                 @ show_nat file_size @ '' bytes exceeds the '' @ show_nat known_hosts_file_byte_limit
                 @ ''-byte cap''))
          else Inr (parse_known_hosts content)
      | FileMissing \<Rightarrow>
          if require_existing
          then Inl (HostKeyErr (''Could not read known_hosts at '' @ ts_path ts
                 @ '': Error: ENOENT: no such file or directory, stat '' @ [squote] @ ts_path ts @ [squote]))
          else Inr []
      | FileUnreadable e \<Rightarrow>
          Inl (HostKeyErr (''Could not read known_hosts at '' @ ts_path ts @ '': '' @ exn_to_string e)))"

definition append_line :: "string \<Rightarrow> known_hosts_file \<Rightarrow> known_hosts_file" where
  "append_line line file =
     (case file of
        FileReadable file_size content \<Rightarrow> FileReadable (file_size + utf8_length line) (content @ line)
      | FileMissing \<Rightarrow> FileReadable (utf8_length line) line
      | FileUnreadable e \<Rightarrow> FileUnreadable e)"

definition whitespace_refused :: "string \<Rightarrow> unit result" where
  "whitespace_refused what =
     Inl (KnownHostsErr (''Refusing to persist known_hosts entry: '' @ what @ '' contains whitespace''))"

definition known_hosts_line :: "string \<Rightarrow> string \<Rightarrow> string \<Rightarrow> string" where
  "known_hosts_line host_label algo base64_key = host_label @ '' '' @ algo @ '' '' @ base64_key @ [newline]"

text \<open>The part of \<^verbatim>\<open>appendHostKey\<close> that holds the lock.\<close>

definition append_locked ::
  "crypto \<Rightarrow> string \<Rightarrow> string \<Rightarrow> string \<Rightarrow> buffer \<Rightarrow> (unit, trust_store) effect" where
  "append_locked cr host host_label algo key_buffer ts =
     (case ts_mkdir_error ts of
        Some e \<Rightarrow> (Inl e, ts)
      | None \<Rightarrow>
          (case load_known_host_entries False ts of
             Inl e \<Rightarrow> (Inl e, ts)
           | Inr existing_entries \<Rightarrow>
               (let matching_raw = filter (\<lambda>entry. kh_marker entry = None \<and>
                                     matches_known_host_entry cr entry host_label) existing_entries
                in if list_ex (\<lambda>entry. kh_algo entry = algo \<and> kh_key entry = key_buffer) matching_raw
                   then (Inr (), ts)
                   else (case List.find (\<lambda>entry. kh_key entry \<noteq> key_buffer) matching_raw of
                           Some conflicting \<Rightarrow>
                             (Inl (host_key_mismatch host key_buffer (Some (kh_key conflicting))), ts)
                         | None \<Rightarrow>
                             (case ts_append_error ts of
                                Some e \<Rightarrow> (Inl e, ts)
                              | None \<Rightarrow>
                                  (Inr (), ts\<lparr>ts_file := append_line
                                     (known_hosts_line host_label algo (base64_encode key_buffer))
                                     (ts_file ts)\<rparr>))))))"

definition append_host_key ::
  "crypto \<Rightarrow> string \<Rightarrow> int \<Rightarrow> buffer \<Rightarrow> (unit, trust_store) effect" where
  "append_host_key cr host port key_buffer ts =
     (case assert_safe_host_for_known_hosts host of
        Inl e \<Rightarrow> (Inl e, ts)
      | Inr _ \<Rightarrow>
          (case extract_algo_from_key key_buffer of
             Inl e \<Rightarrow> (Inl e, ts)
           | Inr algo \<Rightarrow>
               (let host_label = format_host_needle host port
                in if list_ex js_space host_label then (whitespace_refused ''host label'', ts)
                   else if list_ex js_space algo then (whitespace_refused ''algorithm'', ts)
                   else if list_ex js_space (base64_encode key_buffer)
                   then (whitespace_refused ''base64 key'', ts)
                   else append_locked cr host host_label algo key_buffer ts)))"

definition format_accepted_host_key_warning :: "crypto \<Rightarrow> string \<Rightarrow> buffer \<Rightarrow> string" where
  "format_accepted_host_key_warning cr host key =
     (case extract_algo_from_key key of
        Inr algo \<Rightarrow>
          ''WARNING: Permanently added '' @ [squote] @ host @ [squote] @ '' ('' @ algo
          @ '') to the list of known hosts. Fingerprint: '' @ compute_fingerprint cr key @ [newline]
      | Inl _ \<Rightarrow>
          ''WARNING: Permanently added '' @ [squote] @ host @ [squote]
          @ '' to the list of known hosts.'' @ [newline])"

definition host_key_persist_fallback_warning :: "string \<Rightarrow> int \<Rightarrow> exn \<Rightarrow> string" where
  "host_key_persist_fallback_warning host port e =
     ''WARNING: Could not persist host key for '' @ host @ '' '' @ [CHR 0x97]
     @ '' the key is cached in memory for this session. ''
     @ ''To persist it, ensure ~/.ssh/ is writable or run: ssh-keyscan ''
     @ (if port = 22 then shell_quote host else ''-p '' @ show_int port @ '' '' @ shell_quote host)
     @ '' >> ~/.ssh/known_hosts. '' @ exn_to_string e @ [newline]"

definition write_stderr :: "string \<Rightarrow> trust_store \<Rightarrow> trust_store" where
  "write_stderr message ts = ts\<lparr>ts_stderr := ts_stderr ts @ [message]\<rparr>"

definition accept_and_persist_host_key ::
  "crypto \<Rightarrow> string \<Rightarrow> int \<Rightarrow> buffer \<Rightarrow> (unit, trust_store) effect" where
  "accept_and_persist_host_key cr host port key ts =
     (let remember = (\<lambda>ts. write_stderr (format_accepted_host_key_warning cr host key)
                              (ts\<lparr>ts_cache := (ts_cache ts)(format_host_needle host port \<mapsto> key)\<rparr>))
      in case append_host_key cr host port key ts of
           (Inr _, ts1) \<Rightarrow> (Inr (), remember ts1)
         | (Inl e, ts1) \<Rightarrow>
             (case e of
                HostKeyErr _ \<Rightarrow> (Inl e, ts1)
              | KnownHostsErr _ \<Rightarrow> (Inl e, ts1)
              | _ \<Rightarrow> (Inr (), write_stderr (host_key_persist_fallback_warning host port e) (remember ts1))))"

subsection \<open>The verifier of a connection\<close>

datatype strict_mode = AcceptNew | StrictNo | StrictYes

text \<open>What the verifier closes over, and the two variables its callbacks share.\<close>

record verifier =
  vf_mode :: strict_mode
  vf_host :: string
  vf_port :: int
  vf_options :: verifier_options
  vf_entries :: "known_host_entry list"
  vf_cached :: "buffer option"
  vf_certificates :: bool

record evidence =
  ev_explicit_pins :: bool
  ev_host :: string
  ev_port :: int
  ev_public_key :: string
  ev_revocations :: "string list"
  ev_authority :: "string option"

record verifier_state =
  vs_accepted :: "buffer option"
  vs_evidence :: "evidence option"

definition revoked_public_keys :: "known_host_entry list \<Rightarrow> string list" where
  "revoked_public_keys entries =
     foldl set_add []
       (List.map_filter (\<lambda>entry. format_presented_public_key (normalize_revoked_key (kh_key entry)))
          (filter (\<lambda>entry. kh_marker entry = Some ''@revoked'') entries))"


definition build_host_verifier ::
  "crypto \<Rightarrow> strict_mode \<Rightarrow> string \<Rightarrow> int \<Rightarrow> verifier_options \<Rightarrow> trust_store \<Rightarrow> verifier option result" where
  "build_host_verifier cr mode host port options ts =
     (if mode = StrictNo \<and> \<not> has_pinned_host_trust_anchor options then Inr None
      else (case load_known_host_entries False ts of
              Inl e \<Rightarrow> Inl e
            | Inr entries \<Rightarrow>
                (let file_entries = find_matching_entries cr entries host port
                 in Inr (Some \<lparr>vf_mode = mode, vf_host = host, vf_port = port, vf_options = options,
                               vf_entries = file_entries,
                               vf_cached = ts_cache ts (format_host_needle host port),
                               vf_certificates =
                                 (mode \<noteq> StrictNo \<and>
                                  list_ex (\<lambda>entry. kh_marker entry = Some ''@cert-authority'') file_entries)\<rparr>))))"





definition commit_accepted_host_key ::
  "crypto \<Rightarrow> verifier \<Rightarrow> verifier_state \<Rightarrow> (unit, trust_store) effect" where
  "commit_accepted_host_key cr vf vs ts =
     (case vs_accepted vs of
        None \<Rightarrow> (Inr (), ts)
      | Some key \<Rightarrow> accept_and_persist_host_key cr (vf_host vf) (vf_port vf) key ts)"


definition load_rsync_trust_snapshot ::
  "crypto \<Rightarrow> evidence \<Rightarrow> trust_store \<Rightarrow> string list result" where
  "load_rsync_trust_snapshot cr ev ts =
     (case load_known_host_entries (ev_authority ev \<noteq> None) ts of
        Inl e \<Rightarrow> Inl e
      | Inr entries \<Rightarrow>
          (let matching = find_matching_entries cr entries (ev_host ev) (ev_port ev);
               revoked = revoked_public_keys matching
           in if ev_public_key ev \<in> set revoked \<or>
                 (case ev_authority ev of None \<Rightarrow> False | Some ca \<Rightarrow> ca \<in> set revoked)
              then Inl (HostKeyErr (''HOST KEY VERIFICATION FAILED for '' @ ev_host ev
                     @ '': session trust anchor is revoked in known_hosts.''))
              else Inr revoked))"

subsection \<open>What an accepted key means\<close>


definition raw_entry_with :: "known_host_entry list \<Rightarrow> buffer \<Rightarrow> bool" where
  "raw_entry_with entries key \<longleftrightarrow> list_ex (\<lambda>e. kh_marker e = None \<and> kh_key e = key) entries"






lemma built_verifier:
  assumes "build_host_verifier cr mode host port options ts = Inr (Some vf)"
  shows "vf_mode vf = mode" "vf_host vf = host" "vf_options vf = options"
    "vf_cached vf = ts_cache ts (format_host_needle host port)"
    "\<exists>entries. load_known_host_entries False ts = Inr entries \<and>
       vf_entries vf = find_matching_entries cr entries host port"
  using assms by (auto simp: build_host_verifier_def Let_def split: if_splits sum.splits)



text \<open>A platform for the witnesses: the hash is the identity.\<close>

definition plain_crypto :: crypto where
  "plain_crypto = \<lparr>hmac_sha1 = (\<lambda>_ b. b), sha256 = (\<lambda>b. b)\<rparr>"

definition empty_store :: "trust_store" where
  "empty_store = \<lparr>ts_path = ''/root/.ssh/known_hosts'', ts_file = FileMissing, ts_mkdir_error = None,
     ts_append_error = None, ts_cache = Map.empty, ts_stderr = []\<rparr>"

definition sample_key :: buffer where
  "sample_key = write_string ''ssh-ed25519'' @ write_string ''K''"

definition no_pins :: verifier_options where
  "no_pins = \<lparr>vo_fingerprint = None, vo_public_key = None\<rparr>"




subsection \<open>Writing an entry and reading it back\<close>

lemma split_on_append_sep: "split_on sep (a @ sep # b) = split_on sep a @ split_on sep b"
proof (induction a)
  case (Cons c a)
  obtain q qs where "split_on sep a = q # qs" by (cases "split_on sep a") auto
  then show ?case using Cons by simp
qed simp

lemma parse_append_line:
  assumes "content = [] \<or> last content = newline"
  shows "parse_known_hosts (content @ line) = parse_known_hosts content @ parse_known_hosts line"
proof (cases "content = []")
  case True
  then show ?thesis by (simp add: parse_known_hosts_def trim_def trim_start_def trim_end_def)
next
  case False
  then have c: "content = butlast content @ [newline]"
    using assms append_butlast_last_id[of content] by simp
  have "trim [] = []" by (simp add: trim_def trim_start_def trim_end_def)
  then show ?thesis
    using split_on_append_sep[of newline "butlast content" line]
      split_on_append_sep[of newline "butlast content" "[]"]
    by (subst (1 2) c) (simp add: parse_known_hosts_def)
qed

lemma split_spaces_field:
  assumes "\<And>c. c \<in> set f \<Longrightarrow> \<not> js_space c"
  shows "split_spaces f = [f]"
    and "g \<noteq> [] \<Longrightarrow> \<not> js_space (hd g) \<Longrightarrow> split_spaces (f @ '' '' @ g) = f # split_spaces g"
proof -
  have sp: "js_space (CHR '' '')" by (simp add: char_class_defs)
  show "split_spaces f = [f]"
    using assms by (subst split_spaces.simps) (simp add: dropWhile_eq_Nil_conv)
  assume g: "g \<noteq> []" "\<not> js_space (hd g)"
  have "takeWhile (\<lambda>c. \<not> js_space c) (f @ '' '' @ g) = f"
    "dropWhile (\<lambda>c. \<not> js_space c) (f @ '' '' @ g) = '' '' @ g"
    using assms sp by (simp_all add: takeWhile_append2 dropWhile_append2)
  moreover have "dropWhile js_space ('' '' @ g) = g" using g sp by (cases g) simp_all
  ultimately show "split_spaces (f @ '' '' @ g) = f # split_spaces g"
    by (subst split_spaces.simps) (simp add: Let_def)
qed

definition plain_field :: "string \<Rightarrow> bool" where
  "plain_field f \<longleftrightarrow> f \<noteq> [] \<and> list_all (\<lambda>c. \<not> js_space c) f"

lemma plain_fieldD: "plain_field f \<Longrightarrow> c \<in> set f \<Longrightarrow> \<not> js_space c" "plain_field f \<Longrightarrow> f \<noteq> []"
  "plain_field f \<Longrightarrow> \<not> js_space (hd f)" "plain_field f \<Longrightarrow> \<not> js_space (last f)"
  by (auto simp: plain_field_def list_all_iff)

lemma split_three_fields:
  assumes "plain_field a" "plain_field b" "plain_field c"
  shows "split_spaces (a @ '' '' @ b @ '' '' @ c) = [a, b, c]"
proof -
  have "hd (b @ '' '' @ c) = hd b" using plain_fieldD(2)[OF assms(2)] by simp
  then show ?thesis
    using split_spaces_field(2)[of a "b @ '' '' @ c"] split_spaces_field(2)[of b c]
      split_spaces_field(1)[of c] assms plain_fieldD by auto
qed

lemma word_trim_id: "s \<noteq> [] \<Longrightarrow> \<not> js_space (hd s) \<Longrightarrow> \<not> js_space (last s) \<Longrightarrow> trim s = s"
proof -
  assume s: "s \<noteq> []" "\<not> js_space (hd s)" "\<not> js_space (last s)"
  have "dropWhile js_space s = s" using s by (cases s) auto
  moreover have "dropWhile js_space (rev s) = rev s" using s by (cases s rule: rev_cases) auto
  ultimately show ?thesis by (simp add: trim_def trim_start_def trim_end_def)
qed

lemma parse_written_line:
  assumes l: "plain_field l" "CHR ''#'' \<noteq> hd l" "CHR ''@'' \<noteq> hd l" "CHR '','' \<notin> set l"
    and a: "plain_field a" and k: "k \<noteq> []"
  shows "parse_known_hosts (known_hosts_line l a (base64_encode k)) =
    [\<lparr>kh_algo = a, kh_host = l, kh_patterns = [l], kh_key = k, kh_marker = None\<rparr>]"
proof -
  let ?b = "base64_encode k"
  have b: "plain_field ?b"
    using strict_base64_encode[OF k] base64_encode_no_space
    by (auto simp: plain_field_def list_all_iff strict_base64_pattern_def)
  let ?line = "l @ '' '' @ a @ '' '' @ ?b"
  have nl: "js_space newline" by (simp add: char_class_defs)
  have "newline \<notin> set ?line"
    using plain_fieldD(1)[OF l(1)] plain_fieldD(1)[OF a] plain_fieldD(1)[OF b] nl by auto
  then have lines: "split_on newline (?line @ newline # []) = [?line, []]"
    using split_on_append[of newline ?line "[]"] by simp
  have hd: "hd ?line = hd l" and last: "last ?line = last ?b"
    using plain_fieldD(2)[OF l(1)] plain_fieldD(2)[OF b] by simp_all
  have trim: "trim ?line = ?line"
    using plain_fieldD(3)[OF l(1)] plain_fieldD(4)[OF b] hd last by (intro word_trim_id) simp_all
  have start: "\<not> starts_with ?line ''#''" "\<not> starts_with l ''@''"
    using l plain_fieldD(2)[OF l(1)] by (cases l; simp add: starts_with_def)+
  have parts: "split_spaces ?line = [l, a, ?b]" by (rule split_three_fields[OF l(1) a b])
  have "parse_known_hosts_line ?line =
      [\<lparr>kh_algo = a, kh_host = l, kh_patterns = [l], kh_key = k, kh_marker = None\<rparr>]"
    unfolding parse_known_hosts_line_def parts
    using start(2) l(4) strict_base64_encode[OF k]
    by (simp add: Let_def base64_decode_encode split_on_id)
  moreover have "trim [] = []" by (simp add: trim_def trim_start_def trim_end_def)
  ultimately show ?thesis
    using lines trim start(1) by (simp add: parse_known_hosts_def known_hosts_line_def Let_def)
qed

lemma glob_refl: "glob s s"
proof (induction s)
  case (Cons c s)
  show ?case
  proof (cases "c = CHR ''*''")
    case True
    have "\<exists>j \<le> length (c # s). glob s (drop j (c # s))"
      using Cons by (intro exI[of _ 1]) simp
    then show ?thesis unfolding True by (simp only: glob_star)
  next
    case False then show ?thesis using Cons by simp
  qed
qed simp

lemma show_nat_chars: "c \<in> set (show_nat n) \<Longrightarrow> is_digit c"
  using show_nat_digits[of n] by (auto simp: list_all_iff)

lemma show_int_chars: "c \<in> set (show_int i) \<Longrightarrow> is_digit c \<or> c = CHR ''-''"
  using show_nat_chars by (auto simp: show_int_def split: if_splits)

definition host_label_char :: "char \<Rightarrow> bool" where
  "host_label_char c \<longleftrightarrow> \<not> js_space c \<and> c \<noteq> CHR '','' \<and> c \<noteq> CHR ''*''"

lemma needle_chars:
  assumes "validate_host_label (Some host) = None" "c \<in> set (format_host_needle host port)"
  shows "host_label_char c"
proof -
  have host: "host_label_char d" if "d \<in> set host" for d
    using assms(1) that unfolding validate_host_label_None host_char_ok_def host_metacharacter_def
    by (auto simp: host_label_char_def)
  have digit: "host_label_char d" if "is_digit d \<or> d = CHR ''-''" for d
    using that by (auto simp: host_label_char_def char_class_defs)
  have "host_label_char (CHR ''['')" "host_label_char (CHR '']'')" "host_label_char (CHR '':'')"
    by (auto simp: host_label_char_def char_class_defs)
  then show ?thesis using assms(2) host digit show_int_chars[of c port]
    by (auto simp: format_host_needle_def split: if_splits)
qed

lemma needle_matches_itself:
  assumes "validate_host_label (Some host) = None" "\<not> starts_with (format_host_needle host port) ''!''"
    "\<not> starts_with (format_host_needle host port) ''|1|''"
  shows "matches_known_host_pattern_list cr [format_host_needle host port] (format_host_needle host port)"
proof -
  let ?n = "format_host_needle host port"
  have star: "CHR ''*'' \<notin> set ?n"
    using needle_chars[OF assms(1)] by (auto simp: host_label_char_def)
  have "?n \<noteq> []" using assms(1) by (auto simp: format_host_needle_def validate_host_label_None)
  then have "pattern_matches cr ?n ?n"
    using assms(3) glob_refl by (simp add: pattern_matches_def)
  then show ?thesis
    using match_pattern_list_iff[OF star, of cr False "[?n]"] assms(2)
    by (simp add: matches_known_host_pattern_list_def)
qed

lemma plain_needle:
  assumes "validate_host_label (Some host) = None"
  shows "plain_field (format_host_needle host port)"
  using needle_chars[OF assms] assms
  by (auto simp: plain_field_def list_all_iff host_label_char_def format_host_needle_def
      validate_host_label_None)

lemma pinned_algorithm_plain: "pinned_host_key_algorithm_pattern a \<Longrightarrow> plain_field a"
  by (auto simp: pinned_host_key_algorithm_pattern_def plain_field_def char_class_defs)


lemma append_host_key_writes:
  assumes "append_host_key cr host port key ts = (Inr (), ts')"
  shows "validate_host_label (Some host) = None \<and> key \<noteq> [] \<and>
    (\<exists>algo entries. extract_algo_from_key key = Inr algo \<and> load_known_host_entries False ts = Inr entries \<and>
       (ts' = ts \<and> list_ex (\<lambda>e. kh_marker e = None \<and> kh_key e = key \<and>
            matches_known_host_entry cr e (format_host_needle host port)) entries \<or>
        ts' = ts\<lparr>ts_file := append_line (known_hosts_line (format_host_needle host port) algo
            (base64_encode key)) (ts_file ts)\<rparr>))"
proof -
  obtain algo where a: "extract_algo_from_key key = Inr algo"
    and safe: "assert_safe_host_for_known_hosts host = Inr ()"
    and locked: "append_locked cr host (format_host_needle host port) algo key ts = (Inr (), ts')"
    using assms
    by (auto simp: append_host_key_def whitespace_refused_def Let_def split: sum.splits if_splits)
  have "validate_host_label (Some host) = None"
    using safe by (auto simp: assert_safe_host_for_known_hosts_def split: option.splits)
  moreover have "key \<noteq> []" using a by (auto simp: extract_algo_from_key_def split: if_splits)
  moreover obtain entries where "load_known_host_entries False ts = Inr entries"
    "ts' = ts \<and> list_ex (\<lambda>e. kh_marker e = None \<and> kh_key e = key \<and>
            matches_known_host_entry cr e (format_host_needle host port)) entries \<or>
     ts' = ts\<lparr>ts_file := append_line (known_hosts_line (format_host_needle host port) algo
            (base64_encode key)) (ts_file ts)\<rparr>"
    using locked
    by (auto simp: append_locked_def Let_def list_ex_iff split: option.splits sum.splits if_splits)
  ultimately show ?thesis using a by blast
qed

definition ends_with_newline :: "known_hosts_file \<Rightarrow> bool" where
  "ends_with_newline file =
     (case file of
        FileMissing \<Rightarrow> True
      | FileReadable _ content \<Rightarrow> content = [] \<or> last content = newline
      | FileUnreadable _ \<Rightarrow> False)"

text \<open>A host label whose known_hosts line is an entry for exactly itself.\<close>

definition plain_label :: "string \<Rightarrow> bool" where
  "plain_label l \<longleftrightarrow> \<not> starts_with l ''#'' \<and> \<not> starts_with l ''@'' \<and> \<not> starts_with l ''!'' \<and>
     \<not> starts_with l ''|1|''"

lemma plain_label_hd: "plain_label l \<Longrightarrow> l \<noteq> [] \<Longrightarrow> CHR ''#'' \<noteq> hd l \<and> CHR ''@'' \<noteq> hd l"
  by (cases l) (auto simp: plain_label_def starts_with_def)

lemma load_after_append:
  assumes "load_known_host_entries False (ts\<lparr>ts_file := append_line line (ts_file ts)\<rparr>) = Inr entries"
    and "ends_with_newline (ts_file ts)"
  shows "set (parse_known_hosts line) \<subseteq> set entries"
  using assms
  by (auto simp: load_known_host_entries_def append_line_def ends_with_newline_def parse_append_line
      split: known_hosts_file.splits if_splits)

lemma appended_key_is_found:
  assumes "append_host_key cr host port key ts = (Inr (), ts')"
    and "plain_label (format_host_needle host port)" and "ends_with_newline (ts_file ts)"
    and "load_known_host_entries False ts' = Inr entries"
  shows "raw_entry_with (find_matching_entries cr entries host port) key"
proof -
  let ?n = "format_host_needle host port"
  obtain algo old where valid: "validate_host_label (Some host) = None" and k: "key \<noteq> []"
    and a: "extract_algo_from_key key = Inr algo" and old: "load_known_host_entries False ts = Inr old"
    and cases: "ts' = ts \<and> list_ex (\<lambda>e. kh_marker e = None \<and> kh_key e = key \<and>
            matches_known_host_entry cr e ?n) old \<or>
        ts' = ts\<lparr>ts_file := append_line (known_hosts_line ?n algo (base64_encode key)) (ts_file ts)\<rparr>"
    using append_host_key_writes[OF assms(1)] by blast
  from cases show ?thesis
  proof
    assume "ts' = ts \<and> list_ex (\<lambda>e. kh_marker e = None \<and> kh_key e = key \<and>
            matches_known_host_entry cr e ?n) old"
    then show ?thesis using old assms(4)
      by (auto simp: raw_entry_with_def list_ex_iff find_matching_entries_def)
  next
    assume ts': "ts' = ts\<lparr>ts_file := append_line (known_hosts_line ?n algo (base64_encode key)) (ts_file ts)\<rparr>"
    have plain: "plain_field ?n" by (rule plain_needle[OF valid])
    have "CHR '','' \<notin> set ?n" using needle_chars[OF valid] by (auto simp: host_label_char_def)
    moreover have "CHR ''#'' \<noteq> hd ?n" "CHR ''@'' \<noteq> hd ?n"
      using plain_label_hd[OF assms(2) plain_fieldD(2)[OF plain]] by simp_all
    moreover have "pinned_host_key_algorithm_pattern algo"
      using a by (auto simp: extract_algo_from_key_def Let_def split: if_splits)
    ultimately have parsed: "parse_known_hosts (known_hosts_line ?n algo (base64_encode key)) =
        [\<lparr>kh_algo = algo, kh_host = ?n, kh_patterns = [?n], kh_key = key, kh_marker = None\<rparr>]"
      using parse_written_line[OF plain] pinned_algorithm_plain k by blast
    let ?e = "\<lparr>kh_algo = algo, kh_host = ?n, kh_patterns = [?n], kh_key = key, kh_marker = None\<rparr>"
    have "?e \<in> set entries"
      using load_after_append[OF assms(4)[unfolded ts'] assms(3)] parsed by simp
    moreover have "matches_known_host_entry cr ?e ?n"
      using needle_matches_itself[OF valid] assms(2)
      by (simp add: matches_known_host_entry_def plain_label_def)
    ultimately show ?thesis
      by (force simp: raw_entry_with_def list_ex_iff find_matching_entries_def)
  qed
qed

text \<open>
  C22: a key accepted on first use is remembered. When it has been written to a known_hosts
  file whose last line is complete, every later verifier of the host, with an empty cache,
  finds it there and accepts it as known, unless the file revokes it.
\<close>

theorem persisted_host_key_is_remembered:
  assumes "append_host_key cr host port key ts = (Inr (), ts')"
    and "plain_label (format_host_needle host port)" and "ends_with_newline (ts_file ts)"
    and "build_host_verifier cr mode host port options (ts'\<lparr>ts_cache := Map.empty\<rparr>) = Inr (Some vf)"
    and "find_revoked_entry (vf_entries vf) key = None"
  shows "verify_host_key_against_known_entries (vf_cached vf) (vf_entries vf) host key = Inr True"
proof -
  obtain entries where load: "load_known_host_entries False (ts'\<lparr>ts_cache := Map.empty\<rparr>) = Inr entries"
    and vf: "vf_entries vf = find_matching_entries cr entries host port"
    using built_verifier(5)[OF assms(4)] by blast
  have "load_known_host_entries False ts' = Inr entries"
    using load by (auto simp: load_known_host_entries_def split: known_hosts_file.splits if_splits)
  then have "raw_entry_with (vf_entries vf) key"
    unfolding vf by (rule appended_key_is_found[OF assms(1-3)])
  then show ?thesis using assms(5)
    by (auto simp: verify_host_key_against_known_entries_def raw_entry_with_def list_ex_iff)
qed


lemma read_write_uint32: "n < 4294967296 \<Longrightarrow> read_uint32 (write_uint32 n @ rest) = n"
proof -
  assume n: "n < 4294967296"
  have "n div 16777216 mod 256 = n div 16777216" using n by (intro mod_less less_mult_imp_div_less) simp
  moreover have "n = n div 16777216 * 16777216 + n mod 16777216" by simp
  moreover have "n mod 16777216 = n div 65536 mod 256 * 65536 + n mod 65536"
    using mod_mult2_eq[of n 65536 256] by simp
  moreover have "n mod 65536 = n div 256 mod 256 * 256 + n mod 256"
    using mod_mult2_eq[of n 256 256] by simp
  ultimately show ?thesis
    by (simp add: read_uint32_def write_uint32_def code_def)
qed

lemma length_write_uint32 [simp]: "length (write_uint32 n) = 4"
  by (simp add: write_uint32_def)

lemma read_write_string: "length v < 4294967296 \<Longrightarrow> read_string (write_string v @ rest) = Some (v, rest)"
  by (simp add: read_string_def write_string_def read_write_uint32)

lemma read_write_strings:
  "list_all (\<lambda>v. length v < 4294967296) vs \<Longrightarrow>
   read_strings (length vs) (concat (map write_string vs) @ rest) = Some (vs, rest)"
  by (induction vs) (simp_all add: read_write_string)

lemma ascii_decode_id: "list_all (\<lambda>c. code c < 128) s \<Longrightarrow> ascii_decode s = s"
  by (induction s) (simp_all add: ascii_decode_def)

lemma extract_algo_write:
  assumes "pinned_host_key_algorithm_pattern algo"
  shows "extract_algo_from_key (write_string algo @ rest) = Inr algo"
proof -
  have short: "0 < length algo" "length algo < 4294967296"
    using assms by (auto simp: pinned_host_key_algorithm_pattern_def)
  have ascii: "ascii_decode algo = algo"
    using assms by (intro ascii_decode_id) (auto simp: pinned_host_key_algorithm_pattern_def code_def)
  have "read_uint32 (write_string algo @ rest) = length algo"
    using read_write_uint32[OF short(2)] by (simp add: write_string_def)
  then show ?thesis using assms short ascii
    by (simp add: extract_algo_from_key_def Let_def write_string_def)
qed

lemma sample_key_algo: "extract_algo_from_key sample_key = Inr ''ssh-ed25519''"
  unfolding sample_key_def by (rule extract_algo_write) (simp add: pinned_host_key_algorithm_pattern_def)

definition sample_line :: string where
  "sample_line = known_hosts_line ''h'' ''ssh-ed25519'' (base64_encode sample_key)"

lemma sample_line_parsed:
  "parse_known_hosts sample_line =
     [\<lparr>kh_algo = ''ssh-ed25519'', kh_host = ''h'', kh_patterns = [''h''], kh_key = sample_key,
       kh_marker = None\<rparr>]"
  unfolding sample_line_def
  by (rule parse_written_line)
    (simp_all add: plain_field_def char_class_defs sample_key_def write_string_def write_uint32_def)

lemma length_sextets: "length (sextets bs) \<le> 2 * length bs"
  by (induction bs rule: sextets.induct) auto

lemma utf8_length_le: "utf8_length s \<le> 2 * length s"
  by (induction s) (auto simp: utf8_char_def)

lemma sample_line_size: "utf8_length sample_line \<le> known_hosts_file_byte_limit"
proof -
  have key: "length sample_key = 20" by (simp add: sample_key_def write_string_def)
  have "length (base64_encode sample_key) \<le> 42"
    using length_sextets[of "map code sample_key"] key by (simp add: base64_encode_def base64_padding_def)
  then have "length sample_line \<le> 60" by (simp add: sample_line_def known_hosts_line_def)
  then show ?thesis
    using utf8_length_le[of sample_line] by (simp add: known_hosts_file_byte_limit_def)
qed

lemma sample_appended:
  "append_host_key plain_crypto ''h'' 22 sample_key empty_store =
     (Inr (), empty_store\<lparr>ts_file := FileReadable (utf8_length sample_line) sample_line\<rparr>)"
proof -
  have safe: "assert_safe_host_for_known_hosts ''h'' = Inr ()"
    by (simp add: assert_safe_host_for_known_hosts_def validate_host_label_def
        contains_control_character_def host_metacharacter_def char_class_defs)
  have no_space: "\<not> list_ex js_space ''h''" "\<not> list_ex js_space ''ssh-ed25519''"
    "\<not> list_ex js_space (base64_encode sample_key)"
    using base64_encode_no_space by (auto simp: char_class_defs list_ex_iff)
  show ?thesis
    unfolding append_host_key_def safe sample_key_algo format_host_needle_def Let_def
    by (simp only: no_space) (simp add: sample_key_def write_string_def
        append_locked_def empty_store_def load_known_host_entries_def append_line_def sample_line_def char_class_defs)
qed

theorem persisted_host_key_is_remembered_witness:
  "\<exists>vf. build_host_verifier plain_crypto StrictYes ''h'' 22 no_pins
      (empty_store\<lparr>ts_file := FileReadable (utf8_length sample_line) sample_line, ts_cache := Map.empty\<rparr>)
        = Inr (Some vf) \<and>
    verify_host_key_against_known_entries (vf_cached vf) (vf_entries vf) ''h'' sample_key = Inr True"
proof -
  let ?ts = "empty_store\<lparr>ts_file := FileReadable (utf8_length sample_line) sample_line\<rparr>"
  obtain vf where vf: "build_host_verifier plain_crypto StrictYes ''h'' 22 no_pins
      (?ts\<lparr>ts_cache := Map.empty\<rparr>) = Inr (Some vf)"
    and entries: "vf_entries vf = find_matching_entries plain_crypto (parse_known_hosts sample_line) ''h'' 22"
    using sample_line_size
    by (auto simp: build_host_verifier_def load_known_host_entries_def empty_store_def Let_def not_less)
  have label: "plain_label (format_host_needle ''h'' 22)" "ends_with_newline (ts_file empty_store)"
    by (simp_all add: plain_label_def format_host_needle_def starts_with_def ends_with_newline_def
        empty_store_def)
  have "find_revoked_entry (vf_entries vf) sample_key = None"
    unfolding entries sample_line_parsed
    by (simp add: find_revoked_entry_def find_matching_entries_def)
  then show ?thesis
    using persisted_host_key_is_remembered[OF sample_appended label vf] vf by auto
qed

text \<open>
  The line is appended without looking at the end of the file. After a last line that is not
  terminated the two lines become one: the new entry is lost and the old key is changed.
\<close>

lemma append_glues_unterminated_line:
  "parse_known_hosts (''a ssh-rsa AAAA'' @ ''host ssh-rsa BBBB'') = parse_known_hosts ''a ssh-rsa AAAAhost ssh-rsa BBBB'' \<and>
   map kh_host (parse_known_hosts (''a ssh-rsa AAAA'' @ ''host ssh-rsa BBBB'')) = [''a''] \<and>
   map kh_key (parse_known_hosts (''a ssh-rsa AAAA'' @ ''host ssh-rsa BBBB'')) \<noteq>
     map kh_key (parse_known_hosts ''a ssh-rsa AAAA'')"
  by code_simp

text \<open>
  The label check lets a host start with \<^verbatim>\<open>#\<close>. Its line is a comment when it is read back,
  so the key accepted on first use is never found again.
\<close>

lemma comment_host_is_forgotten:
  "validate_host_label (Some ''#h'') = None \<and>
   parse_known_hosts (known_hosts_line ''#h'' ''ssh-rsa'' ''AAAA'') = []"
  by code_simp

subsection \<open>Certificates and revocation\<close>

lemma remove_cert_suffix:
  assumes "pinned_host_key_algorithm_pattern a"
  shows "remove_first cert_suffix (a @ cert_suffix) = a"
proof -
  have "a \<in> set [''ssh-ed25519'', ''ssh-rsa'', ''ecdsa-sha2-nistp256'', ''ecdsa-sha2-nistp384'',
      ''ecdsa-sha2-nistp521'']" using assms by (simp add: pinned_host_key_algorithm_pattern_def)
  moreover have "list_all (\<lambda>a. remove_first cert_suffix (a @ cert_suffix) = a)
      [''ssh-ed25519'', ''ssh-rsa'', ''ecdsa-sha2-nistp256'', ''ecdsa-sha2-nistp384'',
       ''ecdsa-sha2-nistp521'']" by code_simp
  ultimately show ?thesis unfolding list_all_iff by blast
qed

definition key_field_count :: "string \<Rightarrow> nat" where
  "key_field_count algo = (if algo = ''ssh-ed25519'' then 1 else 2)"

definition wire_key :: "string \<Rightarrow> buffer list \<Rightarrow> buffer" where
  "wire_key algo vs = concat (map write_string (algo # vs))"

definition wire_certificate :: "string \<Rightarrow> buffer \<Rightarrow> buffer list \<Rightarrow> buffer \<Rightarrow> buffer" where
  "wire_certificate algo nonce vs rest =
     write_string (algo @ cert_suffix) @ write_string nonce @ concat (map write_string vs) @ rest"

text \<open>
  C38: revoking a certificate revokes its key. The normal form of a revoked certificate, of
  whatever renewal, is the plain public key it certifies, so an entry that revokes the
  certificate rejects the key itself; the normal form of a plain key is the key.
\<close>

theorem revoked_certificate_revokes_key:
  assumes "pinned_host_key_algorithm_pattern algo" and "length vs = key_field_count algo"
    and "length nonce < 2 ^ 32" and "list_all (\<lambda>v. length v < 2 ^ 32) vs"
  shows "normalize_revoked_key (wire_certificate algo nonce vs rest) = wire_key algo vs \<and>
    normalize_revoked_key (wire_key algo vs) = wire_key algo vs"
proof -
  have algo: "length (algo @ cert_suffix) < 4294967296" "length algo < 4294967296"
    "list_all (\<lambda>c. code c < 128) (algo @ cert_suffix)" "list_all (\<lambda>c. code c < 128) algo"
    "\<not> ends_with algo cert_suffix"
    using assms(1) by (auto simp: pinned_host_key_algorithm_pattern_def cert_suffix_def code_def ends_with_def)
  have small: "length nonce < 4294967296" "list_all (\<lambda>v. length v < 4294967296) vs"
    using assms(3,4) by simp_all
  have suffix: "ends_with (algo @ cert_suffix) cert_suffix" by (simp add: ends_with_def)
  have "normalize_revoked_key (wire_certificate algo nonce vs rest) = wire_key algo vs"
    using assms(1,2) read_write_string[OF algo(1)] read_write_string[OF small(1)]
      read_write_strings[OF small(2), of rest] suffix remove_cert_suffix[OF assms(1)]
      ascii_decode_id[OF algo(3)]
    by (simp add: normalize_revoked_key_def wire_certificate_def wire_key_def key_field_count_def Let_def)
  moreover have "normalize_revoked_key (wire_key algo vs) = wire_key algo vs"
    using read_write_string[OF algo(2)] algo(5) ascii_decode_id[OF algo(4)]
    by (simp add: normalize_revoked_key_def wire_key_def)
  ultimately show ?thesis ..
qed

theorem revoked_certificate_revokes_key_witness:
  "normalize_revoked_key (wire_certificate ''ssh-ed25519'' ''n1'' [''PK''] ''tail'') =
   normalize_revoked_key (wire_certificate ''ssh-ed25519'' ''n2'' [''PK''] ''other'')"
  using revoked_certificate_revokes_key[of "''ssh-ed25519''" "[''PK'']" "''n1''" "''tail''"]
    revoked_certificate_revokes_key[of "''ssh-ed25519''" "[''PK'']" "''n2''" "''other''"]
  by (simp add: pinned_host_key_algorithm_pattern_def key_field_count_def)

end
