(* ===== verification/SecretSink.thy ===== *)
theory SecretSink
  imports ShellText Orchestration "HOL-Library.Multiset"
begin

text \<open>
  The process-wide registry of secrets (\<^verbatim>\<open>secretSink.ts\<close>). A secret is registered as often as
  code that uses it is running; the registry counts the registrations, and a diagnostic is
  masked with every secret whose count is not zero. A run has a scope (the map in the
  \<^verbatim>\<open>AsyncLocalStorage\<close> of its calls) of the registrations that are released when it ends;
  several runs may be open at once and share the registry, so the scopes are a list keyed by
  run. Run 0 stands for code outside every run.
\<close>

definition minimum_secret_length :: nat where
  "minimum_secret_length = 8"

record secret_sink =
  sk_counts :: "nat js_object"
  sk_scopes :: "(nat \<times> nat js_object) list"

definition empty_sink :: secret_sink where
  "empty_sink = \<lparr>sk_counts = [], sk_scopes = []\<rparr>"

definition count_of :: "nat js_object \<Rightarrow> string \<Rightarrow> nat" where
  "count_of counts secret = (case map_of counts secret of None \<Rightarrow> 0 | Some n \<Rightarrow> n)"

definition assert_registrable_secret :: "string \<Rightarrow> unit result" where
  "assert_registrable_secret secret =
     (if js_includes secret redacted
      then Inl (GenericError ''Secret registrations must not contain the redaction placeholder'')
      else Inr ())"

definition register_secret :: "string \<Rightarrow> (unit, secret_sink) effect" where
  "register_secret secret s =
     (if length secret < minimum_secret_length then (Inr (), s)
      else (case assert_registrable_secret secret of
              Inl e \<Rightarrow> (Inl e, s)
            | Inr _ \<Rightarrow>
                (Inr (), s\<lparr>sk_counts :=
                   AList.update secret (count_of (sk_counts s) secret + 1) (sk_counts s)\<rparr>)))"

definition register_run_scoped_secret :: "nat \<Rightarrow> string \<Rightarrow> (unit, secret_sink) effect" where
  "register_run_scoped_secret run secret s =
     and_then (register_secret secret s)
       (\<lambda>_ s1.
          if length secret < minimum_secret_length then (Inr (), s1)
          else (case map_of (sk_scopes s1) run of
                  None \<Rightarrow> (Inr (), s1)
                | Some scoped \<Rightarrow>
                    (Inr (), s1\<lparr>sk_scopes :=
                       AList.update run (AList.update secret (count_of scoped secret + 1) scoped)
                         (sk_scopes s1)\<rparr>)))"

definition has_active_run_scoped_secret_scope :: "nat \<Rightarrow> secret_sink \<Rightarrow> bool" where
  "has_active_run_scoped_secret_scope run s \<longleftrightarrow> map_of (sk_scopes s) run \<noteq> None"

definition unregister_secret :: "string \<Rightarrow> secret_sink \<Rightarrow> secret_sink" where
  "unregister_secret secret s =
     (if length secret < minimum_secret_length then s
      else (case map_of (sk_counts s) secret of
              None \<Rightarrow> s
            | Some current \<Rightarrow>
                (if current \<le> 1 then s\<lparr>sk_counts := AList.delete secret (sk_counts s)\<rparr>
                 else s\<lparr>sk_counts := AList.update secret (current - 1) (sk_counts s)\<rparr>)))"

definition get_registered_secrets :: "secret_sink \<Rightarrow> string list" where
  "get_registered_secrets s = js_keys (sk_counts s)"

definition clear_registered_secrets :: "secret_sink \<Rightarrow> secret_sink" where
  "clear_registered_secrets s = s\<lparr>sk_counts := []\<rparr>"

definition mask_registered_secrets :: "string \<Rightarrow> secret_sink \<Rightarrow> string result" where
  "mask_registered_secrets text s =
     (if sk_counts s = [] then Inr text else mask_secrets text (get_registered_secrets s))"

text \<open>
  Opening and closing the scope of a run: \<^verbatim>\<open>withRunScopedSecrets\<close> around a body that is not
  already inside a scope. A body inside a scope of its own run runs in that scope.
\<close>

definition open_run_scope :: "nat \<Rightarrow> secret_sink \<Rightarrow> secret_sink" where
  "open_run_scope run s = s\<lparr>sk_scopes := AList.update run [] (sk_scopes s)\<rparr>"

fun release_scoped :: "nat js_object \<Rightarrow> secret_sink \<Rightarrow> secret_sink" where
  "release_scoped [] s = s"
| "release_scoped ((secret, n) # scoped) s = release_scoped scoped ((unregister_secret secret ^^ n) s)"

definition close_run_scope :: "nat \<Rightarrow> secret_sink \<Rightarrow> secret_sink" where
  "close_run_scope run s =
     (case map_of (sk_scopes s) run of
        None \<Rightarrow> s
      | Some scoped \<Rightarrow> release_scoped scoped (s\<lparr>sk_scopes := AList.delete run (sk_scopes s)\<rparr>))"

definition with_run_scoped_secrets :: "nat \<Rightarrow> ('a, secret_sink) effect \<Rightarrow> ('a, secret_sink) effect" where
  "with_run_scoped_secrets run body s =
     (if has_active_run_scoped_secret_scope run s then body s
      else (case body (open_run_scope run s) of (r, s1) \<Rightarrow> (r, close_run_scope run s1)))"

subsection \<open>Masking of results and errors\<close>

text \<open>
  A masked error is a clone that keeps the prototype, the name, the message, the stack and
  the cause. Other properties of its own are lost: the code of a native error, and the code
  and the detail of a transport error (the empty string stands for \<^verbatim>\<open>undefined\<close>).
\<close>

fun mask_exn :: "string list \<Rightarrow> exn \<Rightarrow> exn" where
  "mask_exn vs (GenericError m) = GenericError (mask_prepared_secrets m vs)"
| "mask_exn vs (TypeErr m) = TypeErr (mask_prepared_secrets m vs)"
| "mask_exn vs (CommandErr m out err) =
     CommandErr (mask_prepared_secrets m vs) (mask_prepared_secrets out vs) (mask_prepared_secrets err vs)"
| "mask_exn vs (HostKeyErr m) = HostKeyErr (mask_prepared_secrets m vs)"
| "mask_exn vs (NativeErr c m) = NativeErr [] (mask_prepared_secrets m vs)"
| "mask_exn vs (TransportErr c d cause) = TransportErr [] None (mask_exn vs cause)"
| "mask_exn vs (InvalidUtf8Err m) = InvalidUtf8Err (mask_prepared_secrets m vs)"
| "mask_exn vs (KnownHostsErr m) = KnownHostsErr (mask_prepared_secrets m vs)"
| "mask_exn vs (LiveProbeErr m) = LiveProbeErr (mask_prepared_secrets m vs)"

definition mask_scoped_error :: "exn \<Rightarrow> string list \<Rightarrow> exn" where
  "mask_scoped_error e secrets =
     (if secrets = [] then e
      else (case get_secret_variants secrets of Inl e' \<Rightarrow> e' | Inr vs \<Rightarrow> mask_exn vs e))"

definition mask_scoped_result :: "module_result \<Rightarrow> string list \<Rightarrow> module_result result" where
  "mask_scoped_result r secrets =
     (if secrets = [] then Inr r
      else (case get_secret_variants secrets of
              Inl e \<Rightarrow> Inl e
            | Inr vs \<Rightarrow>
                (let r1 = r\<lparr>mr_detail := map_option (\<lambda>d. mask_prepared_secrets d vs) (mr_detail r)\<rparr>
                 in Inr (if mr_status r1 = StFailed
                         then r1\<lparr>mr_error := map_option (\<lambda>e. mask_scoped_error e secrets) (mr_error r1)\<rparr>
                         else r1))))"

definition register_all :: "string list \<Rightarrow> secret_sink \<Rightarrow> secret_sink" where
  "register_all secrets s = fold (\<lambda>k s. snd (register_secret k s)) secrets s"

text \<open>
  The registrations are validated before the first one, so the loop that registers them does
  not throw and they are all released.
\<close>

definition with_registered_secrets ::
  "string list \<Rightarrow> (module_result, secret_sink) effect \<Rightarrow> (module_result, secret_sink) effect" where
  "with_registered_secrets secrets body s =
     (case List.find (\<lambda>k. js_includes k redacted) secrets of
        Some k \<Rightarrow> (Inl (GenericError ''Secret registrations must not contain the redaction placeholder''), s)
      | None \<Rightarrow>
          (let registered = filter (\<lambda>k. minimum_secret_length \<le> length k) secrets
           in case body (register_all registered s) of
                (r, s1) \<Rightarrow>
                  (case and_then (r, ()) (\<lambda>result _. (mask_scoped_result result secrets, ())) of
                     (Inl e, _) \<Rightarrow> Inl (mask_scoped_error e secrets)
                   | (Inr result, _) \<Rightarrow> Inr result,
                   fold unregister_secret registered s1)))"

subsection \<open>The registry counts the outstanding registrations\<close>

lemma count_of_update [simp]:
  "count_of (AList.update k n counts) k' = (if k' = k then n else count_of counts k')"
  by (simp add: count_of_def update_conv')

lemma count_of_delete [simp]:
  "count_of (AList.delete k counts) k' = (if k' = k then 0 else count_of counts k')"
  by (simp add: count_of_def delete_conv')

lemma count_of_Nil [simp]: "count_of [] k = 0"
  by (simp add: count_of_def)

text \<open>A registry is well formed when it has one positive count for each secret it knows.\<close>

definition sink_wf :: "secret_sink \<Rightarrow> bool" where
  "sink_wf s \<longleftrightarrow> wf_object (sk_counts s) \<and> distinct (map fst (sk_scopes s)) \<and>
     (\<forall>k n. map_of (sk_counts s) k = Some n \<longrightarrow>
        0 < n \<and> minimum_secret_length \<le> length k \<and> \<not> js_includes k redacted) \<and>
     (\<forall>run scoped. map_of (sk_scopes s) run = Some scoped \<longrightarrow> wf_object scoped)"

definition sink_count :: "secret_sink \<Rightarrow> string \<Rightarrow> nat" where
  "sink_count s k = count_of (sk_counts s) k"

definition long_secret :: "string \<Rightarrow> bool" where
  "long_secret k \<longleftrightarrow> minimum_secret_length \<le> length k"

lemma sink_count_register:
  "register_secret k s = (Inr (), s') \<Longrightarrow>
   sink_count s' k' = sink_count s k' + (if long_secret k \<and> k' = k then 1 else 0)"
  by (auto simp: register_secret_def sink_count_def long_secret_def split: if_splits sum.splits)

lemma sink_count_unregister:
  "sink_count (unregister_secret k s) k' =
     sink_count s k' - (if long_secret k \<and> k' = k then 1 else 0)"
  by (auto simp: unregister_secret_def sink_count_def long_secret_def count_of_def
      delete_conv' update_conv' split: option.splits)

lemma sink_count_unregister_times:
  "sink_count ((unregister_secret k ^^ n) s) k' =
     sink_count s k' - (if long_secret k \<and> k' = k then n else 0)"
  by (induction n) (auto simp: sink_count_unregister)

lemma scopes_unregister [simp]: "sk_scopes (unregister_secret k s) = sk_scopes s"
  by (simp add: unregister_secret_def split: option.splits)

lemma scopes_unregister_times [simp]: "sk_scopes ((unregister_secret k ^^ n) s) = sk_scopes s"
  by (induction n) simp_all

lemma scopes_release [simp]: "sk_scopes (release_scoped scoped s) = sk_scopes s"
  by (induction scoped s rule: release_scoped.induct) simp_all

lemma sink_count_release:
  "wf_object scoped \<Longrightarrow>
   sink_count (release_scoped scoped s) k =
     sink_count s k - (if long_secret k then count_of scoped k else 0)"
proof (induction scoped arbitrary: s)
  case (Cons kn scoped)
  obtain k0 n where kn: "kn = (k0, n)" by (cases kn)
  have wf: "wf_object scoped" and fresh: "k0 \<notin> fst ` set scoped"
    using Cons.prems by (auto simp: kn wf_object_def js_keys_def)
  have c0: "map_of scoped k0 = None" using fresh by (simp add: map_of_eq_None_iff)
  have c: "count_of ((k0, n) # scoped) k = (if k = k0 then n else count_of scoped k)"
    "count_of scoped k0 = 0"
    using c0 by (auto simp: count_of_def)
  show ?case
    by (auto simp: kn Cons.IH[OF wf] c sink_count_unregister_times)
qed simp


text \<open>
  The interleavings of any number of runs. The second component is the multiset of
  registrations that no scope releases: each is released once by the code that made it.
\<close>

inductive sink_reach :: "secret_sink \<Rightarrow> string multiset \<Rightarrow> bool" where
  reach_empty: "sink_reach empty_sink {#}"
| reach_register: "sink_reach s own \<Longrightarrow> register_secret k s = (Inr (), s') \<Longrightarrow> sink_reach s' (add_mset k own)"
| reach_refused: "sink_reach s own \<Longrightarrow> register_secret k s = (Inl e, s') \<Longrightarrow> sink_reach s' own"
| reach_unregister: "sink_reach s own \<Longrightarrow> k \<in># own \<Longrightarrow> sink_reach (unregister_secret k s) (own - {#k#})"
| reach_open: "sink_reach s own \<Longrightarrow> \<not> has_active_run_scoped_secret_scope run s \<Longrightarrow>
    sink_reach (open_run_scope run s) own"
| reach_scoped: "sink_reach s own \<Longrightarrow> has_active_run_scoped_secret_scope run s \<Longrightarrow>
    register_run_scoped_secret run k s = (r, s') \<Longrightarrow> sink_reach s' own"
| reach_close: "sink_reach s own \<Longrightarrow> sink_reach (close_run_scope run s) own"

definition scoped_count :: "secret_sink \<Rightarrow> string \<Rightarrow> nat" where
  "scoped_count s k = (\<Sum>(r, scoped) \<leftarrow> sk_scopes s. count_of scoped k)"

definition sink_ok :: "secret_sink \<Rightarrow> string multiset \<Rightarrow> bool" where
  "sink_ok s own \<longleftrightarrow> sink_wf s \<and>
     (\<forall>k. sink_count s k = (if long_secret k then count own k + scoped_count s k else 0))"


lemma sum_update:
  "(\<Sum>(r, x) \<leftarrow> AList.update r v xs. f x) + (case map_of xs r of None \<Rightarrow> 0 | Some x \<Rightarrow> f x) =
     (\<Sum>(r, x) \<leftarrow> xs. f x) + (f v :: nat)"
  by (induction xs) auto

lemma delete_fresh: "r \<notin> fst ` set xs \<Longrightarrow> AList.delete r xs = xs"
  by (induction xs) auto

lemma sum_delete:
  "distinct (map fst xs) \<Longrightarrow> map_of xs r = Some x \<Longrightarrow>
   (\<Sum>(r, x) \<leftarrow> AList.delete r xs. f x) + f x = (\<Sum>(r, x) \<leftarrow> xs. (f x :: nat))"
proof (induction xs)
  case (Cons p xs)
  then show ?case by (cases p) (auto simp: delete_fresh simp del: AList.delete_eq)
qed simp

lemma wf_object_delete [simp]: "wf_object obj \<Longrightarrow> wf_object (AList.delete k obj)"
  by (simp add: wf_object_def js_keys_def distinct_delete)

lemma sink_wf_register:
  assumes "sink_wf s" shows "sink_wf (snd (register_secret k s))"
  using assms
  by (auto simp: sink_wf_def register_secret_def assert_registrable_secret_def update_conv')

lemma sink_wf_unregister: "sink_wf s \<Longrightarrow> sink_wf (unregister_secret k s)"
  by (fastforce simp: sink_wf_def unregister_secret_def update_conv' delete_conv'
      split: option.splits if_splits)

lemma sink_wf_unregister_times: "sink_wf s \<Longrightarrow> sink_wf ((unregister_secret k ^^ n) s)"
  by (induction n) (auto intro: sink_wf_unregister)

lemma sink_wf_release: "sink_wf s \<Longrightarrow> sink_wf (release_scoped scoped s)"
  by (induction scoped s rule: release_scoped.induct) (auto intro: sink_wf_unregister_times)

lemma scoped_count_update:
  "scoped_count (s\<lparr>sk_scopes := AList.update run scoped (sk_scopes s)\<rparr>) k +
     (case map_of (sk_scopes s) run of None \<Rightarrow> 0 | Some sc \<Rightarrow> count_of sc k) =
   scoped_count s k + count_of scoped k"
  using sum_update[of "\<lambda>sc. count_of sc k" run scoped "sk_scopes s"] by (simp add: scoped_count_def)

lemma scoped_count_delete:
  assumes "sink_wf s" and "map_of (sk_scopes s) run = Some scoped"
  shows "scoped_count (s\<lparr>sk_scopes := AList.delete run (sk_scopes s)\<rparr>) k + count_of scoped k = scoped_count s k"
  using sum_delete[of "sk_scopes s" run scoped "\<lambda>sc. count_of sc k"] assms
  by (simp add: scoped_count_def sink_wf_def)

lemma scopes_register [simp]: "sk_scopes (snd (register_secret k s)) = sk_scopes s"
  by (simp add: register_secret_def split: sum.splits)

lemma sink_okD:
  assumes "sink_ok s own"
  shows "sink_wf s" and "sink_count s k = (if long_secret k then count own k + scoped_count s k else 0)"
  using assms by (simp_all add: sink_ok_def)

lemma scoped_count_eq: "sk_scopes s' = sk_scopes s \<Longrightarrow> scoped_count s' k = scoped_count s k"
  by (simp add: scoped_count_def)

lemma register_cases:
  "register_secret k s = (r, s') \<Longrightarrow> r = Inr () \<or> (\<exists>e. r = Inl e \<and> s' = s)"
  by (cases r) (auto simp: register_secret_def split: if_splits sum.splits)

lemma sink_ok_register:
  assumes "sink_ok s own" and "register_secret k s = (Inr (), s')"
  shows "sink_ok s' (add_mset k own)"
proof -
  have scopes: "sk_scopes s' = sk_scopes s" using scopes_register[of k s] assms(2) by simp
  have "sink_wf s'" using sink_wf_register[OF sink_okD(1)[OF assms(1)], of k] assms(2) by simp
  then show ?thesis
    using sink_okD(2)[OF assms(1)] sink_count_register[OF assms(2)] scoped_count_eq[OF scopes]
    by (auto simp: sink_ok_def)
qed

lemma sink_ok_open:
  assumes "sink_ok s own" and "\<not> has_active_run_scoped_secret_scope run s"
  shows "sink_ok (open_run_scope run s) own"
proof -
  have wf: "sink_wf s" by (rule sink_okD[OF assms(1)])
  have none: "map_of (sk_scopes s) run = None"
    using assms(2) by (simp add: has_active_run_scoped_secret_scope_def)
  have "sink_wf (open_run_scope run s)"
    using wf by (auto simp: sink_wf_def open_run_scope_def update_conv' distinct_update)
  moreover have "scoped_count (open_run_scope run s) k = scoped_count s k" for k
    using scoped_count_update[where s = s and run = run and scoped = "[]" and k = k] none by (simp add: open_run_scope_def)
  ultimately show ?thesis
    using sink_okD(2)[OF assms(1)] by (simp add: sink_ok_def sink_count_def open_run_scope_def)
qed

lemma sink_ok_scoped:
  assumes ok: "sink_ok s own" and active: "has_active_run_scoped_secret_scope run s"
    and "register_run_scoped_secret run k s = (r, s')"
  shows "sink_ok s' own"
proof -
  obtain r1 s1 where r1: "register_secret k s = (r1, s1)" by (cases "register_secret k s")
  show ?thesis
  proof (cases "r1 = Inr () \<and> long_secret k")
    case False
    have "s' = s"
    proof (cases "long_secret k")
      case True
      then obtain e where "r1 = Inl e" "s1 = s" using False register_cases[OF r1] by auto
      then show ?thesis using assms(3) r1 by (simp add: register_run_scoped_secret_def)
    next
      case False
      then show ?thesis
        using assms(3) by (simp add: register_run_scoped_secret_def register_secret_def long_secret_def)
    qed
    then show ?thesis using ok by simp
  next
    case True
    have scopes: "sk_scopes s1 = sk_scopes s" using scopes_register[of k s] r1 by simp
    then obtain scoped where sc: "map_of (sk_scopes s1) run = Some scoped"
      using active by (auto simp: has_active_run_scoped_secret_scope_def)
    let ?new = "AList.update k (count_of scoped k + 1) scoped"
    have s': "s' = s1\<lparr>sk_scopes := AList.update run ?new (sk_scopes s1)\<rparr>"
      using assms(3) True r1 sc by (auto simp: register_run_scoped_secret_def long_secret_def)
    have ok1: "sink_ok s1 (add_mset k own)" using sink_ok_register[OF ok] r1 True by simp
    have wf1: "sink_wf s1" by (rule sink_okD[OF ok1])
    have "sink_wf s'"
      using wf1 sc by (auto simp: sink_wf_def s' update_conv' distinct_update)
    moreover have "sink_count s' k' = (if long_secret k' then count own k' + scoped_count s' k' else 0)" for k'
      using sink_okD(2)[OF ok1, of k'] scoped_count_update[where s = s1 and run = run and scoped = ?new and k = k'] sc True
      by (cases "long_secret k'"; cases "k' = k") (simp_all add: s' sink_count_def)
    ultimately show ?thesis by (simp add: sink_ok_def)
  qed
qed

lemma sink_ok_unregister:
  assumes "sink_ok s own" and "k \<in># own"
  shows "sink_ok (unregister_secret k s) (own - {#k#})"
proof -
  have "sink_count (unregister_secret k s) k' = (if long_secret k' then count (own - {#k#}) k' + scoped_count s k' else 0)" for k'
  proof -
    have "0 < count own k" using assms(2) by simp
    then show ?thesis
      using sink_okD(2)[OF assms(1), of k']
      by (cases "k' = k"; cases "long_secret k'") (simp_all add: sink_count_unregister)
  qed
  then show ?thesis
    using sink_wf_unregister[OF sink_okD(1)[OF assms(1)]] scoped_count_eq[of "unregister_secret k s" s]
    by (simp add: sink_ok_def)
qed

lemma sink_ok_close:
  assumes ok: "sink_ok s own" shows "sink_ok (close_run_scope run s) own"
proof (cases "map_of (sk_scopes s) run")
  case None
  then show ?thesis using ok by (simp add: close_run_scope_def)
next
  case (Some scoped)
  let ?s1 = "s\<lparr>sk_scopes := AList.delete run (sk_scopes s)\<rparr>"
  have wf: "sink_wf s" by (rule sink_okD[OF ok])
  have wf1: "sink_wf ?s1"
    using wf by (auto simp: sink_wf_def delete_conv' distinct_delete split: if_splits)
  have "wf_object scoped" using wf Some by (auto simp: sink_wf_def)
  note released = sink_count_release[OF this, of ?s1]
  have "sink_count (release_scoped scoped ?s1) k =
      (if long_secret k then count own k + scoped_count ?s1 k else 0)" for k
    using released[of k] sink_okD(2)[OF ok, of k] scoped_count_delete[OF wf Some, of k]
    by (auto simp: sink_count_def)
  then show ?thesis
    using sink_wf_release[OF wf1] scoped_count_eq[of "release_scoped scoped ?s1" ?s1]
    by (simp add: sink_ok_def close_run_scope_def Some)
qed

lemma sink_ok_reach: "sink_reach s own \<Longrightarrow> sink_ok s own"
proof (induction rule: sink_reach.induct)
  case reach_empty
  then show ?case by (simp add: sink_ok_def sink_wf_def empty_sink_def sink_count_def scoped_count_def)
next
  case (reach_refused s own k e s')
  then show ?case by (auto dest: register_cases)
qed (auto intro: sink_ok_register sink_ok_unregister sink_ok_open sink_ok_scoped sink_ok_close)

text \<open>
  C25: the registry is exact under concurrent runs. In every interleaving of runs that open and
  close their scopes, register secrets in them and register and release secrets of their own,
  a secret of at least the minimum length is known to the registry exactly as long as an open
  run or an outstanding registration holds it, with the number of those registrations; so
  closing one run never unmasks a secret of another, and nothing stays behind.
\<close>

theorem registry_counts_holders:
  assumes "sink_reach s own" and "long_secret k"
  shows "sink_count s k = count own k + scoped_count s k \<and>
    (k \<in> set (get_registered_secrets s) \<longleftrightarrow> 0 < count own k + scoped_count s k)"
proof -
  have ok: "sink_ok s own" by (rule sink_ok_reach[OF assms(1)])
  have "k \<in> set (get_registered_secrets s) \<longleftrightarrow> 0 < sink_count s k"
  proof (cases "map_of (sk_counts s) k")
    case None
    then have "k \<notin> fst ` set (sk_counts s)" by (simp add: map_of_eq_None_iff)
    then show ?thesis
      by (simp add: get_registered_secrets_def js_keys_def sink_count_def count_of_def None)
  next
    case (Some n)
    then have "k \<in> fst ` set (sk_counts s)" by (metis map_of_eq_None_iff option.distinct(1))
    then show ?thesis
      using Some sink_okD(1)[OF ok]
      by (simp add: get_registered_secrets_def js_keys_def sink_count_def count_of_def sink_wf_def)
  qed
  then show ?thesis using sink_okD(2)[OF ok, of k] assms(2) by simp
qed


definition sample_secret :: string where
  "sample_secret = ''hunter2hunter2''"

theorem registry_counts_holders_witness:
  "\<exists>s. sink_reach s {#} \<and> sink_count s sample_secret = 1 \<and> sample_secret \<in> set (get_registered_secrets s)"
proof -
  let ?open = "\<lambda>run s. open_run_scope run s"
  let ?s2 = "?open 2 (?open 1 empty_sink)"
  let ?s3 = "snd (register_run_scoped_secret 1 sample_secret ?s2)"
  let ?s4 = "snd (register_run_scoped_secret 2 sample_secret ?s3)"
  have "sink_reach (?open 1 empty_sink) {#}"
    by (rule reach_open[OF reach_empty]) (simp add: has_active_run_scoped_secret_scope_def empty_sink_def)
  then have "sink_reach ?s2 {#}"
    by (rule reach_open) (simp add: has_active_run_scoped_secret_scope_def empty_sink_def open_run_scope_def)
  then have "sink_reach ?s3 {#}"
    by (rule reach_scoped[OF _ _ prod.collapse[symmetric]])
      (simp add: has_active_run_scoped_secret_scope_def open_run_scope_def empty_sink_def)
  then have "sink_reach ?s4 {#}"
    by (rule reach_scoped[OF _ _ prod.collapse[symmetric]]) code_simp
  then have closed: "sink_reach (close_run_scope 1 ?s4) {#}" by (rule reach_close)
  moreover have long: "long_secret sample_secret" by code_simp
  moreover have "scoped_count (close_run_scope 1 ?s4) sample_secret = 1" by code_simp
  ultimately show ?thesis using registry_counts_holders[OF closed long] by auto
qed

subsection \<open>Scoped registrations\<close>

lemma registrable_register:
  "\<not> js_includes k redacted \<Longrightarrow> register_secret k s = (Inr (), snd (register_secret k s))"
  by (auto simp: register_secret_def assert_registrable_secret_def)

lemma sink_count_register_all:
  "list_all (\<lambda>k. \<not> js_includes k redacted) ks \<Longrightarrow>
   sink_count (register_all ks s) k =
     sink_count s k + (if long_secret k then count_list ks k else 0)"
proof (induction ks arbitrary: s)
  case (Cons a ks)
  have "sink_count (snd (register_secret a s)) k = sink_count s k + (if long_secret a \<and> k = a then 1 else 0)"
    using Cons.prems by (intro sink_count_register registrable_register) simp
  then show ?case using Cons by (auto simp: register_all_def)
qed (simp add: register_all_def)

lemma sink_count_unregister_all:
  "sink_count (fold unregister_secret ks s) k =
     sink_count s k - (if long_secret k then count_list ks k else 0)"
  by (induction ks arbitrary: s) (auto simp: sink_count_unregister)

lemma find_none_registrable:
  "List.find (\<lambda>k. js_includes k redacted) ks = None \<longleftrightarrow> list_all (\<lambda>k. \<not> js_includes k redacted) ks"
  by (auto simp: find_None_iff list_all_iff)

text \<open>
  a scoped registration is balanced on every path. Whatever the body returns or throws,
  and also when a secret is refused before anything is registered, every count is afterwards
  what it was before, if the body itself leaves the counts as it finds them.
\<close>

theorem registered_secrets_released:
  assumes "\<And>s k. sink_count (snd (body s)) k = sink_count s k"
  shows "sink_count (snd (with_registered_secrets secrets body s)) k = sink_count s k"
proof (cases "List.find (\<lambda>k. js_includes k redacted) secrets")
  case (Some x)
  then show ?thesis by (simp add: with_registered_secrets_def)
next
  case None
  let ?ks = "filter (\<lambda>k. minimum_secret_length \<le> length k) secrets"
  have ok: "list_all (\<lambda>k. \<not> js_includes k redacted) ?ks"
    using None by (simp add: find_none_registrable list_all_iff)
  have "snd (with_registered_secrets secrets body s) =
      fold unregister_secret ?ks (snd (body (register_all ?ks s)))"
    by (simp add: with_registered_secrets_def None Let_def split: prod.splits)
  then show ?thesis
    by (simp add: sink_count_unregister_all assms sink_count_register_all[OF ok])
qed

definition failing_body :: "(module_result, secret_sink) effect" where
  "failing_body s = (Inl (CommandErr (''login '' @ sample_secret) [] []), s)"

theorem registered_secrets_released_witness:
  "sink_count (snd (with_registered_secrets [sample_secret] failing_body empty_sink)) sample_secret = 0 \<and>
   fst (with_registered_secrets [sample_secret] failing_body empty_sink) =
     Inl (CommandErr (''login '' @ redacted) [] [])"
proof
  show "sink_count (snd (with_registered_secrets [sample_secret] failing_body empty_sink)) sample_secret = 0"
    using registered_secrets_released[of failing_body "[sample_secret]" empty_sink sample_secret]
    by (simp add: failing_body_def sink_count_def empty_sink_def)
  show "fst (with_registered_secrets [sample_secret] failing_body empty_sink) =
      Inl (CommandErr (''login '' @ redacted) [] [])"
    by code_simp
qed

end
