(* ===== verification/Totp.thy ===== *)
theory Totp
  imports JsString Prelude "HOL-Library.Word"
begin

text \<open>
  One-time passwords (\<^verbatim>\<open>totp.ts\<close>): the base32 decoder, the truncation of the digest and the
  parameters of an \<^verbatim>\<open>otpauth\<close> URI. Bitwise operations of the language work on 32-bit
  words, so the bit buffer is a word that wraps. The parsed URI is the record \<open>totp_url\<close>
  (parsing is the standard library's), HMAC is a parameter and the clock is an argument.
\<close>

unbundle bit_operations_syntax

definition max_base32_input_length :: nat where
  "max_base32_input_length = 1024"

definition base32_alphabet :: string where
  "base32_alphabet = ''ABCDEFGHIJKLMNOPQRSTUVWXYZ234567''"

text \<open>
  \<^verbatim>\<open>toUpperCase\<close>: the sharp s becomes two characters; the micro sign and the y with diaeresis
  have an upper case outside the alphabet of the model and are kept, they are not base32
  characters in either form.
\<close>

definition upper_char :: "char \<Rightarrow> string" where
  "upper_char c =
     (if is_lower c \<or> (char_between 224 254 c \<and> code c \<noteq> 247) then [char_of (code c - 32)]
      else if code c = 223 then ''SS'' else [c])"

definition to_upper :: "string \<Rightarrow> string" where
  "to_upper s = concat (map upper_char s)"

definition shift_in :: "32 word \<Rightarrow> nat \<Rightarrow> 32 word" where
  "shift_in bit_buffer index = push_bit 5 bit_buffer OR word_of_nat index"

text \<open>\<^verbatim>\<open>>>\<close> shifts the sign in, \<^verbatim>\<open>& 0xff\<close> keeps the low byte.\<close>

definition take_byte :: "32 word \<Rightarrow> nat \<Rightarrow> nat" where
  "take_byte bit_buffer bit_count = unat (signed_drop_bit bit_count bit_buffer AND 0xFF)"

fun accumulate_base32_bytes :: "32 word \<Rightarrow> nat \<Rightarrow> string \<Rightarrow> nat list result" where
  "accumulate_base32_bytes bit_buffer bit_count [] = Inr []"
| "accumulate_base32_bytes bit_buffer bit_count (character # stripped) =
     (case index_of character base32_alphabet of
        None \<Rightarrow> Inl (GenericError (''Invalid Base32 character: '' @ [character]))
      | Some index \<Rightarrow>
          (let buffer1 = shift_in bit_buffer index; count1 = bit_count + 5
           in if 8 \<le> count1
              then map_sum id (Cons (take_byte buffer1 (count1 - 8)))
                     (accumulate_base32_bytes buffer1 (count1 - 8) stripped)
              else accumulate_base32_bytes buffer1 count1 stripped))"

definition decode_base32 :: "string \<Rightarrow> nat list result" where
  "decode_base32 encoded =
     (if max_base32_input_length < length encoded
      then Inl (GenericError (''Base32 input exceeds the '' @ show_nat max_base32_input_length
             @ ''-character limit (got '' @ show_nat (length encoded) @ '')''))
      else accumulate_base32_bytes 0 0
             (filter (\<lambda>c. c \<noteq> CHR ''='' \<and> \<not> js_space c) (to_upper encoded)))"

definition byte_at :: "nat list \<Rightarrow> nat \<Rightarrow> 32 word" where
  "byte_at digest i = (if i < length digest then word_of_nat (digest ! i) else 0)"

definition pad_start :: "nat \<Rightarrow> char \<Rightarrow> string \<Rightarrow> string" where
  "pad_start n c s = replicate (n - length s) c @ s"

definition binary_code :: "nat list \<Rightarrow> nat" where
  "binary_code digest =
     (let offset = (if digest = [] then 0 else unat ((word_of_nat (last digest) :: 32 word) AND 0x0F))
      in nat (sint (push_bit 24 (byte_at digest offset AND 0x7F) OR
                    push_bit 16 (byte_at digest (offset + 1) AND 0xFF) OR
                    push_bit 8 (byte_at digest (offset + 2) AND 0xFF) OR
                    (byte_at digest (offset + 3) AND 0xFF))))"

definition truncate_hmac :: "nat list \<Rightarrow> nat \<Rightarrow> string" where
  "truncate_hmac digest digits = pad_start digits (CHR ''0'') (show_nat (binary_code digest mod 10 ^ digits))"

record totp_url =
  tu_protocol :: string
  tu_hostname :: string
  tu_params :: "(string \<times> string) list"

definition default_period :: nat where "default_period = 30"
definition default_digits :: nat where "default_digits = 6"
definition max_digits :: nat where "max_digits = 8"

definition parse_algorithm :: "totp_url \<Rightarrow> string result" where
  "parse_algorithm url =
     (let algorithm_parameter =
            to_upper (case map_of (tu_params url) ''algorithm'' of None \<Rightarrow> ''SHA1'' | Some a \<Rightarrow> a)
      in if algorithm_parameter = ''SHA1'' then Inr ''sha1''
         else if algorithm_parameter = ''SHA256'' then Inr ''sha256''
         else if algorithm_parameter = ''SHA512'' then Inr ''sha512''
         else Inl (GenericError (''Unsupported TOTP algorithm '' @ [squote] @ algorithm_parameter
                @ [squote] @ ''. Supported: SHA1, SHA256, SHA512'')))"

fun parse_nat_from :: "nat \<Rightarrow> string \<Rightarrow> nat" where
  "parse_nat_from acc [] = acc"
| "parse_nat_from acc (c # cs) = parse_nat_from (10 * acc + (code c - 48)) cs"

definition period_error :: exn where
  "period_error = GenericError (''TOTP '' @ [squote] @ ''period'' @ [squote] @ '' must be a positive integer'')"

definition digits_error :: exn where
  "digits_error = GenericError (''TOTP '' @ [squote] @ ''digits'' @ [squote] @ '' must be an integer between 1 and 8'')"

definition parse_decimal_integer :: "string \<Rightarrow> string \<Rightarrow> nat result" where
  "parse_decimal_integer raw_value parameter_name =
     (if raw_value = [] \<or> \<not> list_all is_digit raw_value
      then Inl (if parameter_name = ''period'' then period_error else digits_error)
      else Inr (parse_nat_from 0 raw_value))"

definition validate_totp_uri :: "totp_url \<Rightarrow> unit result" where
  "validate_totp_uri url =
     (if tu_protocol url \<noteq> ''otpauth:'' then Inl (GenericError ''TOTP URI must use the otpauth:// scheme'')
      else if tu_hostname url \<noteq> ''totp'' then Inl (GenericError ''TOTP URI must use the otpauth://totp/... type'')
      else Inr ())"

record totp_parameters =
  tp_algorithm :: string
  tp_digits :: nat
  tp_period :: nat
  tp_secret :: string

text \<open>
  The parsed integers are unbounded here. \<^verbatim>\<open>Number.isFinite\<close> only fails above the largest
  double, which is about two to the power of 1024; the model refuses the same values.
\<close>

definition finite_number :: "nat \<Rightarrow> bool" where
  "finite_number n \<longleftrightarrow> n < 2 ^ 1024 - 2 ^ 970"

definition parse_totp_parameters :: "totp_url \<Rightarrow> totp_parameters result" where
  "parse_totp_parameters url =
     (case validate_totp_uri url of
        Inl e \<Rightarrow> Inl e
      | Inr _ \<Rightarrow>
          (case map_of (tu_params url) ''secret'' of
             None \<Rightarrow> Inl (GenericError (''TOTP URI is missing the '' @ [squote] @ ''secret'' @ [squote] @ '' parameter''))
           | Some secret \<Rightarrow>
               (if secret = []
                then Inl (GenericError (''TOTP URI is missing the '' @ [squote] @ ''secret'' @ [squote] @ '' parameter''))
                else
                (case parse_decimal_integer (case map_of (tu_params url) ''period'' of
                        None \<Rightarrow> show_nat default_period | Some p \<Rightarrow> p) ''period'' of
                   Inl e \<Rightarrow> Inl e
                 | Inr period \<Rightarrow>
                     (case parse_decimal_integer (case map_of (tu_params url) ''digits'' of
                             None \<Rightarrow> show_nat default_digits | Some d \<Rightarrow> d) ''digits'' of
                        Inl e \<Rightarrow> Inl e
                      | Inr digits \<Rightarrow>
                          (if \<not> finite_number period \<or> period \<le> 0 then Inl period_error
                           else if \<not> finite_number digits \<or> digits < 1 \<or> max_digits < digits then Inl digits_error
                           else (case parse_algorithm url of
                                   Inl e \<Rightarrow> Inl e
                                 | Inr algorithm \<Rightarrow>
                                     Inr \<lparr>tp_algorithm = algorithm, tp_digits = digits, tp_period = period,
                                          tp_secret = secret\<rparr>)))))))"

definition assert_valid_totp_seed :: "totp_url \<Rightarrow> unit result" where
  "assert_valid_totp_seed url =
     (case parse_totp_parameters url of
        Inl e \<Rightarrow> Inl e
      | Inr p \<Rightarrow> map_sum id (\<lambda>_. ()) (decode_base32 (tp_secret p)))"

text \<open>The counter as eight bytes, most significant first; it is below two to the power of 64.\<close>

definition counter_bytes :: "nat \<Rightarrow> nat list" where
  "counter_bytes counter = map (\<lambda>i. counter div 256 ^ (7 - i) mod 256) [0 ..< 8]"

definition generate_totp_code ::
  "(string \<Rightarrow> nat list \<Rightarrow> nat list \<Rightarrow> nat list) \<Rightarrow> nat \<Rightarrow> totp_url \<Rightarrow> string result" where
  "generate_totp_code hmac now_ms url =
     (case parse_totp_parameters url of
        Inl e \<Rightarrow> Inl e
      | Inr p \<Rightarrow>
          (case decode_base32 (tp_secret p) of
             Inl e \<Rightarrow> Inl e
           | Inr key \<Rightarrow>
               (let counter = now_ms div 1000 div tp_period p
                in Inr (truncate_hmac (hmac (tp_algorithm p) key (counter_bytes counter)) (tp_digits p)))))"

subsection \<open>The wrapping bit buffer\<close>

text \<open>
  The reference decoder keeps the bits in an unbounded number. The buffer of the code is
  never cleared: it holds every bit seen so far modulo 32 bits, and the byte that is taken is
  among the lowest twelve.
\<close>

fun base32_reference :: "nat \<Rightarrow> nat \<Rightarrow> string \<Rightarrow> nat list result" where
  "base32_reference bits bit_count [] = Inr []"
| "base32_reference bits bit_count (c # cs) =
     (case index_of c base32_alphabet of
        None \<Rightarrow> Inl (GenericError (''Invalid Base32 character: '' @ [c]))
      | Some index \<Rightarrow>
          (let bits1 = 32 * bits + index; count1 = bit_count + 5
           in if 8 \<le> count1
              then map_sum id (Cons (bits1 div 2 ^ (count1 - 8)))
                     (base32_reference (bits1 mod 2 ^ (count1 - 8)) (count1 - 8) cs)
              else base32_reference bits1 count1 cs))"

definition same_low_bits :: "nat \<Rightarrow> 32 word \<Rightarrow> nat \<Rightarrow> bool" where
  "same_low_bits n buffer bits \<longleftrightarrow> bits < 2 ^ n \<and> unat buffer mod 2 ^ n = bits"

lemma index_bound: "index_of c base32_alphabet = Some i \<Longrightarrow> i < 32"
  using index_of_Some[of c base32_alphabet i] by (simp add: base32_alphabet_def)

lemma low_bits_disjoint:
  assumes "i < 32" shows "push_bit 5 (buffer :: 32 word) AND word_of_nat i = 0"
proof (rule bit_word_eqI)
  fix n
  have i: "take_bit 5 i = i" using assms by (simp add: take_bit_nat_eq_self_iff)
  have "n < 5" if "bit i n"
  proof -
    have "bit (take_bit 5 i) n" using that i by simp
    then show ?thesis by (simp only: bit_take_bit_iff)
  qed
  then show "bit (push_bit 5 buffer AND word_of_nat i) n = bit (0 :: 32 word) n"
    by (auto simp: bit_simps)
qed

lemma shift_in_value: "i < 32 \<Longrightarrow> unat (shift_in buffer i) = (32 * unat buffer + i) mod 2 ^ 32"
proof -
  assume i: "i < 32"
  have "shift_in buffer i = push_bit 5 buffer + word_of_nat i"
    using low_bits_disjoint[OF i, of buffer] by (simp add: shift_in_def disjunctive_add_eq_or)
  also have "\<dots> = word_of_nat (32 * unat buffer + i)"
    by (simp add: push_bit_eq_mult)
  finally have eq: "shift_in buffer i = word_of_nat (32 * unat buffer + i)" .
  show ?thesis unfolding eq by (subst unat_of_nat) simp
qed

lemma mod_shift: "n \<le> 27 \<Longrightarrow> (32 * b + i) mod 2 ^ 32 mod 2 ^ (n + 5) = (32 * (b mod 2 ^ n) + i) mod 2 ^ (n + 5)"
  for b i n :: nat
proof -
  assume n: "n \<le> 27"
  have "(32 * b + i) mod 2 ^ 32 mod 2 ^ (n + 5) = (32 * b + i) mod 2 ^ (n + 5)"
    using n by (intro mod_mod_cancel le_imp_power_dvd) simp
  also have "\<dots> = (32 * b mod 2 ^ (n + 5) + i) mod 2 ^ (n + 5)" by (rule mod_add_left_eq[symmetric])
  also have "32 * b mod 2 ^ (n + 5) = 32 * (b mod 2 ^ n)"
  proof -
    have eq: "2 ^ (n + 5) = 32 * (2 :: nat) ^ n" by (simp add: power_add)
    show ?thesis unfolding eq by (rule mult_mod_right[symmetric])
  qed
  finally show ?thesis .
qed

lemma same_low_bits_shift:
  assumes "same_low_bits n buffer bits" and "i < 32" and "n \<le> 27"
  shows "same_low_bits (n + 5) (shift_in buffer i) (32 * bits + i)"
proof -
  have b: "bits < 2 ^ n" "unat buffer mod 2 ^ n = bits" using assms(1) by (simp_all add: same_low_bits_def)
  have "32 * bits + i < 32 * 2 ^ n" 
  proof -
    have "32 * (bits + 1) \<le> 32 * 2 ^ n" using b(1) by (intro mult_le_mono) simp_all
    then show ?thesis using assms(2) by simp
  qed
  then have lt: "32 * bits + i < 2 ^ (n + 5)" by (simp add: power_add mult.commute)
  have "unat (shift_in buffer i) mod 2 ^ (n + 5) = (32 * bits + i) mod 2 ^ (n + 5)"
    using mod_shift[OF assms(3), of "unat buffer" i] by (simp only: shift_in_value[OF assms(2)] b(2))
  then show ?thesis using lt by (simp add: same_low_bits_def)
qed

lemma same_low_bits_drop: "same_low_bits n buffer bits \<Longrightarrow> m \<le> n \<Longrightarrow> same_low_bits m buffer (bits mod 2 ^ m)"
  by (auto simp: same_low_bits_def le_imp_power_dvd mod_mod_cancel)

lemma take_byte_value:
  assumes "same_low_bits (m + 8) buffer bits" and "m < 8"
  shows "take_byte buffer m = bits div 2 ^ m"
proof -
  have b: "bits < 2 ^ (m + 8)" "unat buffer mod 2 ^ (m + 8) = bits"
    using assms(1) by (simp_all add: same_low_bits_def)
  have "unat buffer < 2 ^ LENGTH(32)" by (rule unsigned_less)
  then have lt: "unat buffer < 4294967296" by simp
  have "signed_drop_bit m buffer AND mask 8 = drop_bit m buffer AND mask 8"
    using assms(2) by (intro bit_word_eqI) (auto simp: bit_simps)
  then have "take_byte buffer m = unat (take_bit 8 (drop_bit m buffer))"
    by (simp add: take_byte_def take_bit_eq_mask mask_eq_exp_minus_1)
  also have "unat (take_bit 8 (drop_bit m buffer)) = unat buffer div 2 ^ m mod 2 ^ 8"
    using lt by (simp only: unsigned_take_bit_eq unsigned_drop_bit_eq) (simp add: take_bit_eq_mod drop_bit_eq_div)
  also have "\<dots> = unat buffer mod 2 ^ (m + 8) div 2 ^ m"
    by (simp add: power_add mod_mult2_eq div_mult2_eq)
  finally show ?thesis by (simp add: b(2))
qed


lemma accumulate_reference:
  "same_low_bits n buffer bits \<Longrightarrow> n < 8 \<Longrightarrow>
   accumulate_base32_bytes buffer n s = base32_reference bits n s"
proof (induction s arbitrary: buffer n bits)
  case (Cons c s)
  show ?case
  proof (cases "index_of c base32_alphabet")
    case (Some i)
    note shifted = same_low_bits_shift[OF Cons.prems(1) index_bound[OF Some]]
    show ?thesis
    proof (cases "8 \<le> n + 5")
      case True
      let ?m = "n + 5 - 8"
      have low: "same_low_bits (?m + 8) (shift_in buffer i) (32 * bits + i)"
        using shifted True Cons.prems(2) by (simp add: add.commute)
      have "take_byte (shift_in buffer i) ?m = (32 * bits + i) div 2 ^ ?m"
        using low Cons.prems(2) by (intro take_byte_value) simp_all
      moreover have "same_low_bits ?m (shift_in buffer i) ((32 * bits + i) mod 2 ^ ?m)"
        using low by (rule same_low_bits_drop) simp
      then have "accumulate_base32_bytes (shift_in buffer i) ?m s =
          base32_reference ((32 * bits + i) mod 2 ^ ?m) ?m s"
        using Cons.prems(2) by (intro Cons.IH) simp_all
      ultimately show ?thesis using True by (simp add: Some Let_def)
    next
      case False
      then show ?thesis using shifted Cons.IH[of "n + 5"] Cons.prems(2) by (simp add: Some Let_def)
    qed
  qed simp
qed simp

fun base32_value :: "string \<Rightarrow> nat" where
  "base32_value [] = 0"
| "base32_value (c # cs) = the (index_of c base32_alphabet) * 32 ^ length cs + base32_value cs"

fun bytes_value :: "nat list \<Rightarrow> nat" where
  "bytes_value [] = 0"
| "bytes_value (b # bs) = b * 256 ^ length bs + bytes_value bs"

lemma div8_step: "(a + 8) div 8 = Suc (a div 8)" "(a + 8) mod 8 = a mod 8" for a :: nat
  by presburger+

lemma reference_value:
  "base32_reference bits n s = Inr bytes \<Longrightarrow> bits < 2 ^ n \<Longrightarrow> n < 8 \<Longrightarrow>
   length bytes = (n + 5 * length s) div 8 \<and>
   bytes_value bytes = (bits * 32 ^ length s + base32_value s) div 2 ^ ((n + 5 * length s) mod 8) \<and>
   list_all (\<lambda>b. b < 256) bytes"
proof (induction s arbitrary: bits n bytes)
  case Nil
  then show ?case by simp
next
  case (Cons c s)
  let ?k = "length s"
  obtain i where i: "index_of c base32_alphabet = Some i"
    using Cons.prems(1) by (auto split: option.splits)
  have i32: "i < 32" by (rule index_bound[OF i])
  let ?b = "32 * bits + i"
  have total: "bits * 32 ^ length (c # s) + base32_value (c # s) = ?b * 32 ^ ?k + base32_value s"
    by (simp add: i algebra_simps)
  have bound: "?b < 2 ^ (n + 5)"
  proof -
    have "32 * (bits + 1) \<le> 32 * 2 ^ n" using Cons.prems(2) by (intro mult_le_mono) simp_all
    then show ?thesis using i32 by (simp add: power_add)
  qed
  show ?case
  proof (cases "8 \<le> n + 5")
    case False
    then have "base32_reference ?b (n + 5) s = Inr bytes" using Cons.prems(1) by (simp add: i Let_def)
    from Cons.IH[OF this bound] False show ?thesis
      by (simp only: total) (simp add: algebra_simps)
  next
    case True
    let ?m = "n + 5 - 8"
    obtain rest where rest: "base32_reference (?b mod 2 ^ ?m) ?m s = Inr rest"
      and bytes: "bytes = ?b div 2 ^ ?m # rest"
      using Cons.prems(1) True by (auto simp: i Let_def map_sum_def split: sum.splits)
    have "?b mod 2 ^ ?m < 2 ^ ?m" by simp
    note IH = Cons.IH[OF rest this]
    have m8: "?m < 8" using Cons.prems(3) by simp
    let ?r = "(?m + 5 * ?k) mod 8"
    have len: "length rest = (?m + 5 * ?k) div 8" using IH m8 by simp
    have split: "n + 5 * length (c # s) = (?m + 5 * ?k) + 8" using True by simp
    have exp: "?m + 5 * ?k = 8 * length rest + ?r" by (simp add: len)
    have p32: "(32 :: nat) ^ ?k = 2 ^ (5 * ?k)" and p256: "(256 :: nat) ^ length rest = 2 ^ (8 * length rest)"
      by (simp_all add: power_mult)
    have pow: "(2 :: nat) ^ ?m * 32 ^ ?k = 256 ^ length rest * 2 ^ ?r"
      unfolding p32 p256 power_add[symmetric] by (rule arg_cong[OF exp])
    have "?b * 32 ^ ?k = ((?b div 2 ^ ?m) * 2 ^ ?m + ?b mod 2 ^ ?m) * 32 ^ ?k" by (simp only: div_mult_mod_eq)
    also have "\<dots> = (?b div 2 ^ ?m) * (2 ^ ?m * 32 ^ ?k) + (?b mod 2 ^ ?m) * 32 ^ ?k"
      by (simp only: algebra_simps)
    finally have digits: "?b * 32 ^ ?k = (?b div 2 ^ ?m) * (2 ^ ?m * 32 ^ ?k) + (?b mod 2 ^ ?m) * 32 ^ ?k" .
    have sum: "?b * 32 ^ ?k + base32_value s =
        (?b div 2 ^ ?m * 256 ^ length rest) * 2 ^ ?r + ((?b mod 2 ^ ?m) * 32 ^ ?k + base32_value s)"
      unfolding digits pow by (simp only: mult.assoc add.assoc)
    have "bytes_value bytes = ?b div 2 ^ ?m * 256 ^ length rest + bytes_value rest" by (simp add: bytes)
    also have "\<dots> = ?b div 2 ^ ?m * 256 ^ length rest + ((?b mod 2 ^ ?m) * 32 ^ ?k + base32_value s) div 2 ^ ?r"
      using IH m8 by simp
    also have "\<dots> = (?b * 32 ^ ?k + base32_value s) div 2 ^ ?r"
      unfolding sum by simp
    finally have "bytes_value bytes = (?b * 32 ^ ?k + base32_value s) div 2 ^ ?r" .
    moreover have "?b div 2 ^ ?m < 256"
    proof (rule less_mult_imp_div_less)
      have "(2 :: nat) ^ (8 + ?m) = 256 * 2 ^ ?m" by (simp only: power_add) simp
      moreover have "8 + ?m = n + 5" using True by simp
      ultimately have "(2 :: nat) ^ (n + 5) = 256 * 2 ^ ?m" by (simp only:)
      then show "?b < 256 * 2 ^ ?m" using bound by (simp only:)
    qed
    ultimately show ?thesis
      using IH m8 len by (simp only: total split div8_step) (simp add: bytes)
  qed
qed

text \<open>
  C32: base32 decoding is exact although the bit buffer is a 32-bit integer that is never
  cleared and overflows after seven characters. The bytes of an accepted secret are the
  base-256 digits of the number its characters write in base 32, less the bits that do not
  fill a byte, and every one is below 256.
\<close>

theorem base32_decoding_exact:
  assumes "decode_base32 encoded = Inr bytes"
  shows "(let s = filter (\<lambda>c. c \<noteq> CHR ''='' \<and> \<not> js_space c) (to_upper encoded) in
     length bytes = 5 * length s div 8 \<and>
     bytes_value bytes = base32_value s div 2 ^ (5 * length s mod 8) \<and> list_all (\<lambda>b. b < 256) bytes)"
proof -
  let ?s = "filter (\<lambda>c. c \<noteq> CHR ''='' \<and> \<not> js_space c) (to_upper encoded)"
  have "accumulate_base32_bytes 0 0 ?s = Inr bytes"
    using assms by (simp add: decode_base32_def split: if_splits)
  then have "base32_reference 0 0 ?s = Inr bytes"
    using accumulate_reference[of 0 0 0 ?s] by (simp add: same_low_bits_def)
  from reference_value[OF this] show ?thesis by (simp add: Let_def)
qed

lemma sample_base32:
  "decode_base32 ''JBSWY3DPEHPK3PXP'' = Inr [72, 101, 108, 108, 111, 33, 222, 173, 190, 239]"
  by code_simp

theorem base32_decoding_exact_witness:
  "decode_base32 ''JBSWY3DPEHPK3PXP'' = Inr [72, 101, 108, 108, 111, 33, 222, 173, 190, 239] \<and>
   bytes_value [72, 101, 108, 108, 111, 33, 222, 173, 190, 239] = base32_value ''JBSWY3DPEHPK3PXP''"
proof -
  note run = sample_base32
  have "filter (\<lambda>c. c \<noteq> CHR ''='' \<and> \<not> js_space c) (to_upper ''JBSWY3DPEHPK3PXP'') = ''JBSWY3DPEHPK3PXP''"
    by code_simp
  then show ?thesis using base32_decoding_exact[OF run] run by (simp only: Let_def) simp
qed


subsection \<open>The code\<close>

lemma show_nat_length: "n < 10 ^ d \<Longrightarrow> 0 < d \<Longrightarrow> length (show_nat n) \<le> d"
proof (induction d arbitrary: n)
  case (Suc d)
  show ?case
  proof (cases "n < 10")
    case True
    then show ?thesis by (simp add: show_nat.simps[of n])
  next
    case False
    then have "0 < d" using Suc.prems(1) by (cases d) simp_all
    moreover have "n div 10 < 10 ^ d" using Suc.prems(1) by (simp add: div_less_iff_less_mult mult.commute)
    ultimately have "length (show_nat (n div 10)) \<le> d" by (intro Suc.IH)
    then show ?thesis using False by (simp add: show_nat.simps[of n])
  qed
qed simp

lemma low_mask: "x AND 0x7F = take_bit 7 x" "x AND 0xFF = take_bit 8 x" for x :: "32 word"
  by (simp_all add: take_bit_eq_mask mask_eq_exp_minus_1)

lemma four_bytes:
  fixes a b c d :: "32 word"
  shows "push_bit 24 (take_bit 7 a) OR push_bit 16 (take_bit 8 b) OR push_bit 8 (take_bit 8 c) OR take_bit 8 d =
    push_bit 24 (take_bit 7 a) + (push_bit 16 (take_bit 8 b) + (push_bit 8 (take_bit 8 c) + take_bit 8 d))"
proof -
  let ?a = "push_bit 24 (take_bit 7 a)" and ?b = "push_bit 16 (take_bit 8 b)"
    and ?c = "push_bit 8 (take_bit 8 c)" and ?d = "take_bit 8 d"
  have "?c AND ?d = 0" "?b AND (?c OR ?d) = 0" "?a AND (?b OR (?c OR ?d)) = 0"
    by (intro bit_word_eqI; auto simp: bit_simps)+
  then have "?c + ?d = ?c OR ?d" "?b + (?c OR ?d) = ?b OR (?c OR ?d)"
    "?a + (?b OR (?c OR ?d)) = ?a OR (?b OR (?c OR ?d))"
    by (simp_all only: disjunctive_add_eq_or)
  then show ?thesis by (simp add: or.assoc)
qed

definition digest_byte :: "nat list \<Rightarrow> nat \<Rightarrow> nat" where
  "digest_byte digest i = (if i < length digest then digest ! i else 0)"

definition rfc_truncation :: "nat list \<Rightarrow> nat" where
  "rfc_truncation digest =
     (let offset = (if digest = [] then 0 else last digest mod 16)
      in 2 ^ 24 * (digest_byte digest offset mod 128) + (2 ^ 16 * digest_byte digest (offset + 1)
         + (2 ^ 8 * digest_byte digest (offset + 2) + digest_byte digest (offset + 3))))"

lemma byte_at_low:
  assumes "list_all (\<lambda>b. b < 256) digest"
  shows "take_bit 8 (byte_at digest i) = word_of_nat (digest_byte digest i)"
    "take_bit 7 (byte_at digest i) = word_of_nat (digest_byte digest i mod 128)"
proof -
  have b: "byte_at digest i = word_of_nat (digest_byte digest i)"
    by (simp add: byte_at_def digest_byte_def)
  have "digest_byte digest i mod 256 = digest_byte digest i"
    using assms by (auto simp: list_all_length digest_byte_def)
  then show "take_bit 8 (byte_at digest i) = word_of_nat (digest_byte digest i)"
    unfolding b take_bit_of_nat by (simp only: take_bit_eq_mod) simp
  show "take_bit 7 (byte_at digest i) = word_of_nat (digest_byte digest i mod 128)"
    unfolding b take_bit_of_nat by (simp only: take_bit_eq_mod) simp
qed

lemma four_bytes_bound:
  "a < 128 \<Longrightarrow> b < 256 \<Longrightarrow> c < 256 \<Longrightarrow> d < 256 \<Longrightarrow>
   2 ^ 24 * a + (2 ^ 16 * b + (2 ^ 8 * c + d)) < (2 ^ 31 :: nat)"
  by simp

lemma sint_small: "n < 2 ^ 31 \<Longrightarrow> sint (word_of_nat n :: 32 word) = int n"
  by (simp add: signed_of_nat signed_take_bit_int_eq_self)

lemma parse_nat_from_append: "parse_nat_from acc (s @ t) = parse_nat_from (parse_nat_from acc s) t"
  by (induction s arbitrary: acc) simp_all

lemma parse_show_nat: "parse_nat_from 0 (show_nat n) = n"
proof (induction n rule: show_nat.induct)
  case (1 n)
  have digit: "d < 10 \<Longrightarrow> code (digit_char d) = d + 48" for d
    by (simp add: digit_char_def code_def)
  show ?case
    using 1 by (subst show_nat.simps) (simp add: parse_nat_from_append digit)
qed

lemma parse_pad_start: "parse_nat_from 0 (pad_start n (CHR ''0'') s) = parse_nat_from 0 s"
proof -
  have "parse_nat_from 0 (replicate m (CHR ''0'')) = 0" for m
    by (induction m) (simp_all add: code_def)
  then show ?thesis by (simp add: pad_start_def parse_nat_from_append)
qed

lemma binary_code_rfc:
  assumes "list_all (\<lambda>b. b < 256) digest"
  shows "binary_code digest = rfc_truncation digest \<and> rfc_truncation digest < 2 ^ 31"
proof -
  let ?byte = "digest_byte digest"
  let ?o = "if digest = [] then 0 else last digest mod 16"
  have offset: "(if digest = [] then 0 else unat ((word_of_nat (last digest) :: 32 word) AND 0x0F)) = ?o"
  proof -
    have "(word_of_nat (last digest) :: 32 word) AND 0x0F = take_bit 4 (word_of_nat (last digest))"
      by (simp add: take_bit_eq_mask mask_eq_exp_minus_1)
    also have "\<dots> = word_of_nat (last digest mod 16)" by (simp only: take_bit_of_nat) (simp add: take_bit_eq_mod)
    finally show ?thesis by (simp add: unat_of_nat)
  qed
  let ?n = "rfc_truncation digest"
  have small: "?byte i < 256" for i using assms by (auto simp: list_all_length digest_byte_def)
  have n: "?n = 2 ^ 24 * (?byte ?o mod 128) + (2 ^ 16 * ?byte (?o + 1) + (2 ^ 8 * ?byte (?o + 2) + ?byte (?o + 3)))"
    by (simp add: rfc_truncation_def Let_def)
  have bound: "?n < 2 ^ 31"
    unfolding n by (intro four_bytes_bound small) simp
  have "push_bit 24 (byte_at digest ?o AND 0x7F) OR push_bit 16 (byte_at digest (?o + 1) AND 0xFF) OR
      push_bit 8 (byte_at digest (?o + 2) AND 0xFF) OR (byte_at digest (?o + 3) AND 0xFF) = word_of_nat ?n"
    unfolding low_mask unfolding four_bytes unfolding byte_at_low[OF assms] n
    by (simp only: push_bit_eq_mult of_nat_add of_nat_mult of_nat_power of_nat_numeral mult.commute)
  then have "binary_code digest = nat (sint (word_of_nat ?n :: 32 word))"
    by (simp only: binary_code_def offset Let_def)
  also have "\<dots> = ?n" using sint_small[OF bound] by simp
  finally show ?thesis using bound by simp
qed

text \<open>
  a generated code is the one of RFC 4226. It has exactly the configured number of digits,
  one to eight, all decimal, and writes the truncated digest modulo that power of ten; the
  sign mask keeps the 32-bit number positive, below two to the power of 31.
\<close>

theorem totp_code_rfc:
  assumes "generate_totp_code hmac now url = Inr totp"
    and "\<And>algorithm key msg. list_all (\<lambda>b. b < 256) (hmac algorithm key msg)"
  shows "\<exists>p key. parse_totp_parameters url = Inr p \<and> decode_base32 (tp_secret p) = Inr key \<and>
    length totp = tp_digits p \<and> 1 \<le> tp_digits p \<and> tp_digits p \<le> 8 \<and> list_all is_digit totp \<and>
    (let digest = hmac (tp_algorithm p) key (counter_bytes (now div 1000 div tp_period p))
     in rfc_truncation digest < 2 ^ 31 \<and> parse_nat_from 0 totp = rfc_truncation digest mod 10 ^ tp_digits p)"
proof -
  obtain p where p: "parse_totp_parameters url = Inr p"
    using assms(1) by (auto simp: generate_totp_code_def split: sum.splits)
  obtain key where key: "decode_base32 (tp_secret p) = Inr key"
    using assms(1) p by (auto simp: generate_totp_code_def split: sum.splits)
  let ?digest = "hmac (tp_algorithm p) key (counter_bytes (now div 1000 div tp_period p))"
  have totp: "totp = truncate_hmac ?digest (tp_digits p)"
    using assms(1) by (simp add: generate_totp_code_def p key Let_def)
  have digits: "1 \<le> tp_digits p" "tp_digits p \<le> 8"
    using p by (auto simp: parse_totp_parameters_def max_digits_def split: sum.splits option.splits if_splits)
  let ?n = "rfc_truncation ?digest mod 10 ^ tp_digits p"
  note code = binary_code_rfc[OF assms(2)]
  have shown: "totp = pad_start (tp_digits p) (CHR ''0'') (show_nat ?n)"
    using code by (simp add: totp truncate_hmac_def)
  have "length (show_nat ?n) \<le> tp_digits p" using digits by (intro show_nat_length) simp_all
  then have "length totp = tp_digits p" by (simp add: shown pad_start_def)
  moreover have "list_all is_digit totp"
    using show_nat_digits[of ?n] by (auto simp: shown pad_start_def list_all_iff char_class_defs)
  ultimately show ?thesis
    using p key digits code by (auto simp: Let_def shown parse_pad_start parse_show_nat)
qed


text \<open>The example of RFC 4226, section 5.4.\<close>

definition sample_digest :: "nat list" where
  "sample_digest = [0x1f, 0x86, 0x98, 0x69, 0x0e, 0x02, 0xca, 0x16, 0x61, 0x85, 0x50, 0xef, 0x7f, 0x19,
     0xda, 0x8e, 0x94, 0x5b, 0x55, 0x5a]"

definition sample_totp_url :: totp_url where
  "sample_totp_url = \<lparr>tu_protocol = ''otpauth:'', tu_hostname = ''totp'',
     tu_params = [(''secret'', ''JBSWY3DPEHPK3PXP'')]\<rparr>"

lemma sample_parameters:
  "parse_totp_parameters sample_totp_url =
     Inr \<lparr>tp_algorithm = ''sha1'', tp_digits = 6, tp_period = 30, tp_secret = ''JBSWY3DPEHPK3PXP''\<rparr>"
proof -
  have "parse_algorithm sample_totp_url = Inr ''sha1''" by code_simp
  moreover have "parse_decimal_integer (show_nat 30) ''period'' = Inr 30"
    "parse_decimal_integer (show_nat 6) ''digits'' = Inr 6"
    by code_simp+
  ultimately show ?thesis
    by (simp add: parse_totp_parameters_def sample_totp_url_def validate_totp_uri_def finite_number_def
        default_period_def default_digits_def max_digits_def)
qed

theorem totp_code_rfc_witness:
  "generate_totp_code (\<lambda>_ _ _. sample_digest) 59000 sample_totp_url = Inr ''872921'' \<and>
   parse_nat_from 0 ''872921'' = 1357872921 mod 10 ^ 6"
proof -
  obtain key where key: "decode_base32 ''JBSWY3DPEHPK3PXP'' = Inr key"
    using sample_base32 by blast
  have shown: "show_nat 872921 = ''872921''"
    by (simp add: show_nat.simps digit_char_def) code_simp
  have "truncate_hmac sample_digest 6 = ''872921''"
    using binary_code_rfc[of sample_digest]
    by (simp add: truncate_hmac_def pad_start_def rfc_truncation_def sample_digest_def digest_byte_def shown)
  then have run: "generate_totp_code (\<lambda>_ _ _. sample_digest) 59000 sample_totp_url = Inr ''872921''"
    by (simp add: generate_totp_code_def sample_parameters key Let_def)
  have "list_all (\<lambda>b. b < 256) sample_digest" by code_simp
  from totp_code_rfc[OF run this]
  have "parse_nat_from 0 ''872921'' = rfc_truncation sample_digest mod 10 ^ 6"
    by (simp add: sample_parameters Let_def)
  moreover have "rfc_truncation sample_digest = 1357872921"
    by (simp add: rfc_truncation_def sample_digest_def digest_byte_def)
  ultimately show ?thesis using run by simp
qed

text \<open>A seed that validates is one that a code can be generated from, at any time.\<close>

lemma valid_seed_generates:
  "assert_valid_totp_seed url = Inr () \<longleftrightarrow> (\<exists>totp. generate_totp_code hmac now url = Inr totp)"
  by (auto simp: assert_valid_totp_seed_def generate_totp_code_def Let_def split: sum.splits)

end
