(* ===== verification/Template.thy ===== *)
theory Template
  imports ShellText Base64 Meta
begin

text \<open>
  Templates (\<^verbatim>\<open>template.ts\<close>): the tokenizer, the modifiers and the rendering with its two
  phases. A resolver of the environment is called through the parameter \<open>call\<close>; the decoder of
  UTF-8 is a parameter.
\<close>

subsection \<open>Tokens\<close>

datatype token =
    TkEscaped
  | TkLiteral string
  | TkPlaceholder "string list" string

definition malformed_placeholder_snippet_limit :: nat where
  "malformed_placeholder_snippet_limit = 40"

text \<open>
  \<^verbatim>\<open>placeholderPattern\<close> at the start of the text. The name \<^verbatim>\<open>\w+(?:\.\w+)*\<close> and the chain
  \<^verbatim>\<open>(?:\|\w+)*\<close> are read greedily: a shorter match of either is followed by a character that
  the pattern does not allow there, so backtracking finds nothing more.
\<close>

function scan_name :: "string \<Rightarrow> (string \<times> string) option" where
  "scan_name s =
     (let word = takeWhile is_word s; rest = dropWhile is_word s
      in if word = [] then None
         else if rest \<noteq> [] \<and> hd rest = CHR ''.''
         then (case scan_name (tl rest) of
                 None \<Rightarrow> Some (word, rest)
               | Some (name, rest1) \<Rightarrow> Some (word @ CHR ''.'' # name, rest1))
         else Some (word, rest))"
  by pat_completeness auto
termination
proof (relation "measure length")
  fix s word rest :: string
  assume rest: "rest = dropWhile is_word s" "rest \<noteq> [] \<and> hd rest = CHR ''.''"
  have "length (tl rest) < length rest" using rest(2) by (cases rest) simp_all
  also have "\<dots> \<le> length s" unfolding rest(1) by (rule length_dropWhile_le)
  finally show "(tl rest, s) \<in> measure length" by simp
qed simp

declare scan_name.simps [simp del]

function scan_chain :: "string \<Rightarrow> string list \<times> string" where
  "scan_chain s =
     (if s \<noteq> [] \<and> hd s = CHR ''|'' \<and> takeWhile is_word (tl s) \<noteq> []
      then (case scan_chain (dropWhile is_word (tl s)) of
              (names, rest) \<Rightarrow> (takeWhile is_word (tl s) # names, rest))
      else ([], s))"
  by pat_completeness auto
termination
proof (relation "measure length")
  fix s :: string
  assume "s \<noteq> [] \<and> hd s = CHR ''|'' \<and> takeWhile is_word (tl s) \<noteq> []"
  moreover have "length (dropWhile is_word (tl s)) \<le> length (tl s)" by (rule length_dropWhile_le)
  ultimately show "(dropWhile is_word (tl s), s) \<in> measure length" by (cases s) auto
qed simp

declare scan_chain.simps [simp del]

definition match_placeholder :: "string \<Rightarrow> (string list \<times> string \<times> string) option" where
  "match_placeholder s =
     (case scan_name (drop 2 s) of
        None \<Rightarrow> None
      | Some (var_name, rest) \<Rightarrow>
          (if starts_with rest ''|}}'' then Some ([[]], var_name, drop 3 rest)
           else (case scan_chain rest of
                   (names, rest1) \<Rightarrow>
                     (if starts_with rest1 ''}}'' then Some (names, var_name, drop 2 rest1) else None))))"

fun index_of_close :: "string \<Rightarrow> nat option" where
  "index_of_close [] = None"
| "index_of_close (c # cs) =
     (if starts_with (c # cs) ''}}'' then Some 0 else map_option Suc (index_of_close cs))"

definition malformed_placeholder_error :: "string \<Rightarrow> exn" where
  "malformed_placeholder_error rest =
     (let closing_index = index_of_close (drop 2 rest);
          end_index = (case closing_index of
              None \<Rightarrow> min (length rest) malformed_placeholder_snippet_limit
            | Some i \<Rightarrow> i + 4);
          suffix = (if end_index < length rest \<and> closing_index = None then ''...'' else [])
      in GenericError (''Malformed template placeholder near '' @ [dquote] @ take end_index rest
           @ suffix @ [dquote]))"

definition flush_literal :: "string \<Rightarrow> token list \<Rightarrow> token list" where
  "flush_literal literal_buffer tokens =
     (if literal_buffer \<noteq> [] then TkLiteral literal_buffer # tokens else tokens)"

text \<open>Both scanners split their text, so the pattern does.\<close>

definition chain_text :: "string list \<Rightarrow> string" where
  "chain_text names = concat (map (\<lambda>m. CHR ''|'' # m) names)"

lemma scan_name_splits: "scan_name s = Some (name, rest) \<Longrightarrow> s = name @ rest \<and> name \<noteq> []"
proof (induction s arbitrary: name rest rule: scan_name.induct)
  case (1 s)
  let ?w = "takeWhile is_word s" and ?r = "dropWhile is_word s"
  have whole: "s = ?w @ ?r" by simp
  have w: "?w \<noteq> []" using 1(2)[unfolded scan_name.simps[of s]] by (auto simp: Let_def split: if_splits)
  show ?case
  proof (cases "?r \<noteq> [] \<and> hd ?r = CHR ''.'' \<and> scan_name (tl ?r) \<noteq> None")
    case True
    then obtain n r where r: "scan_name (tl ?r) = Some (n, r)" by auto
    have dot: "?r = CHR ''.'' # tl ?r" using True by (metis list.collapse)
    have eq: "name = ?w @ CHR ''.'' # n" "rest = r"
      using 1(2)[unfolded scan_name.simps[of s]] w True r by (simp_all add: Let_def)
    have "tl ?r = n @ r" by (rule 1(1)[OF refl refl w, THEN conjunct1]) (use True r in auto)
    then have "s = ?w @ CHR ''.'' # n @ r" using whole dot by metis
    then show ?thesis using eq by simp
  next
    case False
    then have "name = ?w \<and> rest = ?r"
      using 1(2)[unfolded scan_name.simps[of s]] w by (simp add: Let_def split: if_splits option.splits prod.splits)
    then show ?thesis using w by simp
  qed
qed

lemma scan_chain_splits: "scan_chain s = (names, rest) \<Longrightarrow> s = chain_text names @ rest"
proof (induction s arbitrary: names rest rule: scan_chain.induct)
  case (1 s)
  let ?w = "takeWhile is_word (tl s)" and ?d = "dropWhile is_word (tl s)"
  show ?case
  proof (cases "s \<noteq> [] \<and> hd s = CHR ''|'' \<and> ?w \<noteq> []")
    case True
    obtain ns r1 where c: "scan_chain ?d = (ns, r1)" by (cases "scan_chain ?d")
    have eq: "names = ?w # ns" "rest = r1"
      using 1(2)[unfolded scan_chain.simps[of s]] True c by simp_all
    have "?d = chain_text ns @ r1" using 1(1)[OF True c] .
    moreover have "s = CHR ''|'' # ?w @ ?d" using True by (cases s) auto
    ultimately have "s = CHR ''|'' # ?w @ chain_text ns @ r1" by simp
    then show ?thesis using eq by (simp add: chain_text_def)
  next
    case False
    then have "names = [] \<and> rest = s" using 1(2)[unfolded scan_chain.simps[of s]] by (simp split: if_splits)
    then show ?thesis by (simp add: chain_text_def)
  qed
qed

lemma match_placeholder_splits:
  assumes "match_placeholder s = Some (names, var_name, rest)" and "starts_with s ''{{''"
  shows "s = ''{{'' @ var_name @ chain_text names @ ''}}'' @ rest"
proof -
  obtain s1 where s: "s = ''{{'' @ s1" using assms(2) by (auto simp: starts_with_iff)
  obtain name r where n: "scan_name s1 = Some (name, r)"
    using assms(1) by (auto simp: match_placeholder_def s split: option.splits)
  have s1: "s1 = name @ r" using scan_name_splits[OF n] by simp
  show ?thesis
  proof (cases "starts_with r ''|}}''")
    case True
    then obtain q where q: "r = ''|}}'' @ q" by (auto simp: starts_with_iff)
    have "names = [[]]" "var_name = name" "rest = drop 3 r"
      using assms(1) True by (simp_all add: match_placeholder_def s n)
    then show ?thesis using s s1 q by (simp add: chain_text_def)
  next
    case False
    obtain ns r1 where c: "scan_chain r = (ns, r1)" by (cases "scan_chain r")
    have close: "starts_with r1 ''}}''" and eq: "names = ns" "var_name = name" "rest = drop 2 r1"
      using assms(1) False by (auto simp: match_placeholder_def s n c split: if_splits)
    obtain q where "r1 = ''}}'' @ q" using close by (auto simp: starts_with_iff)
    then show ?thesis using scan_chain_splits[OF c] eq s s1 by simp
  qed
qed

lemma match_placeholder_shorter:
  assumes "match_placeholder s = Some (names, var_name, rest)" and "starts_with s ''{{''"
  shows "length rest < length s"
  by (subst match_placeholder_splits[OF assms]) simp

function (sequential) tokenize_template :: "bool \<Rightarrow> string \<Rightarrow> string \<Rightarrow> token list result" where
  "tokenize_template strict literal_buffer [] = Inr (flush_literal literal_buffer [])"
| "tokenize_template strict literal_buffer (c # cs) =
     (if starts_with (c # cs) [backslash, CHR ''{'', CHR ''{'']
      then map_sum id (\<lambda>ts. flush_literal literal_buffer (TkEscaped # ts))
             (tokenize_template strict [] (drop 2 cs))
      else if starts_with (c # cs) ''{{''
      then (case match_placeholder (c # cs) of
              Some (names, var_name, rest) \<Rightarrow>
                map_sum id (\<lambda>ts. flush_literal literal_buffer (TkPlaceholder names var_name # ts))
                  (tokenize_template strict [] rest)
            | None \<Rightarrow>
                (if strict then Inl (malformed_placeholder_error (c # cs))
                 else tokenize_template strict (literal_buffer @ [c]) cs))
      else tokenize_template strict (literal_buffer @ [c]) cs)"
  by pat_completeness auto
termination
  by (relation "measure (\<lambda>(_, _, s). length s)") (auto dest: match_placeholder_shorter)

declare tokenize_template.simps(2) [simp del]


definition unparse_token :: "token \<Rightarrow> string" where
  "unparse_token t =
     (case t of
        TkEscaped \<Rightarrow> [backslash, CHR ''{'', CHR ''{'']
      | TkLiteral s \<Rightarrow> s
      | TkPlaceholder names var_name \<Rightarrow> ''{{'' @ var_name @ chain_text names @ ''}}'')"

definition unparse :: "token list \<Rightarrow> string" where
  "unparse ts = concat (map unparse_token ts)"

lemma unparse_flush: "unparse (flush_literal lit ts) = lit @ unparse ts"
  by (simp add: unparse_def flush_literal_def unparse_token_def)

lemma unparse_tokenize: "tokenize_template strict lit s = Inr ts \<Longrightarrow> unparse ts = lit @ s"
proof (induction strict lit s arbitrary: ts rule: tokenize_template.induct)
  case (1 strict lit)
  then show ?case by (auto simp: unparse_flush) (simp add: unparse_def)
next
  case (2 strict lit c cs)
  show ?case
  proof (cases "starts_with (c # cs) [backslash, CHR ''{'', CHR ''{'']")
    case True
    then obtain q where q: "c # cs = [backslash, CHR ''{'', CHR ''{''] @ q" by (auto simp: starts_with_iff)
    then have rest: "drop 2 cs = q" by simp
    obtain ts1 where ts1: "tokenize_template strict [] q = Inr ts1"
      and ts: "ts = flush_literal lit (TkEscaped # ts1)"
      using 2(5) True rest by (auto simp: tokenize_template.simps(2) map_sum_def split: sum.splits)
    have "unparse ts1 = [] @ q" using 2(1)[OF True, of ts1] ts1 rest by simp
    then show ?thesis using q by (simp add: ts unparse_flush) (simp add: unparse_def unparse_token_def)
  next
    case no_esc: False
    show ?thesis
    proof (cases "starts_with (c # cs) ''{{''")
      case False
      then show ?thesis using 2(4)[OF no_esc False] 2(5) no_esc by (simp add: tokenize_template.simps(2))
    next
      case open_brace: True
      show ?thesis
      proof (cases "match_placeholder (c # cs)")
        case None
        then have lenient: "\<not> strict" "tokenize_template strict (lit @ [c]) cs = Inr ts"
          using 2(5) no_esc open_brace by (simp_all add: tokenize_template.simps(2) split: if_splits)
        show ?thesis using 2(2)[OF no_esc open_brace None lenient] by simp
      next
        case (Some p)
        obtain names var_name rest where p: "p = (names, var_name, rest)" by (cases p)
        then obtain ts1 where ts1: "tokenize_template strict [] rest = Inr ts1"
          and ts: "ts = flush_literal lit (TkPlaceholder names var_name # ts1)"
          using 2(5) no_esc open_brace Some
          by (auto simp: tokenize_template.simps(2) map_sum_def split: sum.splits)
        have "unparse ts1 = [] @ rest" by (rule 2(3)[OF no_esc open_brace Some p[symmetric] refl ts1])
        then show ?thesis
          using match_placeholder_splits[of "c # cs" names var_name rest] Some p open_brace
          by (simp add: ts unparse_flush) (simp add: unparse_def unparse_token_def)
      qed
    qed
  qed
qed

lemma tokenize_lenient: "\<exists>ts. tokenize_template False lit s = Inr ts"
proof (induction "False" lit s rule: tokenize_template.induct)
  case (2 lit c cs)
  note step = tokenize_template.simps(2)[of False lit c cs]
  show ?case
  proof (cases "starts_with (c # cs) [backslash, CHR ''{'', CHR ''{'']")
    case True
    then show ?thesis using 2(1) by (auto simp: step)
  next
    case no_esc: False
    show ?thesis
    proof (cases "starts_with (c # cs) ''{{''")
      case False
      then show ?thesis using 2(4)[OF no_esc False] no_esc by (simp add: step)
    next
      case open_brace: True
      show ?thesis
      proof (cases "match_placeholder (c # cs)")
        case None
        then show ?thesis using 2(2)[OF no_esc open_brace None] no_esc open_brace by (simp add: step)
      next
        case (Some p)
        obtain names var_name rest where p: "p = (names, var_name, rest)" by (cases p)
        obtain ts1 where "tokenize_template False [] rest = Inr ts1"
          using 2(3)[OF no_esc open_brace Some p[symmetric] refl] by blast
        then show ?thesis using no_esc open_brace Some p by (simp add: step)
      qed
    qed
  qed
qed simp


subsection \<open>Modifiers\<close>

definition base64_alphabet_char :: "char \<Rightarrow> bool" where
  "base64_alphabet_char c \<longleftrightarrow> is_alpha c \<or> is_digit c \<or> c = CHR ''+'' \<or> c = CHR ''/''"

text \<open>\<^verbatim>\<open>/^[A-Za-z0-9+\/]*={0,2}$/v\<close>\<close>

definition base64_pattern :: "string \<Rightarrow> bool" where
  "base64_pattern s \<longleftrightarrow> dropWhile base64_alphabet_char s \<in> {[], ''='', ''==''}"

definition pad_end :: "nat \<Rightarrow> char \<Rightarrow> string \<Rightarrow> string" where
  "pad_end n c s = s @ replicate (n - length s) c"

definition normalize_base64 :: "string \<Rightarrow> string \<Rightarrow> string result" where
  "normalize_base64 value location =
     (let compact = filter (\<lambda>c. \<not> js_space c) value
      in if \<not> base64_pattern compact
         then Inl (GenericError (location @ '' received a value that is not standard base64''))
         else (let stripped = takeWhile (\<lambda>c. c \<noteq> CHR ''='') compact
               in if length stripped mod 4 = 1
                  then Inl (GenericError (location @ '' received a value of invalid base64 length''))
                  else Inr (pad_end ((length stripped + 3) div 4 * 4) (CHR ''='') stripped)))"

type_synonym utf8_decoder = "buffer \<Rightarrow> string option"

definition decode_base64 :: "utf8_decoder \<Rightarrow> string \<Rightarrow> string \<Rightarrow> string result" where
  "decode_base64 utf8 value var_name =
     (let location = ''Template modifier '' @ [dquote] @ ''b64decode'' @ [dquote] @ '' on placeholder ''
                       @ [dquote] @ ''{{'' @ var_name @ ''}}'' @ [dquote]
      in (case normalize_base64 value location of
            Inl e \<Rightarrow> Inl e
          | Inr padded \<Rightarrow>
              (if padded = [] then Inr []
               else (let bytes = base64_decode padded
                     in if base64_encode bytes \<noteq> padded
                        then Inl (GenericError (location @ '' received a value that is not canonical base64''))
                        else (case utf8 bytes of
                                None \<Rightarrow> Inl (GenericError (location @ '' decoded to bytes that are not valid UTF-8''))
                              | Some s \<Rightarrow> Inr s)))))"

text \<open>
  \<^verbatim>\<open>modifiers[name]\<close> finds the three own entries and, for other names, the members that
  every object inherits. Called without a receiver, \<^verbatim>\<open>Object\<close> wraps its argument, \<^verbatim>\<open>toString\<close>
  answers with the tag of \<^verbatim>\<open>undefined\<close>, \<^verbatim>\<open>isPrototypeOf\<close> answers false for a value that is not
  an object, and the others throw; \<^verbatim>\<open>__proto__\<close> is not a function. The messages of these
  errors belong to the engine. \<open>MvFalse\<close> is the value false, on which the own modifiers that
  expect a string throw.
\<close>

datatype mod_value = MvText string | MvFalse

definition mod_text :: "mod_value \<Rightarrow> string" where
  "mod_text v = (case v of MvText s \<Rightarrow> s | MvFalse \<Rightarrow> ''false'')"

definition own_modifiers :: "string list" where
  "own_modifiers = [''b64decode'', ''raw'', ''shell'']"

definition inherited_throwing :: "string list" where
  "inherited_throwing =
     [''hasOwnProperty'', ''propertyIsEnumerable'', ''toLocaleString'', ''valueOf'',
      ''__defineGetter__'', ''__defineSetter__'', ''__lookupGetter__'', ''__lookupSetter__'']"

definition apply_modifier ::
  "utf8_decoder \<Rightarrow> string \<Rightarrow> string \<Rightarrow> mod_value \<Rightarrow> mod_value result" where
  "apply_modifier utf8 var_name name current =
     (if name = ''raw'' \<or> name = ''constructor'' then Inr current
      else if name = ''shell''
      then (case current of
              MvText s \<Rightarrow> Inr (MvText (shell_quote s))
            | MvFalse \<Rightarrow> Inl (TypeErr ''s.replaceAll is not a function''))
      else if name = ''b64decode''
      then (case current of
              MvText s \<Rightarrow> map_sum id MvText (decode_base64 utf8 s var_name)
            | MvFalse \<Rightarrow> Inl (TypeErr ''value.replaceAll is not a function''))
      else if name = ''toString'' then Inr (MvText ''[object Undefined]'')
      else if name = ''isPrototypeOf'' then Inr MvFalse
      else if name = ''__proto__'' then Inl (TypeErr ''transform is not a function'')
      else if name \<in> set inherited_throwing
      then Inl (TypeErr ''Cannot convert undefined or null to object'')
      else Inl (GenericError (''Unknown template modifier '' @ [dquote] @ name @ [dquote])))"

fun apply_modifier_chain ::
  "utf8_decoder \<Rightarrow> string \<Rightarrow> string list \<Rightarrow> mod_value \<Rightarrow> mod_value result" where
  "apply_modifier_chain utf8 var_name [] current = Inr current"
| "apply_modifier_chain utf8 var_name (name # names) current =
     (case apply_modifier utf8 var_name name current of
        Inl e \<Rightarrow> Inl e
      | Inr v \<Rightarrow> apply_modifier_chain utf8 var_name names v)"

text \<open>The result is only ever appended to a text, so it is given as one.\<close>

definition apply_modifiers :: "utf8_decoder \<Rightarrow> string \<Rightarrow> string list \<Rightarrow> string \<Rightarrow> string result" where
  "apply_modifiers utf8 value names var_name =
     map_sum id mod_text (apply_modifier_chain utf8 var_name names (MvText value))"

fun enforce_strict_modifiers :: "token list \<Rightarrow> unit result" where
  "enforce_strict_modifiers [] = Inr ()"
| "enforce_strict_modifiers (TkPlaceholder [] var_name # ts) =
     Inl (GenericError (''Strict mode: placeholder '' @ [dquote] @ ''{{'' @ var_name @ ''}}'' @ [dquote]
        @ '' requires an explicit modifier (e.g. |shell or |raw)''))"
| "enforce_strict_modifiers (t # ts) = enforce_strict_modifiers ts"

subsection \<open>Rendering\<close>

type_synonym placeholder = "string list \<times> string"

fun placeholders :: "token list \<Rightarrow> placeholder list" where
  "placeholders [] = []"
| "placeholders (TkPlaceholder names var_name # ts) = (names, var_name) # placeholders ts"
| "placeholders (_ # ts) = placeholders ts"

fun first_unknown_modifier :: "string list \<Rightarrow> string option" where
  "first_unknown_modifier [] = None"
| "first_unknown_modifier (name # names) =
     (if name \<in> set own_modifiers then first_unknown_modifier names else Some name)"

fun validate_placeholders :: "environment \<Rightarrow> placeholder list \<Rightarrow> unit result" where
  "validate_placeholders environment [] = Inr ()"
| "validate_placeholders environment ((names, var_name) # ps) =
     (if \<not> has_own environment var_name
      then Inl (GenericError (''Env key '' @ [dquote] @ var_name @ [dquote] @ '' is not defined''))
      else (case first_unknown_modifier names of
              Some name \<Rightarrow> Inl (GenericError (''Unknown template modifier '' @ [dquote] @ name @ [dquote]))
            | None \<Rightarrow> validate_placeholders environment ps))"

text \<open>
  \<^verbatim>\<open>Promise.all\<close>: every call is started, in order, also after one of them has failed, and
  the first failure is the outcome. The calls are run one after the other.
\<close>

fun promise_all :: "('a, 's) effect list \<Rightarrow> ('a list, 's) effect" where
  "promise_all [] s = (Inr [], s)"
| "promise_all (f # fs) s =
     (case f s of
        (r, s1) \<Rightarrow>
          (case promise_all fs s1 of
             (rs, s2) \<Rightarrow> (case r of Inl e \<Rightarrow> Inl e | Inr x \<Rightarrow> map_sum id (Cons x) rs, s2)))"

type_synonym 's caller = "closure \<Rightarrow> (scalar, 's) effect"

definition per_access_key :: "environment \<Rightarrow> string \<Rightarrow> bool" where
  "per_access_key environment var_name =
     (case map_of environment var_name of None \<Rightarrow> False | Some v \<Rightarrow> has_per_access_resolution v)"

text \<open>
  An ordinary placeholder of a phased rendering resolves and is transformed; a late one yields
  nothing yet. The values are the slots of \<^verbatim>\<open>renderedValues\<close>.
\<close>

definition render_ordinary ::
  "utf8_decoder \<Rightarrow> 's caller \<Rightarrow> environment \<Rightarrow> placeholder \<Rightarrow> (string option, 's) effect" where
  "render_ordinary utf8 call environment p s =
     (case p of (names, var_name) \<Rightarrow>
        (if per_access_key environment var_name then (Inr None, s)
         else and_then (resolve_environment call environment var_name s)
                (\<lambda>value s1. (map_sum id Some (apply_modifiers utf8 (show_scalar value) names var_name), s1))))"

fun fill_slots ::
  "utf8_decoder \<Rightarrow> string \<Rightarrow> string \<Rightarrow> placeholder list \<Rightarrow> string option list \<Rightarrow> string option list result" where
  "fill_slots utf8 key value ((names, var_name) # ps) (slot # slots) =
     (if var_name = key
      then (case apply_modifiers utf8 value names var_name of
              Inl e \<Rightarrow> Inl e
            | Inr text \<Rightarrow> map_sum id (Cons (Some text)) (fill_slots utf8 key value ps slots))
      else map_sum id (Cons slot) (fill_slots utf8 key value ps slots))"
| "fill_slots utf8 key value _ slots = Inr slots"

fun read_late_keys ::
  "utf8_decoder \<Rightarrow> 's caller \<Rightarrow> environment \<Rightarrow> placeholder list \<Rightarrow> string list \<Rightarrow> string option list \<Rightarrow>
     (string option list, 's) effect" where
  "read_late_keys utf8 call environment ps [] slots s = (Inr slots, s)"
| "read_late_keys utf8 call environment ps (key # keys) slots s =
     and_then (resolve_environment call environment key s)
       (\<lambda>value s1.
          (case fill_slots utf8 key (show_scalar value) ps slots of
             Inl e \<Rightarrow> (Inl e, s1)
           | Inr slots1 \<Rightarrow> read_late_keys utf8 call environment ps keys slots1 s1))"

definition per_access_keys :: "environment \<Rightarrow> placeholder list \<Rightarrow> string list" where
  "per_access_keys environment ps =
     foldl set_add [] (filter (per_access_key environment) (map snd ps))"

definition resolve_phased_placeholders ::
  "utf8_decoder \<Rightarrow> 's caller \<Rightarrow> environment \<Rightarrow> placeholder list \<Rightarrow> (string list, 's) effect" where
  "resolve_phased_placeholders utf8 call environment ps s =
     (case validate_placeholders environment ps of
        Inl e \<Rightarrow> (Inl e, s)
      | Inr _ \<Rightarrow>
          and_then (promise_all (map (render_ordinary utf8 call environment) ps) s)
            (\<lambda>slots s1. and_then
               (read_late_keys utf8 call environment ps (per_access_keys environment ps) slots s1)
               (\<lambda>slots1 s2. (Inr (map (\<lambda>v. case v of Some t \<Rightarrow> t | None \<Rightarrow> ''undefined'') slots1), s2))))"

definition resolve_template_placeholders ::
  "utf8_decoder \<Rightarrow> 's caller \<Rightarrow> environment \<Rightarrow> token list \<Rightarrow> (bool \<times> string list, 's) effect" where
  "resolve_template_placeholders utf8 call environment tokens s =
     (let ps = placeholders tokens; phased = per_access_keys environment ps \<noteq> []
      in and_then (if phased then resolve_phased_placeholders utf8 call environment ps s
                   else promise_all (map (\<lambda>(_, var_name).
                          resolve_environment_as_string call environment var_name) ps) s)
           (\<lambda>values s1. (Inr (phased, values), s1)))"

fun assemble ::
  "utf8_decoder \<Rightarrow> bool \<Rightarrow> token list \<Rightarrow> string list \<Rightarrow> string result" where
  "assemble utf8 phased [] values = Inr []"
| "assemble utf8 phased (TkLiteral text # ts) values = map_sum id ((@) text) (assemble utf8 phased ts values)"
| "assemble utf8 phased (TkEscaped # ts) values = map_sum id ((@) ''{{'') (assemble utf8 phased ts values)"
| "assemble utf8 phased (TkPlaceholder names var_name # ts) values =
     (let resolved = (case values of [] \<Rightarrow> ''undefined'' | v # _ \<Rightarrow> v)
      in (case (if phased then Inr resolved else apply_modifiers utf8 resolved names var_name) of
            Inl e \<Rightarrow> Inl e
          | Inr text \<Rightarrow> map_sum id ((@) text) (assemble utf8 phased ts (tl values))))"

definition render_template ::
  "utf8_decoder \<Rightarrow> 's caller \<Rightarrow> string \<Rightarrow> environment \<Rightarrow> bool \<Rightarrow> (string, 's) effect" where
  "render_template utf8 call template environment strict s =
     (case tokenize_template strict [] template of
        Inl e \<Rightarrow> (Inl e, s)
      | Inr tokens \<Rightarrow>
          (case (if strict then enforce_strict_modifiers tokens else Inr ()) of
             Inl e \<Rightarrow> (Inl e, s)
           | Inr _ \<Rightarrow>
               and_then (resolve_template_placeholders utf8 call environment tokens s)
                 (\<lambda>(phased, values) s1. (assemble utf8 phased tokens values, s1))))"


subsection \<open>Properties\<close>

text \<open>
  the tokenizer loses nothing and never fails outside strict mode. The tokens written one
  after the other are the template, in both modes, so text that is not a placeholder, also
  malformed placeholder syntax that is not strict, is kept as it stands.
\<close>

theorem tokens_reproduce_template:
  "(tokenize_template strict [] template = Inr tokens \<longrightarrow> unparse tokens = template) \<and>
   (\<exists>tokens. tokenize_template False [] template = Inr tokens)"
  using unparse_tokenize[of strict "[]" template tokens] tokenize_lenient[of "[]" template] by simp

theorem tokens_reproduce_template_witness:
  "tokenize_template True [] ''a {{K.x|raw|shell}} b'' =
     Inr [TkLiteral ''a '', TkPlaceholder [''raw'', ''shell''] ''K.x'', TkLiteral '' b''] \<and>
   unparse [TkLiteral ''a '', TkPlaceholder [''raw'', ''shell''] ''K.x'', TkLiteral '' b''] = ''a {{K.x|raw|shell}} b''"
proof -
  have "tokenize_template True [] ''a {{K.x|raw|shell}} b'' =
     Inr [TkLiteral ''a '', TkPlaceholder [''raw'', ''shell''] ''K.x'', TkLiteral '' b'']"
    by code_simp
  then show ?thesis
    using tokens_reproduce_template[of True "''a {{K.x|raw|shell}} b''"] by blast
qed

lemma tokenize_plain:
  "list_all (\<lambda>c. c \<noteq> CHR ''{'' \<and> c \<noteq> backslash) p \<Longrightarrow>
   tokenize_template strict lit (p @ s) = tokenize_template strict (lit @ p) s"
proof (induction p arbitrary: lit)
  case (Cons c p)
  then show ?case by (simp add: tokenize_template.simps(2) starts_with_def)
qed simp

lemma word_char_plain: "is_word c \<Longrightarrow> c \<noteq> CHR ''{'' \<and> c \<noteq> backslash \<and> c \<noteq> CHR ''.'' \<and> c \<noteq> CHR ''|''"
  by (auto simp: char_class_defs)

lemma scan_word:
  assumes "k \<noteq> []" and "list_all is_word k"
  shows "scan_name (k @ CHR ''|'' # s) = Some (k, CHR ''|'' # s)"
proof -
  have "\<not> is_word (CHR ''|'')" by (simp add: char_class_defs)
  then have "takeWhile is_word (k @ CHR ''|'' # s) = k" "dropWhile is_word (k @ CHR ''|'' # s) = CHR ''|'' # s"
    using assms(2) by (simp_all add: list_all_iff)
  then show ?thesis using assms(1) by (simp add: scan_name.simps[of "k @ CHR ''|'' # s"])
qed

lemma scan_shell: "scan_chain ''|shell}}'' = ([''shell''], ''}}'')"
  by code_simp

lemma tokenize_shell_placeholder:
  assumes "k \<noteq> []" and "list_all is_word k"
  shows "tokenize_template strict lit (''{{'' @ k @ ''|shell}}'') =
    Inr (flush_literal lit [TkPlaceholder [''shell''] k])"
proof -
  have "match_placeholder (''{{'' @ k @ ''|shell}}'') = Some ([''shell''], k, [])"
    using scan_word[OF assms, of "''shell}}''"] scan_shell
    by (simp add: match_placeholder_def starts_with_def)
  then show ?thesis
    by (simp add: tokenize_template.simps(2) starts_with_def flush_literal_def[of "[]"])
qed

text \<open>
  C30: a placeholder with the shell modifier cannot escape its argument. A strict template of a
  command word and such a placeholder renders, for every value of the variable, to a command
  line that a shell splits into exactly the word and the value.
\<close>

theorem shell_placeholder_is_one_argument:
  assumes "cmd \<noteq> []" "list_all is_word cmd" "k \<noteq> []" "list_all is_word k"
    and "map_of environment k = Some (EScalar (SStr v))"
  shows "\<exists>out. render_template utf8 call (cmd @ '' {{'' @ k @ ''|shell}}'') environment True s = (Inr out, s) \<and>
    sh_lex ShPlain None out = Some [cmd, v]"
proof -
  have "list_all (\<lambda>c. c \<noteq> CHR ''{'' \<and> c \<noteq> backslash) (cmd @ '' '')"
    using assms(2) word_char_plain by (auto simp: list_all_iff)
  from tokenize_plain[OF this, of True "[]" "''{{'' @ k @ ''|shell}}''"]
  have tokens: "tokenize_template True [] (cmd @ '' {{'' @ k @ ''|shell}}'') =
      Inr [TkLiteral (cmd @ '' ''), TkPlaceholder [''shell''] k]"
    using tokenize_shell_placeholder[OF assms(3,4), of True "cmd @ '' ''"]
    by (simp add: flush_literal_def)
  then have tokens': "tokenize_template True [] (cmd @ CHR '' '' # CHR ''{'' # CHR ''{'' # k @ ''|shell}}'') =
      Inr [TkLiteral (cmd @ '' ''), TkPlaceholder [''shell''] k]"
    by simp
  have ordinary: "per_access_keys environment [([''shell''], k)] = []"
    by (simp add: per_access_keys_def per_access_key_def assms(5) has_per_access_resolution_def)
  have "render_template utf8 call (cmd @ '' {{'' @ k @ ''|shell}}'') environment True s =
      (Inr ((cmd @ '' '') @ shell_quote v), s)"
    by (simp add: render_template_def tokens' resolve_template_placeholders_def Let_def ordinary
        resolve_environment_as_string_def resolve_environment_def assms(5) show_scalar_def
        apply_modifiers_def apply_modifier_def mod_text_def)
  moreover have "sh_lex ShPlain None ((cmd @ '' '') @ shell_quote v) = Some [cmd, v]"
    using sh_lex_words[OF assms(2,1), of None "'' '' @ shell_quote v"] sh_lex_quote[of None v "[]"]
    by (simp add: word_so_far_def sh_blank_def end_word_def)
  ultimately show ?thesis by blast
qed

theorem shell_placeholder_is_one_argument_witness:
  "\<exists>out. render_template (\<lambda>b. Some b) (\<lambda>_ s. (Inr (SBool True), s)) ''rm {{F|shell}}''
      [(''F'', EScalar (SStr ''a; reboot''))] True () = (Inr out, ()) \<and>
    sh_lex ShPlain None out = Some [''rm'', ''a; reboot'']"
  using shell_placeholder_is_one_argument[of "''rm''" "''F''" "[(''F'', EScalar (SStr ''a; reboot''))]"
      "''a; reboot''" "\<lambda>b. Some b" "\<lambda>_ s. (Inr (SBool True), s)" "()"]
  by (simp add: char_class_defs)
















text \<open>
  A name that every object inherits is taken for a modifier: \<^verbatim>\<open>constructor\<close> passes strict mode
  and inserts the value as it is, \<^verbatim>\<open>toString\<close> inserts a constant.
\<close>

lemma inherited_member_is_a_modifier:
  "apply_modifiers utf8 value [''constructor''] k = Inr value \<and>
   apply_modifiers utf8 value [''toString''] k = Inr ''[object Undefined]'' \<and>
   enforce_strict_modifiers [TkPlaceholder [''constructor''] k] = Inr () \<and>
   first_unknown_modifier [''constructor''] = Some ''constructor''"
  by (simp add: apply_modifiers_def apply_modifier_def mod_text_def own_modifiers_def)

subsection \<open>Decoding\<close>

lemma length_sextets_exact:
  "length (sextets bs) = 4 * (length bs div 3) + (if length bs mod 3 = 0 then 0 else length bs mod 3 + 1)"
proof (induction bs rule: sextets.induct)
  case (4 a b c bs)
  have "length (a # b # c # bs) div 3 = Suc (length bs div 3)"
    "length (a # b # c # bs) mod 3 = length bs mod 3" by simp_all
  then show ?case using 4 by simp
qed simp_all

lemma encode_stripped:
  "takeWhile (\<lambda>c. c \<noteq> CHR ''='') (base64_encode b) = map base64_char (sextets (map code b))"
proof -
  have "\<forall>c \<in> set (map base64_char (sextets (map code b))). c \<noteq> CHR ''=''"
    using encoded_sextets[of b] base64_char_ok(2) by (auto simp: list_all_iff)
  moreover have "takeWhile (\<lambda>c. c \<noteq> CHR ''='') (base64_padding (length b)) = []"
    by (simp add: base64_padding_def)
  ultimately show ?thesis
    using takeWhile_append2[of "map base64_char (sextets (map code b))" "\<lambda>c. c \<noteq> CHR ''=''"
        "base64_padding (length b)"]
    unfolding base64_encode_def by fastforce
qed

lemma body_is_alphabet: "strict_base64_body c \<Longrightarrow> base64_alphabet_char c"
proof -
  have "code c = 43 \<Longrightarrow> c = CHR ''+''" "code c = 47 \<Longrightarrow> c = CHR ''/''"
  proof -
    have "char_of (43 :: nat) = CHR ''+''" "char_of (47 :: nat) = CHR ''/''" by code_simp+
    then show "code c = 43 \<Longrightarrow> c = CHR ''+''" "code c = 47 \<Longrightarrow> c = CHR ''/''"
      using char_of_code[of c] by simp_all
  qed
  then show "strict_base64_body c \<Longrightarrow> base64_alphabet_char c"
    by (auto simp: strict_base64_body_def base64_alphabet_char_def)
qed

lemma encode_pattern: "base64_pattern (base64_encode b)"
proof -
  have "\<forall>c \<in> set (map base64_char (sextets (map code b))). base64_alphabet_char c"
    using encoded_sextets[of b] base64_char_ok(3) body_is_alphabet by (auto simp: list_all_iff)
  then have "dropWhile base64_alphabet_char (base64_encode b) = dropWhile base64_alphabet_char (base64_padding (length b))"
    unfolding base64_encode_def using dropWhile_append2 by metis
  then show ?thesis
    by (auto simp: base64_pattern_def base64_padding_def base64_alphabet_char_def char_class_defs)
qed

lemma normalize_encoded:
  assumes "filter (\<lambda>c. \<not> js_space c) value = base64_encode b"
  shows "normalize_base64 value location = Inr (base64_encode b)"
proof -
  let ?s = "map base64_char (sextets (map code b))"
  have len: "length ?s = 4 * (length b div 3) + (if length b mod 3 = 0 then 0 else length b mod 3 + 1)"
    using length_sextets_exact[of "map code b"] by simp
  have m: "length b mod 3 < 3" by simp
  have "length ?s mod 4 \<noteq> 1" using len m by (auto split: if_splits)
  moreover have "pad_end ((length ?s + 3) div 4 * 4) (CHR ''='') ?s = base64_encode b"
  proof -
    have "(length ?s + 3) div 4 * 4 - length ?s = length (base64_padding (length b))"
    proof -
      have "length b mod 3 = 0 \<or> length b mod 3 = 1 \<or> length b mod 3 = 2" using m by linarith
      then show ?thesis unfolding len base64_padding_def by (elim disjE) (simp_all add: add.assoc)
    qed
    moreover have "replicate (length (base64_padding (length b))) (CHR ''='') = base64_padding (length b)"
      by (simp add: base64_padding_def numeral_2_eq_2)
    ultimately show ?thesis by (simp only: pad_end_def base64_encode_def)
  qed
  ultimately show ?thesis
    by (simp add: normalize_base64_def Let_def assms encode_pattern encode_stripped del: length_map)
qed

text \<open>
  the modifier \<^verbatim>\<open>b64decode\<close> reads what the standard encoder writes, also when it is wrapped
  over lines or indented: the decoded bytes are exactly the encoded ones, and only bytes that
  are not UTF-8 are refused.
\<close>

theorem base64_modifier_decodes:
  assumes "filter (\<lambda>c. \<not> js_space c) value = base64_encode b" and "b \<noteq> []"
  shows "(case utf8 b of
      Some text \<Rightarrow> apply_modifiers utf8 value [''b64decode''] k = Inr text
    | None \<Rightarrow> isl (apply_modifiers utf8 value [''b64decode''] k))"
proof -
  have "length (base64_encode b) \<noteq> 0"
    using assms(2) length_sextets_exact[of "map code b"] by (cases "length b mod 3 = 0")
      (auto simp: base64_encode_def)
  then have "base64_encode b \<noteq> []" by simp
  then show ?thesis
    by (simp add: apply_modifiers_def apply_modifier_def decode_base64_def Let_def
        normalize_encoded[OF assms(1)] base64_decode_encode mod_text_def split: option.splits)
qed

theorem base64_modifier_decodes_witness:
  "apply_modifiers (\<lambda>b. Some b) '' SGVs bG8= '' [''b64decode''] ''K'' = Inr ''Hello''"
proof -
  have "filter (\<lambda>c. \<not> js_space c) '' SGVs bG8= '' = base64_encode ''Hello''" by code_simp
  then show ?thesis using base64_modifier_decodes[of "'' SGVs bG8= ''" "''Hello''" "\<lambda>b. Some b" "''K''"] by simp
qed

end
