(* ===== verification/ModuleFilter.thy ===== *)
theory ModuleFilter
  imports Recipe
begin

text \<open>
  The module filter of \<^verbatim>\<open>--filter\<close> (\<^verbatim>\<open>moduleFilter.ts\<close>): parsing the names, and replacing the
  modules that are not selected by modules that report a skip.
\<close>

subsection \<open>Names\<close>

fun add_filter_parts :: "string list \<Rightarrow> string list \<Rightarrow> string list" where
  "add_filter_parts names [] = names"
| "add_filter_parts names (part # parts) =
     (let name = trim part
      in if name = [] \<or> name \<in> set names then add_filter_parts names parts
         else add_filter_parts (names @ [name]) parts)"

definition parse_filter_names :: "string list \<Rightarrow> string list" where
  "parse_filter_names raw_values =
     foldl (\<lambda>names raw_value. add_filter_parts names (split_on (CHR '','') raw_value)) [] raw_values"

fun collect_names_of :: "'w module \<Rightarrow> string list"
and collect_names_in :: "'w module list \<Rightarrow> string list" where
  "collect_names_of (LeafModule c) = [mc_name c]"
| "collect_names_of (RecipeModule c ms _) = mc_name c # collect_names_in ms"
| "collect_names_in [] = []"
| "collect_names_in (m # ms) = collect_names_of m @ collect_names_in ms"

definition collect_module_names :: "'w module list \<Rightarrow> string set" where
  "collect_module_names modules = set (collect_names_in modules)"

subsection \<open>Filtering\<close>

fun subtree_has_filter_match :: "string set \<Rightarrow> 'w module \<Rightarrow> bool"
and some_subtree_matches :: "string set \<Rightarrow> 'w module list \<Rightarrow> bool" where
  "subtree_has_filter_match filter_names (LeafModule c) \<longleftrightarrow> mc_name c \<in> filter_names"
| "subtree_has_filter_match filter_names (RecipeModule c ms _) \<longleftrightarrow>
     mc_name c \<in> filter_names \<or> some_subtree_matches filter_names ms"
| "some_subtree_matches filter_names [] \<longleftrightarrow> False"
| "some_subtree_matches filter_names (m # ms) \<longleftrightarrow>
     subtree_has_filter_match filter_names m \<or> some_subtree_matches filter_names ms"

definition create_skip_module :: "string \<Rightarrow> 'w module" where
  "create_skip_module name =
     LeafModule
       \<lparr>mc_name = name, mc_local = True, mc_dry_run_blocker = True, mc_dry_run_diff_producer = False,
        mc_dry_run_meta_producer = False, mc_supports_child_step_hook = False,
        mc_apply_dry_run = Some (\<lambda>_ _ _ st.
          (Inr ((plain_result StSkipped)\<lparr>mr_dry_run_detail := Some ''filtered out''\<rparr>), st)),
        mc_prewarm_secrets = None, mc_check = (\<lambda>_ _ st. (Inr NeedsApply, st)),
        mc_apply = (\<lambda>_ _ _ st. (Inr (plain_result StSkipped), st))\<rparr>"

text \<open>
  \<^verbatim>\<open>filterNode\<close>; an ancestor that is selected returns the whole subtree, so the flag
  \<^verbatim>\<open>ancestorSelected\<close> is always false in a call and is left out.
\<close>

fun filter_node :: "string set \<Rightarrow> 'w module \<Rightarrow> 'w module"
and filter_nodes :: "string set \<Rightarrow> 'w module list \<Rightarrow> 'w module list" where
  "filter_node filter_names (LeafModule c) =
     (if mc_name c \<in> filter_names then LeafModule c else create_skip_module (mc_name c))"
| "filter_node filter_names (RecipeModule c ms signals) =
     (if mc_name c \<in> filter_names then RecipeModule c ms signals
      else if subtree_has_filter_match filter_names (RecipeModule c ms signals)
      then recipe (mc_name c) (filter_nodes filter_names ms) signals
      else create_skip_module (mc_name c))"
| "filter_nodes filter_names [] = []"
| "filter_nodes filter_names (m # ms) = filter_node filter_names m # filter_nodes filter_names ms"

definition apply_module_filter :: "'w module list \<Rightarrow> string set \<Rightarrow> 'w module list" where
  "apply_module_filter modules filter_names = filter_nodes filter_names modules"

subsection \<open>Parsing\<close>

lemma add_filter_parts_append:
  "add_filter_parts names (ps @ qs) = add_filter_parts (add_filter_parts names ps) qs"
  by (induction names ps rule: add_filter_parts.induct) (simp_all add: Let_def)

definition filter_names_ok :: "string list \<Rightarrow> bool" where
  "filter_names_ok names \<longleftrightarrow> distinct names \<and> list_all (\<lambda>n. n \<noteq> [] \<and> trimmed n \<and> CHR '','' \<notin> set n) names"

lemma add_filter_parts_ok:
  "filter_names_ok names \<Longrightarrow> list_all (\<lambda>p. CHR '','' \<notin> set p) parts \<Longrightarrow>
   filter_names_ok (add_filter_parts names parts)"
proof (induction names parts rule: add_filter_parts.induct)
  case (2 names part parts)
  then show ?case
    using trimmed_trim[of part] set_trim[of part]
    by (auto simp: Let_def filter_names_ok_def)
qed simp

lemma parse_filter_names_snoc:
  "parse_filter_names (vs @ [v]) = add_filter_parts (parse_filter_names vs) (split_on (CHR '','') v)"
  by (simp add: parse_filter_names_def)

lemma parse_filter_names_ok: "filter_names_ok (parse_filter_names vs)"
proof (induction vs rule: rev_induct)
  case (snoc v vs)
  have "list_all (\<lambda>p. CHR '','' \<notin> set p) (split_on (CHR '','') v)"
    by (auto simp: list_all_iff dest: split_on_no_sep)
  then show ?case using snoc by (simp add: parse_filter_names_snoc add_filter_parts_ok)
qed (simp add: parse_filter_names_def filter_names_ok_def)

lemma add_fresh_parts:
  "filter_names_ok (names @ parts) \<Longrightarrow> add_filter_parts names parts = names @ parts"
proof (induction parts arbitrary: names)
  case (Cons p parts)
  then have "trim p = p" "p \<noteq> []" "p \<notin> set names" by (auto simp: filter_names_ok_def trim_id)
  then show ?case using Cons.IH[of "names @ [p]"] Cons.prems by (simp add: Let_def)
qed simp

text \<open>
  the names of a filter are distinct, trimmed, not empty and without a comma, and writing
  them as one comma-separated value gives them back; so the order of first mention is kept and
  parsing again changes nothing.
\<close>

theorem filter_names_round_trip:
  "filter_names_ok (parse_filter_names raw_values) \<and>
   parse_filter_names [join_with '','' (parse_filter_names raw_values)] = parse_filter_names raw_values"
proof
  let ?ns = "parse_filter_names raw_values"
  show ok: "filter_names_ok ?ns" by (rule parse_filter_names_ok)
  show "parse_filter_names [join_with '','' ?ns] = ?ns"
  proof (cases "?ns = []")
    case True
    then show ?thesis by (simp add: parse_filter_names_def trim_def trim_start_def trim_end_def Let_def)
  next
    case False
    then have "split_on (CHR '','') (join_with '','' ?ns) = ?ns"
      using ok by (intro split_on_join) (auto simp: filter_names_ok_def list_all_iff)
    then show ?thesis using add_fresh_parts[of "[]" ?ns] ok
      by (simp add: parse_filter_names_def del: split_on.simps)
  qed
qed

subsection \<open>What a filtered list may do\<close>









text \<open>With every name selected, or with a filter that selects the top level, nothing changes.\<close>

lemma filter_all_selected: "set (map mod_name ms) \<subseteq> F \<Longrightarrow> apply_module_filter ms F = ms"
proof (induction ms)
  case (Cons m ms)
  then show ?case by (cases m) (auto simp: apply_module_filter_def)
qed (simp add: apply_module_filter_def)

end
