(* ===== verification/Remote.thy ===== *)
theory Remote
  imports StreamOutput Orchestration
begin

text \<open>
  What a module sees of the server: the connection's \<^verbatim>\<open>exec\<close> as a parameter and the helpers of
  \<^verbatim>\<open>ssh.ts\<close> over it, and the failures of \<^verbatim>\<open>moduleFailure.ts\<close> that modules build from a
  command's result.
\<close>

subsection \<open>Commands\<close>

record exec_options =
  eo_env :: "(string \<times> string) list option"
  eo_ignore_exit_code :: bool
  eo_input :: "string option"
  eo_max_output_bytes :: "js_number option"
  eo_secrets :: "string list"
  eo_silent :: bool
  eo_strict_utf8_stdout :: bool
  eo_timeout :: "int option"

definition exec_defaults :: exec_options where
  "exec_defaults = \<lparr>eo_env = None, eo_ignore_exit_code = False, eo_input = None,
     eo_max_output_bytes = None, eo_secrets = [], eo_silent = False, eo_strict_utf8_stdout = False,
     eo_timeout = None\<rparr>"

definition silent_exec :: exec_options where
  "silent_exec = exec_defaults\<lparr>eo_silent := True\<rparr>"

definition probe_exec :: exec_options where
  "probe_exec = exec_defaults\<lparr>eo_silent := True, eo_ignore_exit_code := True\<rparr>"

type_synonym 's remote = "string \<Rightarrow> exec_options \<Rightarrow> (exec_result, 's) effect"

definition remote_test :: "'s remote \<Rightarrow> string \<Rightarrow> (bool, 's) effect" where
  "remote_test exec cmd s = and_then (exec cmd probe_exec s) (\<lambda>r s1. (Inr (er_code r = 0), s1))"

definition remote_exists :: "'s remote \<Rightarrow> string \<Rightarrow> (bool, 's) effect" where
  "remote_exists exec path = remote_test exec (''[ -e '' @ shell_quote path @ '' ]'')"

definition remote_output :: "'s remote \<Rightarrow> string \<Rightarrow> (string, 's) effect" where
  "remote_output exec cmd s = and_then (exec cmd silent_exec s) (\<lambda>r s1. (Inr (trim (er_stdout r)), s1))"

definition remote_lines :: "'s remote \<Rightarrow> string \<Rightarrow> (string list, 's) effect" where
  "remote_lines exec cmd s =
     and_then (remote_output exec cmd s)
       (\<lambda>out s1. (Inr (if out = [] then [] else split_on newline out), s1))"

definition remote_read_file :: "'s remote \<Rightarrow> string \<Rightarrow> (string, 's) effect" where
  "remote_read_file exec path s =
     and_then (exec (''cat '' @ shell_quote path) silent_exec s)
       (\<lambda>r s1.
          if ends_with (er_stdout r) capture_truncation_marker
          then (Inl (GenericError (''[ssh.readFile: '' @ path @ ''] remote file exceeds the captured-output cap of ''
                  @ show_nat default_max_output_bytes @ '' bytes; refusing to return truncated contents'')), s1)
          else (Inr (er_stdout r), s1))"

text \<open>The first field of a text split at runs of white space, which may be empty.\<close>

definition first_field :: "string \<Rightarrow> string" where
  "first_field s = takeWhile (\<lambda>c. \<not> js_space c) s"

definition remote_sha256 :: "'s remote \<Rightarrow> string \<Rightarrow> (string option, 's) effect" where
  "remote_sha256 exec path s =
     and_then (remote_test exec (''[ -f '' @ shell_quote path @ '' ]'') s)
       (\<lambda>present s1.
          if \<not> present then (Inr None, s1)
          else and_then (exec (''sha256sum '' @ shell_quote path) silent_exec s1)
            (\<lambda>r s2.
               if ends_with (er_stdout r) capture_truncation_marker
               then (Inl (GenericError (''[ssh.sha256: '' @ path @ ''] sha256sum output exceeds the captured-output cap of ''
                       @ show_nat default_max_output_bytes
                       @ '' bytes; refusing to return a digest derived from truncated output'')), s2)
               else (Inr (Some (first_field (trim (er_stdout r)))), s2)))"

subsection \<open>Failures\<close>

fun first_non_empty_of :: "string list \<Rightarrow> string option" where
  "first_non_empty_of [] = None"
| "first_non_empty_of (line # lines) = (if trim line \<noteq> [] then Some (trim line) else first_non_empty_of lines)"

definition first_non_empty_line :: "string \<Rightarrow> string option" where
  "first_non_empty_line text = first_non_empty_of (split_on newline text)"

definition detail_line_limit :: nat where "detail_line_limit = 3"
definition detail_byte_limit :: nat where "detail_byte_limit = 600"

definition detail_truncation_marker :: string where
  "detail_truncation_marker = CHR 0x85 # '' (output truncated)''"

definition with_truncation_marker :: "string list \<Rightarrow> string" where
  "with_truncation_marker lines = join_with [newline] lines @ [newline] @ detail_truncation_marker"

text \<open>The loop over the first lines: the kept lines, and whether the budget ended it.\<close>

fun keep_lines :: "string list \<Rightarrow> int \<Rightarrow> string list \<Rightarrow> string list \<times> bool" where
  "keep_lines kept remaining [] = (kept, False)"
| "keep_lines kept remaining (line # lines) =
     (if remaining < int (length line) then (kept, True)
      else keep_lines (kept @ [line]) (remaining - (int (length line) + 1)) lines)"

definition bounded_output_detail :: "string \<Rightarrow> string option" where
  "bounded_output_detail text =
     (let lines = filter (\<lambda>l. l \<noteq> []) (map trim (split_on newline text))
      in case lines of
           [] \<Rightarrow> None
         | first # _ \<Rightarrow>
             Some (if detail_byte_limit < length first
                   then with_truncation_marker [take detail_byte_limit first]
                   else (case keep_lines [] (int detail_byte_limit) (take detail_line_limit lines) of
                           (kept, ended) \<Rightarrow>
                             if ended \<or> length kept < length lines then with_truncation_marker kept
                             else join_with [newline] kept)))"

definition masked_text :: "string list option \<Rightarrow> string \<Rightarrow> string result" where
  "masked_text secrets text =
     (case secrets of
        None \<Rightarrow> Inr text
      | Some ks \<Rightarrow> if ks = [] then Inr text else mask_secrets text ks)"

text \<open>Masking throws on a secret that contains the placeholder.\<close>

definition failed_command_with_diagnostic ::
  "string option \<Rightarrow> string \<Rightarrow> exec_result \<Rightarrow> string list option \<Rightarrow> module_result result" where
  "failed_command_with_diagnostic diagnostic message result secrets =
     (case (masked_text secrets (er_stderr result), masked_text secrets (er_stdout result)) of
        (Inl e, _) \<Rightarrow> Inl e
      | (_, Inl e) \<Rightarrow> Inl e
      | (Inr stderr, Inr stdout) \<Rightarrow>
          (let detail = (case bounded_output_detail stderr of
                           Some d \<Rightarrow> Some d | None \<Rightarrow> bounded_output_detail stdout);
               summary = message @ '' (exit code '' @ show_int (er_code result) @ '')''
           in (case (case diagnostic of None \<Rightarrow> Inr None | Some d \<Rightarrow> map_sum id Some (masked_text secrets d)) of
                 Inl e \<Rightarrow> Inl e
               | Inr masked_diagnostic \<Rightarrow>
                   (let parts = [Some summary, detail, masked_diagnostic];
                        error_message = join_with [newline]
                          (filter (\<lambda>p. p \<noteq> []) (List.map_filter (\<lambda>p. p) parts))
                    in Inr ((plain_result StFailed)
                         \<lparr>mr_error := Some (CommandErr error_message stdout stderr)\<rparr>)))))"

definition failed_command :: "string \<Rightarrow> exec_result \<Rightarrow> string list option \<Rightarrow> module_result result" where
  "failed_command message result secrets = failed_command_with_diagnostic None message result secrets"

definition with_rollback_failure ::
  "module_result \<Rightarrow> (unit, 's) effect \<Rightarrow> string \<Rightarrow> (module_result, 's) effect" where
  "with_rollback_failure failure rollback fallback_message s =
     (case rollback s of
        (Inl e, s1) \<Rightarrow>
          (Inr (failed_result ((case mr_error failure of Some fe \<Rightarrow> exn_message fe | None \<Rightarrow> fallback_message)
                  @ [newline] @ ''rollback failed: '' @ exn_message e)), s1)
      | (Inr _, s1) \<Rightarrow> (Inr failure, s1))"

subsection \<open>The budget of a failure message\<close>

fun joined_length :: "string list \<Rightarrow> nat" where
  "joined_length [] = 0"
| "joined_length (l # ls) = length l + 1 + joined_length ls"

lemma length_join: "ls \<noteq> [] \<Longrightarrow> length (join_with [newline] ls) + 1 = joined_length ls"
  by (induction "[newline]" ls rule: join_with.induct) auto

lemma joined_length_append: "joined_length (ls @ ks) = joined_length ls + joined_length ks"
  by (induction ls) simp_all

lemma keep_lines_prefix:
  "keep_lines kept remaining lines = (out, ended) \<Longrightarrow>
   \<exists>n. out = kept @ take n lines \<and> (\<not> ended \<longrightarrow> out = kept @ lines) \<and> (ended \<longrightarrow> n < length lines) \<and>
     (int (joined_length out) \<le> max (int (joined_length kept)) (int (joined_length kept) + remaining + 1))"
proof (induction kept remaining lines rule: keep_lines.induct)
  case (1 kept remaining)
  then show ?case by auto
next
  case (2 kept remaining line lines)
  show ?case
  proof (cases "remaining < int (length line)")
    case True
    then show ?thesis using 2(2) by (auto intro!: exI[of _ 0])
  next
    case False
    then obtain n where n: "out = (kept @ [line]) @ take n lines" "\<not> ended \<longrightarrow> out = (kept @ [line]) @ lines"
        "ended \<longrightarrow> n < length lines"
      and len: "int (joined_length out) \<le> max (int (joined_length (kept @ [line])))
        (int (joined_length (kept @ [line])) + (remaining - (int (length line) + 1)) + 1)"
      using 2 by auto
    have "out = kept @ take (Suc n) (line # lines)" using n by simp
    moreover have "int (joined_length out) \<le> max (int (joined_length kept)) (int (joined_length kept) + remaining + 1)"
      using len False by (simp add: joined_length_append)
    ultimately show ?thesis using n(2,3) by (auto intro!: exI[of _ "Suc n"])
  qed
qed

text \<open>
  a failure message carries at most three lines and six hundred characters of the output,
  apart from the marker. What it carries is a prefix of the trimmed non-empty lines, cut only
  inside a first line that is too long; the marker stands there exactly when something was
  left out; and there is no detail exactly when every line is blank.
\<close>

theorem failure_detail_budget:
  "(let lines = filter (\<lambda>l. l \<noteq> []) (map trim (split_on newline text)) in
    case bounded_output_detail text of
      None \<Rightarrow> lines = []
    | Some detail \<Rightarrow> \<exists>kept. lines \<noteq> [] \<and> length kept \<le> 3 \<and> length (join_with [newline] kept) \<le> 600 \<and>
        (kept = take (length kept) lines \<or> (600 < length (hd lines) \<and> kept = [take 600 (hd lines)])) \<and>
        detail = (if kept = lines then join_with [newline] kept else with_truncation_marker kept))"
proof -
  define lines where "lines = filter (\<lambda>l. l \<noteq> []) (map trim (split_on newline text))"
  show ?thesis
  proof (cases lines)
    case Nil
    then show ?thesis by (simp add: bounded_output_detail_def lines_def[symmetric] Let_def)
  next
    case (Cons first rest)
    show ?thesis
    proof (cases "detail_byte_limit < length first")
      case True
      then have "bounded_output_detail text = Some (with_truncation_marker [take 600 first])"
        by (simp add: bounded_output_detail_def lines_def[symmetric] Let_def Cons detail_byte_limit_def)
      moreover have "[take 600 first] \<noteq> lines" using True Cons by (auto simp: detail_byte_limit_def)
      ultimately show ?thesis
        using True by (auto simp: lines_def[symmetric] Let_def Cons detail_byte_limit_def
            intro!: exI[of _ "[take 600 first]"])
    next
      case False
      obtain kept ended where k: "keep_lines [] (int detail_byte_limit) (take detail_line_limit lines) = (kept, ended)"
        by (cases "keep_lines [] (int detail_byte_limit) (take detail_line_limit lines)")
      obtain n where n: "kept = take n (take detail_line_limit lines)"
        and all: "\<not> ended \<longrightarrow> kept = take detail_line_limit lines"
        and short: "ended \<longrightarrow> n < length (take detail_line_limit lines)"
        and len: "int (joined_length kept) \<le> 601"
        using keep_lines_prefix[OF k] by (auto simp: detail_byte_limit_def)
      have prefix: "kept = take (length kept) lines" "length kept \<le> 3"
        using n by (auto simp: detail_line_limit_def min_def)
      have "length (join_with [newline] kept) \<le> 600"
        using len length_join[of kept] by (cases "kept = []") auto
      moreover have "ended \<or> length kept < length lines \<longleftrightarrow> kept \<noteq> lines"
      proof
        assume "ended \<or> length kept < length lines"
        then show "kept \<noteq> lines"
        proof
          assume ended
          then have "length kept < length lines" using n short by auto
          then show ?thesis by auto
        qed auto
      next
        assume "kept \<noteq> lines"
        then have "length kept < length lines" using prefix(1)
          by (metis le_less_linear length_take min.absorb2 take_all_iff)
        then show "ended \<or> length kept < length lines" by simp
      qed
      ultimately show ?thesis
        using False prefix k
        by (auto simp: bounded_output_detail_def lines_def[symmetric] Let_def Cons intro!: exI[of _ kept])
    qed
  qed
qed

end
