(* ===== verification/ExecChannel.thy ===== *)
theory ExecChannel
  imports Remote SshSession
begin

text \<open>
  One command on a session channel (\<^verbatim>\<open>runPreparedExec\<close>, \<^verbatim>\<open>runRawExec\<close> of \<^verbatim>\<open>ssh.ts\<close>): the promise,
  its timer, the channel the transport delivers, possibly late or never, what is written to its
  standard input, and the collector of StreamOutput that listens on it. A run is a fold over
  the events of the transport, the timer and the connection.
\<close>

subsection \<open>The run of one command\<close>

definition command_timeout :: int where "command_timeout = 120000"

definition max_concurrent_session_channels :: nat where "max_concurrent_session_channels = 4"

definition describe_channel_open_failure :: "exn \<Rightarrow> string \<Rightarrow> string list \<Rightarrow> exn" where
  "describe_channel_open_failure e command variants =
     (case e of
        TransportErr kind detail cause \<Rightarrow>
          (if kind = ''CHANNEL_OPEN_FAILED''
           then GenericError (exn_message e @ CHR '' '' # CHR 0x97 #
                  '' the SSH server refused a new session channel. paratix opens at most ''
                  @ show_nat max_concurrent_session_channels
                  @ '' concurrent channels per connection; a server whose MaxSessions is below that (OpenSSH default: 10) refuses them. Command: ''
                  @ mask_prepared_secrets command variants)
           else unwrap_transport_error e)
      | _ \<Rightarrow> unwrap_transport_error e)"

datatype stdin_op = StdinWrite string | StdinEnd "string option"

definition write_stream_input :: "bool \<Rightarrow> string option \<Rightarrow> string option \<Rightarrow> stdin_op list" where
  "write_stream_input needs_password pw input =
     (let writes_password = needs_password \<and> pw \<noteq> None
      in (case pw of
            Some password \<Rightarrow> (if writes_password then [StdinWrite password, StdinWrite [newline]] else [])
          | None \<Rightarrow> [])
         @ (case input of
              Some i \<Rightarrow> [StdinEnd (Some i)]
            | None \<Rightarrow> (if writes_password then [StdinEnd None] else [])))"

record ('b, 'd) exec_plan =
  xp_collect :: "('b, 'd) collect_options"
  xp_variants :: "string list"
  xp_timeout :: int
  xp_needs_password :: bool
  xp_input :: "string option"

text \<open>
  \<open>xr_stream\<close> is \<^verbatim>\<open>activeStream\<close>, \<open>xr_collector\<close> the listeners on it, \<open>xr_closes\<close> the number of
  calls of \<^verbatim>\<open>close\<close> on the delivered channel.
\<close>

record 'd exec_run =
  xr_timer :: bool
  xr_delivered :: bool
  xr_stream :: bool
  xr_collector :: "'d collector option"
  xr_closes :: nat
  xr_stdin :: "stdin_op list"
  xr_settled :: "exec_result result option"

datatype 'b exec_event =
    ChannelOpened
  | ExecRejected exn
  | ExecThrew exn
  | OnChannel "'b channel_event"
  | TimerFired
  | PendingRejected exn

definition new_exec_run :: "'d exec_run" where
  "new_exec_run = \<lparr>xr_timer = True, xr_delivered = False, xr_stream = False, xr_collector = None,
     xr_closes = 0, xr_stdin = [], xr_settled = None\<rparr>"

text \<open>\<^verbatim>\<open>wrappedResolve\<close> and \<^verbatim>\<open>wrappedReject\<close>: the first call settles the promise.\<close>

definition settle_run :: "exec_result result \<Rightarrow> 'd exec_run \<Rightarrow> 'd exec_run" where
  "settle_run outcome r = (if xr_settled r = None then r\<lparr>xr_settled := Some outcome\<rparr> else r)"

definition close_active :: "'d exec_run \<Rightarrow> 'd exec_run" where
  "close_active r = (if xr_stream r then r\<lparr>xr_closes := xr_closes r + 1\<rparr> else r)"

definition timeout_error :: "('b, 'd) exec_plan \<Rightarrow> exn" where
  "timeout_error plan = GenericError (''Command timed out after '' @ show_int (xp_timeout plan) @ ''ms: ''
     @ mask_prepared_secrets (cx_command (xp_collect plan)) (xp_variants plan))"

text \<open>The collector stops the timer and settles the promise of the run.\<close>

definition adopt_collector :: "'d collector \<Rightarrow> 'd exec_run \<Rightarrow> 'd exec_run" where
  "adopt_collector c r =
     (let r1 = r\<lparr>xr_collector := Some c, xr_timer := xr_timer r \<and> cl_timer c\<rparr>
      in case cl_settled c of None \<Rightarrow> r1 | Some outcome \<Rightarrow> settle_run outcome r1)"

definition accept_channel :: "('b, 'd) exec_plan \<Rightarrow> string option \<Rightarrow> 'd exec_run \<Rightarrow> 'd exec_run" where
  "accept_channel plan pw r =
     (if xr_delivered r then r
      else (let r1 = r\<lparr>xr_delivered := True\<rparr>
            in if xr_settled r1 \<noteq> None then r1\<lparr>xr_closes := xr_closes r1 + 1\<rparr>
               else (let r2 = r1\<lparr>xr_stream := True\<rparr>;
                         r3 = (case resolve_max_output_bytes (cx_max (xp_collect plan)) of
                                 Inl e \<Rightarrow> settle_run (Inl e) (r2\<lparr>xr_timer := False\<rparr>)
                               | Inr m \<Rightarrow> r2\<lparr>xr_collector := Some (new_collector (xp_collect plan) m)\<rparr>)
                     in r3\<lparr>xr_stdin := write_stream_input (xp_needs_password plan) pw (xp_input plan)\<rparr>)))"

fun exec_step ::
  "('b, 'd) exec_plan \<Rightarrow> 'd exec_run \<Rightarrow> string option \<times> 'b exec_event \<Rightarrow> 'd exec_run" where
  "exec_step plan r (pw, ChannelOpened) = accept_channel plan pw r"
| "exec_step plan r (pw, ExecRejected e) =
     settle_run (Inl (describe_channel_open_failure e (cx_command (xp_collect plan)) (xp_variants plan)))
       (r\<lparr>xr_timer := False\<rparr>)"
| "exec_step plan r (pw, ExecThrew e) = settle_run (Inl e) (close_active (r\<lparr>xr_timer := False\<rparr>))"
| "exec_step plan r (pw, OnChannel ev) =
     (case xr_collector r of
        None \<Rightarrow> r
      | Some c \<Rightarrow> adopt_collector (channel_step (xp_collect plan) (xp_variants plan) c ev) r)"
| "exec_step plan r (pw, TimerFired) =
     (if xr_timer r then settle_run (Inl (timeout_error plan)) (close_active (r\<lparr>xr_timer := False\<rparr>)) else r)"
| "exec_step plan r (pw, PendingRejected e) = settle_run (Inl e) r"

definition run_exec :: "('b, 'd) exec_plan \<Rightarrow> (string option \<times> 'b exec_event) list \<Rightarrow> 'd exec_run" where
  "run_exec plan events = foldl (exec_step plan) new_exec_run events"

subsection \<open>The invariant of a run\<close>

text \<open>
  A promise that is not settled has its timer; the collector only listens on the active stream
  of a delivered channel; nothing is written before the channel is there; and a channel that
  was delivered to a promise already settled is closed.
\<close>

definition exec_run_ok :: "('b, 'd) exec_plan \<Rightarrow> 'd exec_run \<Rightarrow> bool" where
  "exec_run_ok plan r \<longleftrightarrow>
     (xr_settled r = None \<longrightarrow> xr_timer r \<and> xr_closes r = 0) \<and>
     (xr_stream r \<longrightarrow> xr_delivered r) \<and>
     (xr_delivered r \<and> \<not> xr_stream r \<longrightarrow> 0 < xr_closes r) \<and>
     (\<not> xr_stream r \<longrightarrow> xr_collector r = None \<and> xr_stdin r = []) \<and>
     (\<not> xr_delivered r \<longrightarrow> xr_closes r = 0) \<and>
     (case xr_collector r of
        None \<Rightarrow> True
      | Some c \<Rightarrow> (cl_settled c \<noteq> None \<longrightarrow> xr_settled r \<noteq> None \<and> \<not> xr_timer r) \<and>
          (cl_settled c = None \<longrightarrow> cl_timer c))"

lemma settle_run_fields [simp]:
  "xr_timer (settle_run x r) = xr_timer r" "xr_delivered (settle_run x r) = xr_delivered r"
  "xr_stream (settle_run x r) = xr_stream r" "xr_collector (settle_run x r) = xr_collector r"
  "xr_closes (settle_run x r) = xr_closes r" "xr_stdin (settle_run x r) = xr_stdin r"
  "xr_settled (settle_run x r) = (case xr_settled r of None \<Rightarrow> Some x | Some y \<Rightarrow> Some y)"
  by (auto simp: settle_run_def split: option.splits)

lemma close_active_fields [simp]:
  "xr_timer (close_active r) = xr_timer r" "xr_delivered (close_active r) = xr_delivered r"
  "xr_stream (close_active r) = xr_stream r" "xr_collector (close_active r) = xr_collector r"
  "xr_closes (close_active r) = (if xr_stream r then xr_closes r + 1 else xr_closes r)"
  "xr_stdin (close_active r) = xr_stdin r" "xr_settled (close_active r) = xr_settled r"
  by (auto simp: close_active_def)

lemma channel_step_timer:
  "(cl_settled c = None \<longrightarrow> cl_timer c) \<Longrightarrow>
   cl_settled (channel_step cx vs c e) = None \<longrightarrow> cl_timer (channel_step cx vs c e)"
  by (cases e) (auto simp: Let_def drain_def settle_def split: if_splits)

lemma channel_step_stays: "cl_settled c \<noteq> None \<Longrightarrow> cl_settled (channel_step cx vs c e) = cl_settled c"
  using settled_step[of c _ cx vs e] by auto

lemma channel_step_stops:
  "cl_settled c = None \<Longrightarrow> cl_settled (channel_step cx vs c e) \<noteq> None \<Longrightarrow> \<not> cl_timer (channel_step cx vs c e)"
  by (cases e) (auto simp: Let_def drain_def settle_def split: if_splits)

lemma adopt_fields [simp]:
  "xr_timer (adopt_collector c r) = (xr_timer r \<and> cl_timer c)"
  "xr_delivered (adopt_collector c r) = xr_delivered r" "xr_stream (adopt_collector c r) = xr_stream r"
  "xr_collector (adopt_collector c r) = Some c" "xr_closes (adopt_collector c r) = xr_closes r"
  "xr_stdin (adopt_collector c r) = xr_stdin r"
  "xr_settled (adopt_collector c r) =
     (case xr_settled r of None \<Rightarrow> cl_settled c | Some y \<Rightarrow> Some y)"
  by (auto simp: adopt_collector_def Let_def split: option.splits)

lemma accept_stdin:
  "xr_stdin (accept_channel plan pw r) =
     (if xr_delivered r \<or> xr_settled r \<noteq> None then xr_stdin r
      else write_stream_input (xp_needs_password plan) pw (xp_input plan))"
  by (simp add: accept_channel_def Let_def)

lemma adopt_ok:
  assumes "exec_run_ok plan r" and "xr_collector r = Some c"
  shows "exec_run_ok plan (adopt_collector (channel_step cx vs c ev) r)"
  using assms channel_step_timer[of c cx vs ev] channel_step_stays[of c cx vs ev]
    channel_step_stops[of c cx vs ev]
  by (cases "cl_settled c"; cases "cl_settled (channel_step cx vs c ev)")
     (auto simp: exec_run_ok_def split: option.splits)

lemma accept_ok: "exec_run_ok plan r \<Longrightarrow> exec_run_ok plan (accept_channel plan pw r)"
  by (auto simp: accept_channel_def exec_run_ok_def Let_def new_collector_def split: sum.splits option.splits)

lemma exec_step_ok: "exec_run_ok plan r \<Longrightarrow> exec_run_ok plan (exec_step plan r ev)"
proof (induction plan r ev rule: exec_step.induct)
  case (1 plan r pw)
  then show ?case by (simp add: accept_ok)
next
  case (4 plan r pw ev)
  then show ?case by (auto simp: adopt_ok split: option.split)
qed (auto simp: exec_run_ok_def split: option.splits)

lemma run_exec_snoc: "run_exec plan (es @ [e]) = exec_step plan (run_exec plan es) e"
  by (simp add: run_exec_def)

lemma run_exec_ok: "exec_run_ok plan (run_exec plan es)"
proof (induction es rule: rev_induct)
  case Nil
  then show ?case by (simp add: run_exec_def exec_run_ok_def new_exec_run_def)
next
  case (snoc e es)
  then show ?case by (simp add: run_exec_snoc exec_step_ok)
qed

subsection \<open>Settled runs\<close>

text \<open>What no event can change in a run that is settled.\<close>

lemma settled_exec_step:
  assumes "xr_settled r = Some x"
  shows "xr_settled (exec_step plan r ev) = Some x \<and> xr_stdin (exec_step plan r ev) = xr_stdin r \<and>
    xr_stream (exec_step plan r ev) = xr_stream r \<and> xr_closes r \<le> xr_closes (exec_step plan r ev)"
  using assms by (induction plan r ev rule: exec_step.induct)
    (auto simp: accept_channel_def Let_def split: option.splits)

lemma settled_exec_run:
  assumes "xr_settled (run_exec plan es) = Some x"
  shows "xr_settled (run_exec plan (es @ es')) = Some x \<and>
    xr_stdin (run_exec plan (es @ es')) = xr_stdin (run_exec plan es) \<and>
    xr_stream (run_exec plan (es @ es')) = xr_stream (run_exec plan es) \<and>
    xr_closes (run_exec plan es) \<le> xr_closes (run_exec plan (es @ es'))"
proof (induction es' rule: rev_induct)
  case (snoc e es')
  have "run_exec plan (es @ es' @ [e]) = exec_step plan (run_exec plan (es @ es')) e"
    using run_exec_snoc[of plan "es @ es'" e] by simp
  then show ?case
    using snoc settled_exec_step[of "run_exec plan (es @ es')" x plan e] by auto
qed (simp add: assms)

text \<open>
  C27: no command waits longer than its timer. Once the timer of a command fires the promise is
  settled, with the timeout error unless it had an outcome before; whatever happens afterwards
  does not change the outcome and writes nothing to the command; and the channel of a command
  that timed out, whether it was delivered before the timer or comes later, is closed.
\<close>

theorem timer_settles_command:
  "(let before = run_exec plan es; after = run_exec plan (es @ (pw0, TimerFired) # es') in
    (case xr_settled before of
       None \<Rightarrow> xr_settled after = Some (Inl (timeout_error plan)) \<and>
         (\<not> xr_delivered after \<or> 0 < xr_closes after)
     | Some outcome \<Rightarrow> xr_settled after = Some outcome) \<and>
    xr_stdin after = xr_stdin before)"
proof -
  define before where "before = run_exec plan es"
  define fired where "fired = run_exec plan (es @ [(pw0, TimerFired)])"
  define after where "after = run_exec plan (es @ (pw0, TimerFired) # es')"
  have ok: "exec_run_ok plan before" "exec_run_ok plan fired" "exec_run_ok plan after"
    by (simp_all add: before_def fired_def after_def run_exec_ok)
  have fired: "fired = exec_step plan before (pw0, TimerFired)"
    by (simp add: fired_def before_def run_exec_snoc)
  obtain x where x: "xr_settled fired = Some x" "xr_stdin fired = xr_stdin before"
    "x = (case xr_settled before of None \<Rightarrow> Inl (timeout_error plan) | Some y \<Rightarrow> y)"
    using ok(1) unfolding fired by (auto simp: exec_run_ok_def split: option.splits)
  have after: "xr_settled after = Some x" "xr_stdin after = xr_stdin before"
    "xr_stream after = xr_stream fired" "xr_closes fired \<le> xr_closes after"
    using settled_exec_run[of plan "es @ [(pw0, TimerFired)]" x es'] x
    by (simp_all add: fired_def after_def)
  have "xr_settled before = None \<Longrightarrow> xr_delivered after \<Longrightarrow> 0 < xr_closes after"
    using ok after(3,4) unfolding fired by (cases "xr_stream after") (auto simp: exec_run_ok_def)
  then show ?thesis
    using after x(3) by (auto simp: Let_def before_def[symmetric] after_def[symmetric] split: option.splits)
qed

lemma late_channel_is_closed:
  "xr_settled (run_exec plan [(None, TimerFired), (None, ChannelOpened)]) = Some (Inl (timeout_error plan)) \<and>
     xr_closes (run_exec plan [(None, TimerFired), (None, ChannelOpened)]) = 1"
  by (simp add: run_exec_def new_exec_run_def accept_channel_def close_active_def settle_run_def Let_def)

subsection \<open>What reaches the standard input\<close>

lemma exec_stdin:
  "xr_stdin (run_exec plan es) = [] \<or>
   (\<exists>before pw after. es = before @ (pw, ChannelOpened) # after \<and>
      xr_settled (run_exec plan before) = None \<and>
      xr_stdin (run_exec plan es) = write_stream_input (xp_needs_password plan) pw (xp_input plan))"
proof (induction es rule: rev_induct)
  case Nil
  then show ?case by (simp add: run_exec_def new_exec_run_def)
next
  case (snoc e es)
  have ok: "exec_run_ok plan (run_exec plan es)" by (rule run_exec_ok)
  show ?case
  proof (cases "xr_stdin (run_exec plan (es @ [e])) = xr_stdin (run_exec plan es)")
    case same: True
    show ?thesis
    proof (cases "xr_stdin (run_exec plan es) = []")
      case False
      then obtain before pw after where at: "es = before @ (pw, ChannelOpened) # after"
        "xr_settled (run_exec plan before) = None"
        "xr_stdin (run_exec plan es) = write_stream_input (xp_needs_password plan) pw (xp_input plan)"
        using snoc by blast
      have "es @ [e] = before @ (pw, ChannelOpened) # (after @ [e])" using at(1) by simp
      then show ?thesis using at(2,3) same by (intro disjI2 exI conjI) simp_all
    qed (use same in simp)
  next
    case False
    obtain pw ev where e: "e = (pw, ev)" by (cases e)
    have "ev = ChannelOpened" using False unfolding run_exec_snoc e
      by (cases ev) (auto split: option.splits if_splits)
    then have e: "e = (pw, ChannelOpened)" using e by simp
    have acc: "xr_stdin (accept_channel plan pw (run_exec plan es)) \<noteq> xr_stdin (run_exec plan es)"
      using False by (simp add: run_exec_snoc e)
    have unsettled: "xr_settled (run_exec plan es) = None"
      using acc by (simp add: accept_stdin split: if_splits)
    have "xr_stdin (run_exec plan (es @ [e])) = write_stream_input (xp_needs_password plan) pw (xp_input plan)"
      using acc by (simp add: run_exec_snoc e accept_stdin split: if_splits)
    then show ?thesis using unsettled e by blast
  qed
qed


subsection \<open>The outcome\<close>

lemma exec_channel_run:
  assumes "xr_collector r = Some c" "cl_settled c = None \<longrightarrow> cl_timer c \<and> xr_timer r" "xr_settled r = cl_settled c"
  shows "xr_settled (foldl (exec_step plan) r (map (\<lambda>ev. (pw, OnChannel ev)) evs)) =
    cl_settled (foldl (channel_step (xp_collect plan) (xp_variants plan)) c evs)"
  using assms
proof (induction evs arbitrary: r c)
  case (Cons ev evs)
  define c1 where "c1 = channel_step (xp_collect plan) (xp_variants plan) c ev"
  define r1 where "r1 = adopt_collector c1 r"
  have r1: "exec_step plan r (pw, OnChannel ev) = r1" by (simp add: Cons.prems r1_def c1_def)
  have settled: "xr_settled r1 = cl_settled c1"
    using Cons.prems(3) channel_step_stays[of c "xp_collect plan" "xp_variants plan" ev]
    by (auto simp: r1_def c1_def split: option.splits)
  have keeps: "xr_settled (foldl (exec_step plan) r2 (map (\<lambda>ev. (pw, OnChannel ev)) xs)) = Some x"
    if "xr_settled r2 = Some x" for r2 x xs
    using that
  proof (induction xs arbitrary: r2)
    case (Cons y ys)
    then show ?case using settled_exec_step[OF Cons.prems, of plan "(pw, OnChannel y)"] by simp
  qed simp
  show ?case
  proof (cases "cl_settled c1")
    case None
    then have "cl_settled c = None" using channel_step_stays[of c] unfolding c1_def by (metis not_Some_eq)
    then have "cl_timer c1 \<and> xr_timer r1"
      using channel_step_timer[of c "xp_collect plan" "xp_variants plan" ev] Cons.prems None
      by (simp add: r1_def c1_def)
    then show ?thesis using Cons.IH[of r1 c1] settled r1 by (simp add: r1_def c1_def[symmetric])
  next
    case (Some x)
    then show ?thesis using keeps[of r1 x evs] settled r1 settled_run[OF Some, of "xp_collect plan" "xp_variants plan" evs]
      by (simp add: c1_def)
  qed
qed simp

text \<open>
  C28: the promise of a command refines the collector of its output. When the channel arrives
  and its events follow, the outcome of the command is the one the collector computes from
  these events alone, whether it is a refused output limit, a broken stream, an exit or still
  open; and an outcome that is there is not changed by the timer, a late rejection or the loss
  of the connection.
\<close>

theorem command_refines_collector:
  assumes "get_secret_variants (cx_secrets (xp_collect plan)) = Inr (xp_variants plan)"
  shows "xr_settled (run_exec plan ((pw, ChannelOpened) # map (\<lambda>ev. (pw, OnChannel ev)) evs)) =
      cl_settled (collect_stream_output (xp_collect plan) evs) \<and>
    (case cl_settled (collect_stream_output (xp_collect plan) evs) of
       None \<Rightarrow> True
     | Some outcome \<Rightarrow>
         xr_settled (run_exec plan ((pw, ChannelOpened) # map (\<lambda>ev. (pw, OnChannel ev)) evs @ others)) = Some outcome)"
proof -
  define es where "es = (pw, ChannelOpened) # map (\<lambda>ev. (pw, OnChannel ev :: 'a exec_event)) evs"
  have eq: "xr_settled (run_exec plan es) = cl_settled (collect_stream_output (xp_collect plan) evs)"
  proof (cases "resolve_max_output_bytes (cx_max (xp_collect plan))")
    case (Inl e)
    have "xr_settled (run_exec plan [(pw, ChannelOpened)]) = Some (Inl e)"
      by (simp add: run_exec_def accept_channel_def new_exec_run_def Inl Let_def)
    then have "xr_settled (run_exec plan es) = Some (Inl e)"
      using settled_exec_run[of plan "[(pw, ChannelOpened)]"] by (auto simp: es_def)
    then show ?thesis by (simp add: collect_stream_output_def Inl)
  next
    case (Inr m)
    define r where "r = run_exec plan [(pw, ChannelOpened)]"
    have "xr_collector r = Some (new_collector (xp_collect plan) m)" "xr_timer r" "xr_settled r = None"
      by (simp_all add: r_def run_exec_def accept_channel_def new_exec_run_def Inr Let_def)
    then have "xr_settled (foldl (exec_step plan) r (map (\<lambda>ev. (pw, OnChannel ev)) evs)) =
        cl_settled (foldl (channel_step (xp_collect plan) (xp_variants plan)) (new_collector (xp_collect plan) m) evs)"
      by (intro exec_channel_run) (simp_all add: new_collector_def)
    then show ?thesis by (simp add: es_def r_def run_exec_def collect_stream_output_def Inr assms)
  qed
  then show ?thesis
    using settled_exec_run[of plan es _ others] by (auto simp: es_def split: option.split)
qed

definition sample_plan :: "(string, bool) exec_plan" where
  "sample_plan = \<lparr>xp_collect = plain_options [], xp_variants = [], xp_timeout = 10, xp_needs_password = False,
     xp_input = None\<rparr>"

theorem command_refines_collector_witness:
  "xr_settled (run_exec sample_plan [(None, ChannelOpened), (None, OnChannel (ChannelExit (Some 0) None)),
      (None, PendingRejected (GenericError ''lost''))]) =
    cl_settled (collect_stream_output (plain_options []) [ChannelExit (Some 0) None]) \<and>
   cl_settled (collect_stream_output (plain_options []) [ChannelExit (Some 0) None]) =
     Some (Inr \<lparr>er_code = 0, er_stderr = [], er_stdout = []\<rparr>)"
proof -
  have out: "cl_settled (collect_stream_output (plain_options []) [ChannelExit (Some 0) None]) =
     Some (Inr \<lparr>er_code = 0, er_stderr = [], er_stdout = []\<rparr>)" by code_simp
  have vs: "get_secret_variants (cx_secrets (xp_collect sample_plan)) = Inr (xp_variants sample_plan)"
    by code_simp
  show ?thesis
    using command_refines_collector[OF vs, of None "[ChannelExit (Some 0) None]" "[(None, PendingRejected (GenericError ''lost''))]"]
    by (simp add: out[unfolded sample_plan_def] sample_plan_def out)
qed


theorem timer_settles_command_witness:
  "xr_settled (run_exec sample_plan [(None, TimerFired), (None, ChannelOpened)]) =
     Some (Inl (timeout_error sample_plan)) \<and>
   0 < xr_closes (run_exec sample_plan [(None, TimerFired), (None, ChannelOpened)])"
proof -
  have "xr_settled (run_exec sample_plan []) = None"
    "xr_delivered (run_exec sample_plan [(None, TimerFired), (None, ChannelOpened)])"
    by (simp_all add: run_exec_def new_exec_run_def accept_channel_def Let_def close_active_def)
  then show ?thesis
    using timer_settles_command[of sample_plan "[]" None "[(None, ChannelOpened)]"] by (simp add: Let_def)
qed

end
