(* ===== verification/SudoSession.thy ===== *)
theory SudoSession
  imports ExecChannel SecretSink Environment
begin

text \<open>
  Privileged commands (\<^verbatim>\<open>ssh.ts\<close>): how a command is wrapped for \<^verbatim>\<open>sudo\<close>, how the session finds out
  whether it can use \<^verbatim>\<open>sudo\<close>, and the life of the cached password in the session and in the
  secret registry. One command on a channel (ExecChannel) and the prompt are the parameters
  \<open>host\<close>; calls run one after the other here, so a probe is never shared by two of them.
\<close>

subsection \<open>The wrapped command\<close>

datatype sudo_command_mode = SudoNone | SudoNoninteractive | SudoPassword

record sudo_command_result =
  sc_command :: string
  sc_mode :: sudo_command_mode
  sc_needs_password :: bool

fun build_env_pairs :: "(string \<times> string) list \<Rightarrow> string list" where
  "build_env_pairs [] = []"
| "build_env_pairs ((k, v) # env) = (k @ ''='' @ shell_quote v) # build_env_pairs env"

definition build_env_prefix :: "(string \<times> string) list option \<Rightarrow> string result" where
  "build_env_prefix environment =
     (case environment of
        None \<Rightarrow> Inr []
      | Some env \<Rightarrow>
          (case List.find (\<lambda>(k, v). \<not> identifier_pattern k) env of
             Some (k, v) \<Rightarrow> Inl (GenericError (''Invalid environment variable name: '' @ k))
           | None \<Rightarrow> Inr (join_with '' '' (build_env_pairs env) @ '' '')))"

definition sudo_input_unsupported_error :: exn where
  "sudo_input_unsupported_error = GenericError
     (''exec with input is not supported when sudo requires a password: ''
      @ ''configure passwordless sudo for the connecting user or remove the input payload'')"

definition sudo_command ::
  "ssh_config \<Rightarrow> ssh_session \<Rightarrow> string \<Rightarrow> string \<Rightarrow> bool \<Rightarrow> sudo_command_result result" where
  "sudo_command config session command assigns has_input =
     (if cf_user config = ''root''
      then Inr \<lparr>sc_command = assigns @ command, sc_mode = SudoNone, sc_needs_password = False\<rparr>
      else (let quoted = shell_quote (assigns @ command)
            in if ss_cached_password session \<noteq> None \<and> has_input
               then (if \<not> ss_passwordless_sudo session \<and> \<not> ss_credential_cache_primed session
                     then Inl sudo_input_unsupported_error
                     else Inr \<lparr>sc_command = ''sudo -n bash -c '' @ quoted, sc_mode = SudoNoninteractive,
                               sc_needs_password = False\<rparr>)
               else if ss_cached_password session \<noteq> None
               then Inr \<lparr>sc_command = ''SUDO_PROMPT='' @ [CHR 0x27, CHR 0x27] @ '' sudo -S bash -c '' @ quoted,
                         sc_mode = SudoPassword, sc_needs_password = True\<rparr>
               else Inr \<lparr>sc_command = ''sudo -n bash -c '' @ quoted, sc_mode = SudoNoninteractive,
                         sc_needs_password = False\<rparr>))"

definition contains_ignoring_case :: "string \<Rightarrow> string \<Rightarrow> bool" where
  "contains_ignoring_case text pattern = js_includes (to_lower text) pattern"

fun is_noninteractive_sudo_auth_error :: "exn \<Rightarrow> bool" where
  "is_noninteractive_sudo_auth_error (CommandErr message stdout stderr) =
     (contains_ignoring_case stderr ''sudo: a password is required'' \<or>
      contains_ignoring_case stderr ''sudo: a terminal is required'' \<or>
      contains_ignoring_case stderr ''sudo: no tty present'')"
| "is_noninteractive_sudo_auth_error _ = False"

definition invalidate_sudo_readiness :: "ssh_session \<Rightarrow> ssh_session" where
  "invalidate_sudo_readiness session =
     session\<lparr>ss_sudo_ready := False, ss_credential_cache_primed := False, ss_passwordless_sudo := False\<rparr>"

subsection \<open>The session, the registry and the host\<close>

record 'w sudo_state =
  su_session :: ssh_session
  su_sink :: secret_sink
  su_world :: 'w

text \<open>
  \<open>sh_run command stdin variants options\<close> is the promise of \<^verbatim>\<open>runPreparedExec\<close> or
  \<^verbatim>\<open>runRawExec\<close> for the command sent to the host.
\<close>

record 'w sudo_host =
  sh_run :: "string \<Rightarrow> stdin_op list \<Rightarrow> string list \<Rightarrow> exec_options \<Rightarrow> (exec_result, 'w) effect"
  sh_prompt :: "string \<Rightarrow> (string, 'w) effect"

definition on_session :: "(ssh_session \<Rightarrow> ssh_session) \<Rightarrow> 'w sudo_state \<Rightarrow> 'w sudo_state" where
  "on_session f s = s\<lparr>su_session := f (su_session s)\<rparr>"

definition lift_world :: "('a, 'w) effect \<Rightarrow> ('a, 'w sudo_state) effect" where
  "lift_world f s = (case f (su_world s) of (r, w) \<Rightarrow> (r, s\<lparr>su_world := w\<rparr>))"

definition build_secrets :: "string list \<Rightarrow> 'w sudo_state \<Rightarrow> string list" where
  "build_secrets extra s =
     (case ss_cached_password (su_session s) of None \<Rightarrow> [] | Some p \<Rightarrow> [p])
     @ get_registered_secrets (su_sink s) @ extra"

definition exec_prepared ::
  "'w sudo_host \<Rightarrow> ssh_config \<Rightarrow> string \<Rightarrow> exec_options \<Rightarrow> (exec_result, 'w sudo_state) effect" where
  "exec_prepared host config command options s =
     (if \<not> ss_client (su_session s) then (Inl (GenericError ''SSH not connected''), s)
      else (case build_env_prefix (eo_env options) of
              Inl e \<Rightarrow> (Inl e, s)
            | Inr assigns \<Rightarrow>
                (case sudo_command config (su_session s) command assigns (eo_input options \<noteq> None) of
                   Inl e \<Rightarrow> (Inl e, s)
                 | Inr sudo \<Rightarrow>
                     (case get_secret_variants (build_secrets (eo_secrets options) s) of
                        Inl e \<Rightarrow> (Inl e, s)
                      | Inr variants \<Rightarrow>
                          (case lift_world
                                  (sh_run host (sc_command sudo)
                                     (write_stream_input (sc_needs_password sudo)
                                        (ss_cached_password (su_session s)) (eo_input options))
                                     variants options) s of
                             (Inl e, s1) \<Rightarrow>
                               (Inl e,
                                if sc_mode sudo = SudoNoninteractive \<and> is_noninteractive_sudo_auth_error e
                                then on_session invalidate_sudo_readiness s1 else s1)
                           | (Inr r, s1) \<Rightarrow> (Inr r, s1))))))"

definition raw_options :: exec_options where
  "raw_options = exec_defaults\<lparr>eo_ignore_exit_code := True, eo_silent := True\<rparr>"

definition exec_raw :: "'w sudo_host \<Rightarrow> string \<Rightarrow> (exec_result, 'w sudo_state) effect" where
  "exec_raw host command s =
     (if \<not> ss_client (su_session s) then (Inl (GenericError ''SSH not connected''), s)
      else (case get_secret_variants (build_secrets [] s) of
              Inl e \<Rightarrow> (Inl e, s)
            | Inr variants \<Rightarrow> lift_world (sh_run host command [] variants raw_options) s))"

subsection \<open>The probe\<close>

definition ensure_sudo_installed :: "'w sudo_host \<Rightarrow> (unit, 'w sudo_state) effect" where
  "ensure_sudo_installed host s =
     and_then (exec_raw host ''command -v sudo'' s)
       (\<lambda>r s1. if er_code r \<noteq> 0 then (Inl (GenericError ''sudo is not installed on the remote host''), s1)
                else (Inr (), s1))"

definition has_passwordless_sudo :: "'w sudo_host \<Rightarrow> 'w sudo_state \<Rightarrow> bool \<times> 'w sudo_state" where
  "has_passwordless_sudo host s =
     (case exec_raw host ''sudo -n true'' s of
        (Inl e, s1) \<Rightarrow> (False, s1)
      | (Inr r, s1) \<Rightarrow>
          (if er_code r = 0 then (True, on_session (\<lambda>x. x\<lparr>ss_passwordless_sudo := True\<rparr>) s1)
           else (False, s1)))"

definition release_cached_password :: "'w sudo_state \<Rightarrow> 'w sudo_state" where
  "release_cached_password s =
     (case ss_cached_password (su_session s) of
        None \<Rightarrow> on_session clear_cached_password s
      | Some p \<Rightarrow> (on_session clear_cached_password s)\<lparr>su_sink := unregister_secret p (su_sink s)\<rparr>)"

definition string_of_exn :: "exn \<Rightarrow> string" where
  "string_of_exn e =
     (let name = exn_name e
      in if exn_message e = [] then name else name @ '': '' @ exn_message e)"

text \<open>\<^verbatim>\<open>withRegisteredSecrets([password], body)\<close> around the validating command.\<close>

definition validating_exec ::
  "'w sudo_host \<Rightarrow> ssh_config \<Rightarrow> string \<Rightarrow> (exec_result, 'w sudo_state) effect" where
  "validating_exec host config password s =
     (if js_includes password redacted
      then (Inl (GenericError ''Secret registrations must not contain the redaction placeholder''), s)
      else (let registered = filter (\<lambda>k. minimum_secret_length \<le> length k) [password]
            in case exec_prepared host config ''true'' (silent_exec\<lparr>eo_timeout := Some 10000\<rparr>)
                      (s\<lparr>su_sink := register_all registered (su_sink s)\<rparr>) of
                 (r, s1) \<Rightarrow>
                   (map_sum (\<lambda>e. mask_scoped_error e [password]) id r,
                    s1\<lparr>su_sink := fold unregister_secret registered (su_sink s1)\<rparr>)))"

definition rotate_registration :: "string option \<Rightarrow> string \<Rightarrow> secret_sink \<Rightarrow> secret_sink" where
  "rotate_registration previous password sink =
     (case previous of
        None \<Rightarrow> sink
      | Some p \<Rightarrow> (if p \<noteq> password then unregister_secret p sink else unregister_secret password sink))"

definition cache_and_validate_sudo_password ::
  "'w sudo_host \<Rightarrow> ssh_config \<Rightarrow> string \<Rightarrow> (unit, 'w sudo_state) effect" where
  "cache_and_validate_sudo_password host config password s =
     (if CHR 0x0A \<in> set password \<or> CHR 0x0D \<in> set password
      then (Inl (GenericError ''Sudo password must not contain newline characters''), s)
      else (let previous = ss_cached_password (su_session s);
                s1 = on_session (\<lambda>x. x\<lparr>ss_cached_password := Some password\<rparr>) s
            in case register_secret password (su_sink s1) of
                 (Inl e, sink) \<Rightarrow> (Inl e, s1\<lparr>su_sink := sink\<rparr>)
               | (Inr _, sink) \<Rightarrow>
                   (case validating_exec host config password
                           (s1\<lparr>su_sink := rotate_registration previous password sink\<rparr>) of
                      (Inr _, s2) \<Rightarrow>
                        (Inr (), on_session
                           (\<lambda>x. x\<lparr>ss_sudo_ready := True, ss_credential_cache_primed := True\<rparr>) s2)
                    | (Inl e, s2) \<Rightarrow>
                        (case mask_secrets (string_of_exn e) [password] of
                           Inl e' \<Rightarrow> (Inl e', s2)
                         | Inr masked \<Rightarrow>
                             (Inl (GenericError (''Sudo authentication failed: '' @ masked)),
                              release_cached_password s2)))))"

definition prompt_and_cache_sudo_password ::
  "'w sudo_host \<Rightarrow> ssh_config \<Rightarrow> (unit, 'w sudo_state) effect" where
  "prompt_and_cache_sudo_password host config s =
     and_then (lift_world (sh_prompt host (''[sudo] password for '' @ cf_user config @ ''@''
                 @ ss_host (su_session s) @ '': '')) s)
       (cache_and_validate_sudo_password host config)"

definition is_sudo_ready_without_probe :: "ssh_config \<Rightarrow> ssh_session \<Rightarrow> bool" where
  "is_sudo_ready_without_probe config session \<longleftrightarrow>
     cf_user config = ''root'' \<or> ss_cached_password session \<noteq> None"

definition set_sudo_ready :: "'w sudo_state \<Rightarrow> 'w sudo_state" where
  "set_sudo_ready = on_session (\<lambda>x. x\<lparr>ss_sudo_ready := True\<rparr>)"

definition probe_sudo :: "'w sudo_host \<Rightarrow> ssh_config \<Rightarrow> (unit, 'w sudo_state) effect" where
  "probe_sudo host config s =
     (if is_sudo_ready_without_probe config (su_session s) then (Inr (), set_sudo_ready s)
      else and_then (ensure_sudo_installed host s)
        (\<lambda>_ s1. case has_passwordless_sudo host s1 of
                    (True, s2) \<Rightarrow> (Inr (), set_sudo_ready s2)
                  | (False, s2) \<Rightarrow> prompt_and_cache_sudo_password host config s2))"

definition ensure_sudo_ready :: "'w sudo_host \<Rightarrow> ssh_config \<Rightarrow> (unit, 'w sudo_state) effect" where
  "ensure_sudo_ready host config s =
     (if cf_user config = ''root'' \<or> ss_sudo_ready (su_session s) then (Inr (), s)
      else if ss_cached_password (su_session s) \<noteq> None then (Inr (), set_sudo_ready s)
      else (case ss_sudo_probe_failed (su_session s) of
              Some e \<Rightarrow> (Inl e, s)
            | None \<Rightarrow>
                (case probe_sudo host config s of
                   (Inl e, s1) \<Rightarrow> (Inl e, on_session (\<lambda>x. x\<lparr>ss_sudo_probe_failed := Some e\<rparr>) s1)
                 | (Inr _, s1) \<Rightarrow> (Inr (), s1))))"

definition exec_command ::
  "'w sudo_host \<Rightarrow> ssh_config \<Rightarrow> string \<Rightarrow> exec_options \<Rightarrow> (exec_result, 'w sudo_state) effect" where
  "exec_command host config command options s =
     and_then (ensure_sudo_ready host config s) (\<lambda>_. exec_prepared host config command options)"

text \<open>The constructor, the loss of the transport and the end of the session.\<close>

definition open_session ::
  "string \<Rightarrow> int list \<Rightarrow> ssh_config \<Rightarrow> secret_sink \<Rightarrow> 'w \<Rightarrow> 'w sudo_state result" where
  "open_session hostname ports config sink w =
     (case new_ssh_session hostname ports config of
        Inl e \<Rightarrow> Inl e
      | Inr session \<Rightarrow>
          (case cf_sudo_password config of
             None \<Rightarrow> Inr \<lparr>su_session = session, su_sink = sink, su_world = w\<rparr>
           | Some p \<Rightarrow>
               (case register_secret p sink of
                  (Inl e, _) \<Rightarrow> Inl e
                | (Inr _, sink1) \<Rightarrow> Inr \<lparr>su_session = session, su_sink = sink1, su_world = w\<rparr>)))"

definition close_session :: "'w sudo_state \<Rightarrow> 'w sudo_state" where
  "close_session s = on_session disconnect_transport (release_cached_password s)"


subsection \<open>What the host's shell reads\<close>

lemma sh_lex_assignment:
  assumes "identifier_pattern k"
  shows "sh_lex ShPlain None (k @ ''='' @ shell_quote v @ '' '' @ rest) =
    map_option ((#) (k @ ''='' @ v)) (sh_lex ShPlain None rest)"
proof -
  have k: "list_all is_word k" "k \<noteq> []"
    using assms by (auto simp: identifier_pattern_def is_word_def split: list.splits)
  have "sh_lex ShPlain None (k @ ''='' @ shell_quote v @ '' '' @ rest) =
      sh_lex ShPlain (Some k) (''='' @ shell_quote v @ '' '' @ rest)"
    using sh_lex_words[OF k, of None] by (simp add: word_so_far_def)
  also have "\<dots> = sh_lex ShPlain (Some (k @ ''='')) (shell_quote v @ '' '' @ rest)"
    by (simp add: sh_blank_def sh_special_def word_so_far_def)
  also have "\<dots> = sh_lex ShPlain (Some (k @ ''='' @ v)) ('' '' @ rest)"
    using sh_lex_quote[of "Some (k @ ''='')" v "'' '' @ rest"] by (simp add: word_so_far_def)
  also have "\<dots> = map_option ((#) (k @ ''='' @ v)) (sh_lex ShPlain None rest)"
    by (cases "sh_lex ShPlain None rest") (simp_all add: sh_blank_def end_word_def)
  finally show ?thesis .
qed

definition assignments :: "(string \<times> string) list \<Rightarrow> string list" where
  "assignments env = map (\<lambda>(k, v). k @ ''='' @ v) env"

lemma sh_lex_blank: "sh_lex ShPlain None ('' '' @ rest) = sh_lex ShPlain None rest"
  by (cases "sh_lex ShPlain None rest") (simp_all add: sh_blank_def end_word_def)

lemma sh_lex_env:
  "list_all (\<lambda>(k, v). identifier_pattern k) env \<Longrightarrow>
   sh_lex ShPlain None (join_with '' '' (build_env_pairs env) @ '' '' @ rest) =
     map_option ((@) (assignments env)) (sh_lex ShPlain None rest)"
proof (induction env rule: build_env_pairs.induct)
  case 1
  then show ?case using sh_lex_blank by (cases "sh_lex ShPlain None rest") (auto simp: assignments_def)
next
  case (2 k v env)
  then have k: "identifier_pattern k" and env: "list_all (\<lambda>(k, v). identifier_pattern k) env" by simp_all
  have "sh_lex ShPlain None (join_with '' '' (build_env_pairs ((k, v) # env)) @ '' '' @ rest) =
      map_option ((#) (k @ ''='' @ v)) (map_option ((@) (assignments env)) (sh_lex ShPlain None rest))"
  proof (cases "build_env_pairs env")
    case Nil
    then have "env = []" by (cases env) auto
    then show ?thesis using sh_lex_assignment[OF k, of v rest]
      by (cases "sh_lex ShPlain None rest") (simp_all add: assignments_def)
  next
    case (Cons p ps)
    then have "join_with '' '' (build_env_pairs ((k, v) # env)) @ '' '' @ rest =
        k @ ''='' @ shell_quote v @ '' '' @ (join_with '' '' (build_env_pairs env) @ '' '' @ rest)" by simp
    then show ?thesis using sh_lex_assignment[OF k] 2(1)[OF env] by simp
  qed
  then show ?case by (cases "sh_lex ShPlain None rest") (simp_all add: assignments_def)
qed

lemma env_prefix_lex:
  assumes "build_env_prefix environment = Inr assigns"
  shows "sh_lex ShPlain None (assigns @ command) =
    map_option ((@) (case environment of None \<Rightarrow> [] | Some env \<Rightarrow> assignments env)) (sh_lex ShPlain None command)"
proof (cases environment)
  case None
  then show ?thesis using assms by (cases "sh_lex ShPlain None command") (auto simp: build_env_prefix_def)
next
  case (Some env)
  then have "list_all (\<lambda>(k, v). identifier_pattern k) env"
    and p: "assigns = join_with '' '' (build_env_pairs env) @ '' ''"
    using assms by (auto simp: build_env_prefix_def list_all_iff find_None_iff split: option.splits)
  then show ?thesis using sh_lex_env[of env command] Some by simp
qed

lemma sudo_words:
  "sh_lex ShPlain None (''sudo -n bash -c '' @ shell_quote payload) = Some [''sudo'', ''-n'', ''bash'', ''-c'', payload]"
  "sh_lex ShPlain None (''SUDO_PROMPT='' @ [CHR 0x27, CHR 0x27] @ '' sudo -S bash -c '' @ shell_quote payload) =
     Some [''SUDO_PROMPT='', ''sudo'', ''-S'', ''bash'', ''-c'', payload]"
  using sh_lex_quote[of None payload "[]"]
  by (simp_all add: sh_blank_def sh_special_def word_so_far_def end_word_def)

text \<open>
  C12: a privileged command cannot escape its wrapping. For a user that is not root the host's
  shell reads exactly \<^verbatim>\<open>sudo\<close> with its options, \<^verbatim>\<open>bash -c\<close> and one argument, whatever the command
  and the environment contain; that argument is the command after its assignments, each of
  them one word that only sets its own variable. An input payload is never sent to a \<^verbatim>\<open>sudo\<close> that
  reads a password: either the payload is the whole standard input of a \<^verbatim>\<open>sudo -n\<close>, or the
  password and its newline are that of a \<^verbatim>\<open>sudo -S\<close> without payload.
\<close>

theorem sudo_command_is_contained:
  assumes "build_env_prefix environment = Inr assigns"
    and "sudo_command config session command assigns (input \<noteq> None) = Inr sudo"
    and "cf_user config \<noteq> ''root''"
  shows "(let stdin = write_stream_input (sc_needs_password sudo) (ss_cached_password session) input in
    (case (ss_cached_password session, input) of
       (Some password, None) \<Rightarrow>
         sh_lex ShPlain None (sc_command sudo) =
           Some [''SUDO_PROMPT='', ''sudo'', ''-S'', ''bash'', ''-c'', assigns @ command] \<and>
         stdin = [StdinWrite password, StdinWrite [newline], StdinEnd None]
     | (_, Some payload) \<Rightarrow>
         sh_lex ShPlain None (sc_command sudo) = Some [''sudo'', ''-n'', ''bash'', ''-c'', assigns @ command] \<and>
         stdin = [StdinEnd (Some payload)]
     | (None, None) \<Rightarrow>
         sh_lex ShPlain None (sc_command sudo) = Some [''sudo'', ''-n'', ''bash'', ''-c'', assigns @ command] \<and>
         stdin = [])) \<and>
    sh_lex ShPlain None (assigns @ command) =
      map_option ((@) (case environment of None \<Rightarrow> [] | Some env \<Rightarrow> assignments env)) (sh_lex ShPlain None command)"
  using assms(2,3) env_prefix_lex[OF assms(1)] sudo_words(1) sudo_words(2)[simplified]
  by (auto simp: sudo_command_def Let_def write_stream_input_def split: if_splits option.splits)


text \<open>A host that answers every command with one result, for the witnesses.\<close>

definition answering_host :: "exec_result result \<Rightarrow> string \<Rightarrow> unit sudo_host" where
  "answering_host answer password =
     \<lparr>sh_run = (\<lambda>_ _ _ _ w. (answer, w)), sh_prompt = (\<lambda>_ w. (Inr password, w))\<rparr>"

definition deploy_config :: "string option \<Rightarrow> ssh_config" where
  "deploy_config password =
     \<lparr>cf_user = ''deploy'', cf_private_key = None, cf_certificate = None, cf_password_fallback = False,
      cf_agent_forward = False, cf_reconnect_timeout = None, cf_max_reconnect_attempts = None,
      cf_sudo_password = password\<rparr>"

definition deploy_session :: "string option \<Rightarrow> ssh_session" where
  "deploy_session password =
     (case new_ssh_session ''web'' [22] (deploy_config password) of
        Inr s \<Rightarrow> register_connected_client 22 s
      | Inl e \<Rightarrow> \<lparr>ss_host = [], ss_ports = [], ss_client = False, ss_connected_port = 0,
                ss_auth_method = None, ss_agent_socket = None, ss_sudo_probe_failed = None,
                ss_sudo_ready = False, ss_credential_cache_primed = False,
                ss_passwordless_sudo = False, ss_cached_password = None, ss_last_failure = None\<rparr>)"

theorem sudo_command_is_contained_witness:
  "sh_lex ShPlain None (sc_command
     \<lparr>sc_command = ''SUDO_PROMPT='' @ [CHR 0x27, CHR 0x27] @ '' sudo -S bash -c '' @ shell_quote (''A='' @ shell_quote ''x;y'' @ '' id''),
      sc_mode = SudoPassword, sc_needs_password = True\<rparr>) =
     Some [''SUDO_PROMPT='', ''sudo'', ''-S'', ''bash'', ''-c'', (''A='' @ shell_quote ''x;y'' @ '' '') @ ''id'']"
proof -
  have env: "build_env_prefix (Some [(''A'', ''x;y'')]) = Inr (''A='' @ shell_quote ''x;y'' @ '' '')"
    by (simp add: build_env_prefix_def identifier_pattern_def char_class_defs)
  have cmd: "sudo_command (deploy_config (Some ''pw'')) (deploy_session (Some ''pw'')) ''id''
      (''A='' @ shell_quote ''x;y'' @ '' '') (None \<noteq> (None :: string option)) =
      Inr \<lparr>sc_command = ''SUDO_PROMPT='' @ [CHR 0x27, CHR 0x27] @ '' sudo -S bash -c '' @ shell_quote (''A='' @ shell_quote ''x;y'' @ '' id''),
      sc_mode = SudoPassword, sc_needs_password = True\<rparr>"
    by (simp add: sudo_command_def Let_def deploy_config_def deploy_session_def new_ssh_session_def
        register_connected_client_def)
  have "ss_cached_password (deploy_session (Some ''pw'')) = Some ''pw''"
    by (simp add: deploy_config_def deploy_session_def new_ssh_session_def register_connected_client_def)
  then show ?thesis using sudo_command_is_contained[OF env cmd] by (simp add: deploy_config_def Let_def)
qed

subsection \<open>The password and its registration\<close>

lemma on_session_simps [simp]:
  "su_session (on_session f s) = f (su_session s)" "su_sink (on_session f s) = su_sink s"
  "su_world (on_session f s) = su_world s"
  by (simp_all add: on_session_def)

text \<open>What running a command leaves alone.\<close>

definition keeps_password :: "'w sudo_state \<Rightarrow> 'w sudo_state \<Rightarrow> bool" where
  "keeps_password s s' \<longleftrightarrow> su_sink s' = su_sink s \<and>
     ss_cached_password (su_session s') = ss_cached_password (su_session s)"

lemma lift_world_keeps: "lift_world f s = (r, s') \<Longrightarrow> keeps_password s s' \<and> su_session s' = su_session s"
  by (auto simp: lift_world_def keeps_password_def split: prod.splits)

lemma exec_prepared_keeps: "exec_prepared host config c opts s = (r, s') \<Longrightarrow> keeps_password s s'"
  by (auto simp: exec_prepared_def keeps_password_def lift_world_def invalidate_sudo_readiness_def
      split: if_splits sum.splits prod.splits)

lemma exec_raw_keeps: "exec_raw host c s = (r, s') \<Longrightarrow> keeps_password s s' \<and> su_session s' = su_session s"
  by (auto simp: exec_raw_def dest: lift_world_keeps split: if_splits sum.splits)
    (simp_all add: keeps_password_def)

lemma has_passwordless_keeps:
  "has_passwordless_sudo host s = (b, s') \<Longrightarrow> keeps_password s s' \<and>
     ss_sudo_probe_failed (su_session s') = ss_sudo_probe_failed (su_session s)"
  by (auto simp: has_passwordless_sudo_def keeps_password_def dest!: exec_raw_keeps
      split: prod.splits sum.splits if_splits)

lemma ensure_installed_keeps: "ensure_sudo_installed host s = (r, s') \<Longrightarrow> keeps_password s s'"
  by (auto simp: ensure_sudo_installed_def and_then_def dest!: exec_raw_keeps
      split: prod.splits sum.splits if_splits)

text \<open>
  \<open>held\<close> is the registration the session owes for its cached password. A state is
  \<open>balanced\<close> over \<open>base\<close> when the registry has that on top of the registrations of others.
\<close>

definition held :: "'w sudo_state \<Rightarrow> string \<Rightarrow> nat" where
  "held s k = (if ss_cached_password (su_session s) = Some k \<and> long_secret k \<and> \<not> js_includes k redacted then 1 else 0)"

definition balanced :: "(string \<Rightarrow> nat) \<Rightarrow> 'w sudo_state \<Rightarrow> bool" where
  "balanced base s \<longleftrightarrow> sink_wf (su_sink s) \<and> (\<forall>k. sink_count (su_sink s) k = base k + held s k)"

lemma keeps_balanced: "keeps_password s s' \<Longrightarrow> balanced base s \<Longrightarrow> balanced base s'"
  by (simp add: keeps_password_def balanced_def held_def)

lemma balanced_session:
  "ss_cached_password (f (su_session s)) = ss_cached_password (su_session s) \<Longrightarrow>
   balanced base (on_session f s) = balanced base s"
  by (simp add: balanced_def held_def)

lemma sink_count_placeholder: "sink_wf s \<Longrightarrow> js_includes k redacted \<Longrightarrow> sink_count s k = 0"
  by (auto simp: sink_wf_def sink_count_def count_of_def split: option.split)

lemma balanced_release: "balanced base s \<Longrightarrow> balanced base (release_cached_password s)"
proof (cases "ss_cached_password (su_session s)")
  case None
  then show "balanced base s \<Longrightarrow> ?thesis"
    by (simp add: release_cached_password_def balanced_def held_def clear_cached_password_def)
next
  case (Some p)
  assume b: "balanced base s"
  have "sink_count (unregister_secret p (su_sink s)) k = base k" for k
    using b Some sink_count_placeholder[of "su_sink s" k]
    by (auto simp: balanced_def held_def sink_count_unregister)
  then show ?thesis using b Some sink_wf_unregister
    by (simp add: release_cached_password_def balanced_def held_def clear_cached_password_def)
qed

lemma release_clears: "ss_cached_password (su_session (release_cached_password s)) = None"
  by (simp add: release_cached_password_def clear_cached_password_def split: option.split)

lemma register_one: "\<not> js_includes p redacted \<Longrightarrow> fst (register_secret p s) = Inr ()"
  by (auto simp: register_secret_def assert_registrable_secret_def)

lemma validating_exec_sink:
  assumes "validating_exec host config p s = (r, s')" and "sink_wf (su_sink s)"
  shows "sink_wf (su_sink s') \<and> (\<forall>k. sink_count (su_sink s') k = sink_count (su_sink s) k) \<and>
    ss_cached_password (su_session s') = ss_cached_password (su_session s)"
proof (cases "js_includes p redacted")
  case True
  then show ?thesis using assms by (simp add: validating_exec_def)
next
  case ok: False
  define ks where "ks = filter (\<lambda>k. minimum_secret_length \<le> length k) [p]"
  obtain r1 s1 where e: "exec_prepared host config ''true'' (silent_exec\<lparr>eo_timeout := Some 10000\<rparr>)
      (s\<lparr>su_sink := register_all ks (su_sink s)\<rparr>) = (r1, s1)" by fastforce
  have s': "s' = s1\<lparr>su_sink := fold unregister_secret ks (su_sink s1)\<rparr>"
    using assms(1) ok e by (simp add: validating_exec_def ks_def Let_def)
  have s1: "su_sink s1 = register_all ks (su_sink s)"
    "ss_cached_password (su_session s1) = ss_cached_password (su_session s)"
    using exec_prepared_keeps[OF e] by (simp_all add: keeps_password_def)
  obtain k1 where k1: "register_secret p (su_sink s) = (Inr (), k1)"
    using register_one[OF ok, of "su_sink s"] by (cases "register_secret p (su_sink s)") auto
  show ?thesis
    using assms(2) s1 sink_wf_register[OF assms(2), of p] sink_count_register[OF k1]
    by (auto simp: s' ks_def register_all_def k1 sink_count_unregister sink_wf_unregister long_secret_def)
qed

lemma cache_and_validate_balanced:
  assumes c: "cache_and_validate_sudo_password host config p s = (r, s')" and b: "balanced base s"
    and none: "ss_cached_password (su_session s) = None"
  shows "balanced base s'"
proof -
  define s1 where "s1 = on_session (\<lambda>x. x\<lparr>ss_cached_password := Some p\<rparr>) s"
  consider (newline) "CHR 0x0A \<in> set p \<or> CHR 0x0D \<in> set p"
    | (refused) e k where "\<not> (CHR 0x0A \<in> set p \<or> CHR 0x0D \<in> set p)" "register_secret p (su_sink s1) = (Inl e, k)"
    | (registered) k where "\<not> (CHR 0x0A \<in> set p \<or> CHR 0x0D \<in> set p)" "register_secret p (su_sink s1) = (Inr (), k)"
    by (cases "register_secret p (su_sink s1)"; cases "fst (register_secret p (su_sink s1))") auto
  then show ?thesis
  proof cases
    case newline
    then show ?thesis using c b by (simp add: cache_and_validate_sudo_password_def)
  next
    case refused
    then have "js_includes p redacted" "k = su_sink s1"
      by (auto simp: register_secret_def assert_registrable_secret_def split: if_splits)
    moreover have "s' = s1\<lparr>su_sink := k\<rparr>"
      using c refused by (auto simp: cache_and_validate_sudo_password_def s1_def[symmetric] Let_def)
    ultimately show ?thesis using b none by (auto simp: balanced_def held_def s1_def)
  next
    case registered
    have ok: "\<not> (long_secret p \<and> js_includes p redacted)"
      using registered(2) by (auto simp: register_secret_def assert_registrable_secret_def long_secret_def split: if_splits)
    define s2 where "s2 = s1\<lparr>su_sink := k\<rparr>"
    have wf: "sink_wf k" using sink_wf_register[of "su_sink s1" p] registered(2) b by (simp add: s1_def balanced_def)
    have counts: "sink_count k k' = base k' + held s2 k'" for k'
      using sink_count_register[OF registered(2), of k'] b none ok
      by (auto simp: s2_def s1_def balanced_def held_def)
    obtain r3 s3 where v: "validating_exec host config p s2 = (r3, s3)" by fastforce
    have s3: "balanced base s3"
      using validating_exec_sink[OF v] wf counts by (simp add: balanced_def s2_def held_def)
    have "r = r \<and> s' = (case r3 of
        Inr _ \<Rightarrow> on_session (\<lambda>x. x\<lparr>ss_sudo_ready := True, ss_credential_cache_primed := True\<rparr>) s3
      | Inl e \<Rightarrow> (case mask_secrets (string_of_exn e) [p] of Inl _ \<Rightarrow> s3 | Inr _ \<Rightarrow> release_cached_password s3))"
      using c registered v none
      by (auto simp: cache_and_validate_sudo_password_def s1_def[symmetric] s2_def[symmetric] Let_def
          rotate_registration_def split: sum.splits)
    then show ?thesis using s3 balanced_release[OF s3] by (auto simp: balanced_session split: sum.split)
  qed
qed

lemma probe_sudo_balanced:
  assumes "probe_sudo host config s = (r, s')" and "balanced base s"
  shows "balanced base s'"
proof (cases "is_sudo_ready_without_probe config (su_session s)")
  case True
  then show ?thesis using assms by (auto simp: probe_sudo_def set_sudo_ready_def balanced_session)
next
  case False
  then have none: "ss_cached_password (su_session s) = None" by (simp add: is_sudo_ready_without_probe_def)
  obtain r1 s1 where i: "ensure_sudo_installed host s = (r1, s1)" by fastforce
  note k1 = ensure_installed_keeps[OF i]
  obtain b s2 where p: "has_passwordless_sudo host s1 = (b, s2)" by fastforce
  have k2: "keeps_password s1 s2" using has_passwordless_keeps[OF p] by simp
  obtain r3 s3 where q: "lift_world (sh_prompt host (''[sudo] password for '' @ cf_user config @ ''@''
      @ ss_host (su_session s2) @ '': '')) s2 = (r3, s3)" by fastforce
  have k3: "keeps_password s2 s3" using lift_world_keeps[OF q] by simp
  have none3: "ss_cached_password (su_session s3) = None" using none k1 k2 k3 by (simp add: keeps_password_def)
  have b: "balanced base s1" "balanced base s2" "balanced base s3"
    using keeps_balanced k1 k2 k3 assms(2) by blast+
  show ?thesis
  proof (cases r1)
    case (Inl e)
    then show ?thesis using assms(1) False i b by (simp add: probe_sudo_def)
  next
    case (Inr u)
    show ?thesis
    proof (cases b)
      case True
      then show ?thesis using assms(1) False i p Inr b by (auto simp: probe_sudo_def set_sudo_ready_def balanced_session)
    next
      case nb: False
      have "prompt_and_cache_sudo_password host config s2 = (r, s')"
        using assms(1) False i p Inr nb by (simp add: probe_sudo_def)
      then show ?thesis using q b none3 cache_and_validate_balanced[of host config _ s3 r s' base]
        by (auto simp: prompt_and_cache_sudo_password_def and_then_def split: sum.splits)
    qed
  qed
qed

lemma ensure_ready_balanced:
  "ensure_sudo_ready host config s = (r, s') \<Longrightarrow> balanced base s \<Longrightarrow> balanced base s'"
  by (auto simp: ensure_sudo_ready_def set_sudo_ready_def balanced_session dest: probe_sudo_balanced
      split: if_splits option.splits prod.splits sum.splits)

lemma exec_command_balanced:
  assumes "exec_command host config c opts s = (r, s')" and "balanced base s"
  shows "balanced base s'"
proof -
  obtain r1 s1 where e: "ensure_sudo_ready host config s = (r1, s1)" by fastforce
  have b: "balanced base s1" using ensure_ready_balanced[OF e assms(2)] .
  show ?thesis
  proof (cases r1)
    case (Inl x)
    then show ?thesis using assms(1) e b by (simp add: exec_command_def)
  next
    case (Inr x)
    then have "exec_prepared host config c opts s1 = (r, s')" using assms(1) e by (simp add: exec_command_def)
    then show ?thesis using exec_prepared_keeps keeps_balanced b by blast
  qed
qed


text \<open>
  The life of a session: opened with a registry, then any number of commands, probes, losses of
  the transport and new connections, until it is closed.
\<close>

inductive session_life ::
  "'w sudo_host \<Rightarrow> ssh_config \<Rightarrow> secret_sink \<Rightarrow> 'w sudo_state \<Rightarrow> bool"
  for host config sink where
  life_open: "open_session hostname ports config sink w = Inr s \<Longrightarrow> session_life host config sink s"
| life_exec: "session_life host config sink s \<Longrightarrow> exec_command host config c opts s = (r, s') \<Longrightarrow>
    session_life host config sink s'"
| life_probe: "session_life host config sink s \<Longrightarrow> probe_sudo host config s = (r, s') \<Longrightarrow>
    session_life host config sink s'"
| life_disconnect: "session_life host config sink s \<Longrightarrow>
    session_life host config sink (on_session disconnect_transport s)"
| life_connect: "session_life host config sink s \<Longrightarrow>
    session_life host config sink (on_session (register_connected_client port) s)"
| life_close: "session_life host config sink s \<Longrightarrow> session_life host config sink (close_session s)"

lemma open_session_balanced:
  assumes "open_session hostname ports config sink w = Inr s" and "sink_wf sink"
  shows "balanced (sink_count sink) s"
proof -
  obtain session where session: "new_ssh_session hostname ports config = Inr session"
    using assms(1) by (auto simp: open_session_def split: sum.splits)
  then have p: "ss_cached_password session = cf_sudo_password config"
    by (auto simp: new_ssh_session_def split: if_splits)
  show ?thesis
  proof (cases "cf_sudo_password config")
    case None
    then have "s = \<lparr>su_session = session, su_sink = sink, su_world = w\<rparr>"
      using assms(1) session by (simp add: open_session_def)
    then show ?thesis using assms(2) p None by (simp add: balanced_def held_def)
  next
    case (Some pw)
    obtain sink1 where r: "register_secret pw sink = (Inr (), sink1)"
      and s: "s = \<lparr>su_session = session, su_sink = sink1, su_world = w\<rparr>"
      using assms(1) session Some by (auto simp: open_session_def split: sum.splits prod.splits)
    have "\<not> (long_secret pw \<and> js_includes pw redacted)"
      using r by (auto simp: register_secret_def assert_registrable_secret_def long_secret_def split: if_splits)
    then show ?thesis
      using sink_count_register[OF r] sink_wf_register[OF assms(2), of pw] r s p Some
      by (auto simp: balanced_def held_def)
  qed
qed

lemma session_life_balanced:
  assumes "session_life host config sink s" and "sink_wf sink"
  shows "balanced (sink_count sink) s"
  using assms
proof (induction rule: session_life.induct)
  case (life_open hostname ports w s)
  then show ?case by (rule open_session_balanced)
next
  case (life_exec s c opts r s')
  then show ?case using exec_command_balanced by blast
next
  case (life_probe s r s')
  then show ?case using probe_sudo_balanced by blast
next
  case (life_close s)
  then show ?case by (simp add: close_session_def balanced_release balanced_session disconnect_transport_def
        reset_transport_derived_state_def)
qed (simp_all add: balanced_session disconnect_transport_def reset_transport_derived_state_def
    register_connected_client_def)

text \<open>
  C11: the sudo password is masked exactly as long as it is cached. In every state a session can
  reach the registry of secrets holds one registration for its cached password, if it is one
  that can be registered, on top of what others registered, whatever commands and probes
  succeeded or failed on the way; a closed session leaves the registry as it found it.
\<close>

theorem cached_password_is_registered:
  assumes "session_life host config sink s" and "sink_wf sink"
  shows "sink_count (su_sink s) k = sink_count sink k + held s k \<and>
    sink_count (su_sink (close_session s)) k = sink_count sink k"
proof -
  have "balanced (sink_count sink) s" "balanced (sink_count sink) (close_session s)"
    using assms session_life_balanced life_close by blast+
  moreover have "held (close_session s) k = 0"
    by (simp add: held_def close_session_def disconnect_transport_def reset_transport_derived_state_def release_clears)
  ultimately show ?thesis by (simp add: balanced_def)
qed

lemma empty_sink_wf: "sink_wf empty_sink"
  by (simp add: sink_wf_def empty_sink_def wf_object_def js_keys_def)

definition opened_session :: "unit sudo_state result" where
  "opened_session = open_session ''web'' [22] (deploy_config (Some ''hunter2hunter2'')) empty_sink ()"

theorem cached_password_is_registered_witness:
  "case opened_session of
     Inl e \<Rightarrow> False
   | Inr s \<Rightarrow> sink_count (su_sink s) ''hunter2hunter2'' = 1 \<and> sink_count (su_sink (close_session s)) ''hunter2hunter2'' = 0"
proof -
  have "case opened_session of Inl e \<Rightarrow> False | Inr s \<Rightarrow> ss_cached_password (su_session s) = Some ''hunter2hunter2''"
    by code_simp
  then obtain s where s: "opened_session = Inr s" "ss_cached_password (su_session s) = Some ''hunter2hunter2''"
    by (auto split: sum.splits)
  have life: "session_life (answering_host (Inl (GenericError ''down'')) []) (deploy_config (Some ''hunter2hunter2'')) empty_sink s"
    using s(1) unfolding opened_session_def by (rule life_open)
  have "held s ''hunter2hunter2'' = 1"
    by (simp add: held_def s(2) long_secret_def minimum_secret_length_def redacted_def starts_with_def)
  moreover have "sink_count empty_sink ''hunter2hunter2'' = 0" by (simp add: sink_count_def empty_sink_def)
  ultimately show ?thesis
    using cached_password_is_registered[OF life empty_sink_wf, of "''hunter2hunter2''"] unfolding s(1) by simp
qed

subsection \<open>A failed probe\<close>

lemma collect_variants_ok:
  "(\<And>s. s \<in> set secrets \<Longrightarrow> \<not> js_includes s redacted) \<Longrightarrow> \<exists>vs. collect_variants acc secrets = Inr vs"
  by (induction acc secrets rule: collect_variants.induct) (auto simp: Let_def)

lemma mask_secrets_ok: "\<not> js_includes p redacted \<Longrightarrow> \<exists>m. mask_secrets text [p] = Inr m"
  using collect_variants_ok[of "[p]" "[]"] by (auto simp: mask_secrets_def get_secret_variants_def)

lemma cache_failure_clears:
  assumes "cache_and_validate_sudo_password host config p s = (Inl e, s')" and "\<not> js_includes p redacted"
    and none: "ss_cached_password (su_session s) = None"
  shows "ss_cached_password (su_session s') = None"
proof (cases "CHR 0x0A \<in> set p \<or> CHR 0x0D \<in> set p")
  case True
  then show ?thesis using assms(1) none by (simp add: cache_and_validate_sudo_password_def)
next
  case False
  then show ?thesis
    using assms(1) register_one[OF assms(2), of "su_sink s"] mask_secrets_ok[OF assms(2)]
    by (auto simp: cache_and_validate_sudo_password_def Let_def release_clears split: prod.splits sum.splits)
      (metis sum.distinct(1))
qed


lemma exec_prepared_not_ready:
  "exec_prepared host config c opts s = (r, s') \<Longrightarrow> \<not> ss_sudo_ready (su_session s) \<Longrightarrow>
   \<not> ss_sudo_ready (su_session s')"
  by (auto simp: exec_prepared_def lift_world_def invalidate_sudo_readiness_def
      split: if_splits sum.splits prod.splits)

lemma validating_exec_not_ready:
  "validating_exec host config p s = (r, s') \<Longrightarrow> \<not> ss_sudo_ready (su_session s) \<Longrightarrow>
   \<not> ss_sudo_ready (su_session s')"
  by (auto simp: validating_exec_def Let_def dest!: exec_prepared_not_ready split: if_splits prod.splits)

lemma release_not_ready: "ss_sudo_ready (su_session (release_cached_password s)) = ss_sudo_ready (su_session s)"
  by (simp add: release_cached_password_def clear_cached_password_def split: option.split)

lemma cache_failure_not_ready:
  "cache_and_validate_sudo_password host config p s = (Inl e, s') \<Longrightarrow> \<not> ss_sudo_ready (su_session s) \<Longrightarrow>
   \<not> ss_sudo_ready (su_session s')"
  by (auto simp: cache_and_validate_sudo_password_def Let_def release_not_ready
      dest!: validating_exec_not_ready split: if_splits prod.splits sum.splits)

definition clean_prompt :: "'w sudo_host \<Rightarrow> bool" where
  "clean_prompt host \<longleftrightarrow> (\<forall>m w p w'. sh_prompt host m w = (Inr p, w') \<longrightarrow> \<not> js_includes p redacted)"

lemma probe_failure_clears:
  assumes "probe_sudo host config s = (Inl e, s')" and "clean_prompt host" and "\<not> ss_sudo_ready (su_session s)"
  shows "ss_cached_password (su_session s') = None \<and> \<not> ss_sudo_ready (su_session s')"
proof -
  have nr: "\<not> is_sudo_ready_without_probe config (su_session s)"
    using assms(1) by (auto simp: probe_sudo_def split: if_splits)
  then have none: "ss_cached_password (su_session s) = None" by (simp add: is_sudo_ready_without_probe_def)
  obtain r1 s1 where i: "ensure_sudo_installed host s = (r1, s1)" by fastforce
  have s1: "su_session s1 = su_session s"
    using i by (auto simp: ensure_sudo_installed_def and_then_def dest!: exec_raw_keeps
        split: prod.splits sum.splits if_splits)
  show ?thesis
  proof (cases r1)
    case (Inl x)
    then show ?thesis using assms(1,3) nr i s1 none by (auto simp: probe_sudo_def)
  next
    case (Inr x)
    obtain b s2 where p: "has_passwordless_sudo host s1 = (b, s2)" by fastforce
    have nb: "\<not> b" using assms(1) nr i Inr p by (auto simp: probe_sudo_def)
    have s2: "su_session s2 = su_session s"
      using p nb s1 by (auto simp: has_passwordless_sudo_def dest!: exec_raw_keeps split: prod.splits sum.splits if_splits)
    have q: "prompt_and_cache_sudo_password host config s2 = (Inl e, s')"
      using assms(1) nr i Inr p nb by (simp add: probe_sudo_def)
    obtain r3 s3 where l: "lift_world (sh_prompt host (''[sudo] password for '' @ cf_user config @ ''@''
      @ ss_host (su_session s2) @ '': '')) s2 = (r3, s3)" by fastforce
    have s3: "su_session s3 = su_session s" using lift_world_keeps[OF l] s2 by simp
    show ?thesis
    proof (cases r3)
      case (Inl y)
      then show ?thesis using q l s3 none assms(3) by (simp add: prompt_and_cache_sudo_password_def)
    next
      case (Inr pw)
      then have "\<not> js_includes pw redacted"
        using l assms(2) by (auto simp: lift_world_def clean_prompt_def split: prod.splits)
      moreover have "cache_and_validate_sudo_password host config pw s3 = (Inl e, s')"
        using q l Inr by (simp add: prompt_and_cache_sudo_password_def)
      ultimately show ?thesis
        using cache_failure_clears cache_failure_not_ready none s3 assms(3) by metis
    qed
  qed
qed

text \<open>
  C29: a failed probe is final. Once the session could not become ready for \<^verbatim>\<open>sudo\<close>, every further
  command fails at once with the same error: nothing runs on the host, nobody is asked for a
  password again and the state does not change, until the transport is reset.
\<close>

theorem failed_probe_is_final:
  assumes "ensure_sudo_ready host config s = (Inl e, s1)" and "clean_prompt host"
  shows "exec_command host config command opts s1 = (Inl e, s1)"
proof -
  have nr: "cf_user config \<noteq> ''root''" "\<not> ss_sudo_ready (su_session s)" "ss_cached_password (su_session s) = None"
    using assms(1) by (auto simp: ensure_sudo_ready_def split: if_splits)
  have "ss_sudo_probe_failed (su_session s1) = Some e \<and> ss_cached_password (su_session s1) = None \<and>
      \<not> ss_sudo_ready (su_session s1)"
  proof (cases "ss_sudo_probe_failed (su_session s)")
    case (Some x)
    then show ?thesis using assms(1) nr by (auto simp: ensure_sudo_ready_def)
  next
    case None
    obtain r2 s2 where p: "probe_sudo host config s = (r2, s2)" by fastforce
    then have "r2 = Inl e" "s1 = on_session (\<lambda>x. x\<lparr>ss_sudo_probe_failed := Some e\<rparr>) s2"
      using assms(1) nr None by (auto simp: ensure_sudo_ready_def split: sum.splits)
    then show ?thesis using probe_failure_clears[of host config s e s2] p assms(2) nr by simp
  qed
  then show ?thesis using nr by (simp add: exec_command_def ensure_sudo_ready_def)
qed

text \<open>A host with \<^verbatim>\<open>sudo\<close> that wants a password and accepts none.\<close>

definition refusing_host :: "string \<Rightarrow> nat sudo_host" where
  "refusing_host password =
     \<lparr>sh_run = (\<lambda>command _ _ _ w.
        (if command = ''command -v sudo'' then Inr \<lparr>er_code = 0, er_stderr = [], er_stdout = ''/usr/bin/sudo''\<rparr>
         else if command = ''sudo -n true'' then Inr \<lparr>er_code = 1, er_stderr = [], er_stdout = []\<rparr>
         else Inl (GenericError ''exit code 1''), w + 1)),
      sh_prompt = (\<lambda>_ w. (Inr password, w + 1))\<rparr>"

definition sudo_start_state :: "string option \<Rightarrow> nat sudo_state" where
  "sudo_start_state password = \<lparr>su_session = deploy_session password, su_sink = empty_sink, su_world = 0\<rparr>"

definition failed_state :: "string \<Rightarrow> nat sudo_state" where
  "failed_state password = snd (ensure_sudo_ready (refusing_host password) (deploy_config None) (sudo_start_state None))"

theorem failed_probe_is_final_witness:
  "exec_command (refusing_host ''wrong pass'') (deploy_config None) ''id'' exec_defaults (failed_state ''wrong pass'') =
     (Inl (GenericError ''Sudo authentication failed: Error: exit code 1''), failed_state ''wrong pass'') \<and>
   su_world (failed_state ''wrong pass'') = 4"
proof -
  have clean: "clean_prompt (refusing_host ''wrong pass'')"
    by (simp add: clean_prompt_def refusing_host_def redacted_def starts_with_def)
  have fails: "(case fst (ensure_sudo_ready (refusing_host ''wrong pass'') (deploy_config None) (sudo_start_state None)) of
      Inl (GenericError m) \<Rightarrow> m = ''Sudo authentication failed: Error: exit code 1'' | _ \<Rightarrow> False) \<and>
      su_world (failed_state ''wrong pass'') = 4"
    by code_simp
  then have "ensure_sudo_ready (refusing_host ''wrong pass'') (deploy_config None) (sudo_start_state None) =
      (Inl (GenericError ''Sudo authentication failed: Error: exit code 1''), failed_state ''wrong pass'')"
    unfolding failed_state_def
    by (cases "ensure_sudo_ready (refusing_host ''wrong pass'') (deploy_config None) (sudo_start_state None)")
      (auto split: sum.splits exn.splits)
  then show ?thesis using failed_probe_is_final[OF _ clean] fails by blast
qed

text \<open>
  A password that contains the placeholder is refused after it was cached: the command fails,
  but the password stays, never validated, and the next call takes the session for ready.
\<close>

lemma refused_password_stays_cached:
  "(case ensure_sudo_ready (refusing_host ''my[REDACTED]'') (deploy_config None) (sudo_start_state None) of
     (r, s1) \<Rightarrow> (case r of Inl _ \<Rightarrow> True | Inr _ \<Rightarrow> False) \<and> ss_cached_password (su_session s1) = Some ''my[REDACTED]'' \<and>
       fst (ensure_sudo_ready (refusing_host ''my[REDACTED]'') (deploy_config None) s1) = Inr ())"
  by code_simp

text \<open>
  The timestamp of \<^verbatim>\<open>sudo\<close> is primed only where a prompted password is validated. A session with
  a configured password, or after a reconnect, skips the probe, so it is never primed and
  every command with an input payload is refused without asking the host.
\<close>

lemma input_refused_without_priming:
  assumes "cf_user config \<noteq> ''root''" "ss_cached_password (su_session s) \<noteq> None"
    "\<not> ss_passwordless_sudo (su_session s)" "\<not> ss_credential_cache_primed (su_session s)"
    "ss_client (su_session s)" "eo_env opts = None" "eo_input opts \<noteq> None"
  shows "fst (exec_command host config command opts s) = Inl sudo_input_unsupported_error \<and>
    \<not> ss_credential_cache_primed (su_session (snd (exec_command host config command opts s))) \<and>
    su_world (snd (exec_command host config command opts s)) = su_world s"
  using assms by (auto simp: exec_command_def ensure_sudo_ready_def set_sudo_ready_def exec_prepared_def
      build_env_prefix_def sudo_command_def Let_def)

lemma configured_password_is_never_primed:
  "\<not> ss_credential_cache_primed (deploy_session (Some p)) \<or> CHR 0x0A \<in> set p \<or> CHR 0x0D \<in> set p"
  by (simp add: deploy_session_def new_ssh_session_def deploy_config_def register_connected_client_def)

end
