(* ===== verification/SessionChannels.thy ===== *)
theory SessionChannels
  imports SudoSession
begin

text \<open>
  The session channels of a connection (\<^verbatim>\<open>acquireSessionChannel\<close>, \<^verbatim>\<open>releaseSessionChannel\<close>,
  \<^verbatim>\<open>execPrepared\<close>, \<^verbatim>\<open>execRaw\<close>, \<^verbatim>\<open>createSettledCallbacks\<close>, \<^verbatim>\<open>disconnectTransport\<close>,
  \<^verbatim>\<open>registerConnectedClient\<close> of \<^verbatim>\<open>ssh.ts\<close>): any number of concurrent calls that wait for one of the
  four slots, run a command (ExecChannel) on the client that is current when they get it, and
  give the slot back. Calls are numbered in the order in which they arrive; what the event loop
  may do next is an event, and a run is a sequence of events in any order the code allows.
\<close>

subsection \<open>Calls\<close>

datatype session_call = PreparedCall string exec_options | RawCall string

text \<open>
  \<open>Waiting\<close>: the promise of the slot is not resolved. \<open>Granted\<close>: it is, and the continuation has
  not run yet. \<open>Running\<close>: the client, the mode, the plan and the run of the command; its
  reject is in \<^verbatim>\<open>pendingRejects\<close> as long as the run is not settled. \<open>Returned\<close>: after \<^verbatim>\<open>finally\<close>.
\<close>

datatype ('b, 'd) call_phase =
    Waiting
  | Granted
  | Running nat sudo_command_mode "('b, 'd) exec_plan" "'d exec_run"
  | Returned "exec_result result"

record ('b, 'd) channel_decoders =
  cd_lenient :: "('b, 'd) decoder"
  cd_strict :: "('b, 'd) decoder"

record ('b, 'd) channel_pool =
  cn_session :: ssh_session
  cn_sink :: secret_sink
  cn_client :: nat
  cn_active :: nat
  cn_waiters :: "nat list"
  cn_calls :: "(session_call \<times> ('b, 'd) call_phase) list"

definition set_phase :: "nat \<Rightarrow> ('b, 'd) call_phase \<Rightarrow> ('b, 'd) channel_pool \<Rightarrow> ('b, 'd) channel_pool" where
  "set_phase i p cn = cn\<lparr>cn_calls := (cn_calls cn)[i := (fst (cn_calls cn ! i), p)]\<rparr>"

definition phase_of :: "('b, 'd) channel_pool \<Rightarrow> nat \<Rightarrow> ('b, 'd) call_phase" where
  "phase_of cn i = snd (cn_calls cn ! i)"

definition acquire_session_channel :: "nat \<Rightarrow> ('b, 'd) channel_pool \<Rightarrow> bool \<times> ('b, 'd) channel_pool" where
  "acquire_session_channel i cn =
     (if cn_active cn < max_concurrent_session_channels \<and> cn_waiters cn = []
      then (True, cn\<lparr>cn_active := cn_active cn + 1\<rparr>)
      else (False, cn\<lparr>cn_waiters := cn_waiters cn @ [i]\<rparr>))"

definition release_session_channel :: "('b, 'd) channel_pool \<Rightarrow> ('b, 'd) channel_pool" where
  "release_session_channel cn =
     (case cn_waiters cn of
        next_call # waiters \<Rightarrow> set_phase next_call Granted (cn\<lparr>cn_waiters := waiters\<rparr>)
      | [] \<Rightarrow> cn\<lparr>cn_active := cn_active cn - 1\<rparr>)"

definition finish_call :: "nat \<Rightarrow> exec_result result \<Rightarrow> ('b, 'd) channel_pool \<Rightarrow> ('b, 'd) channel_pool" where
  "finish_call i r cn = release_session_channel (set_phase i (Returned r) cn)"

definition connection_secrets :: "string list \<Rightarrow> ('b, 'd) channel_pool \<Rightarrow> string list" where
  "connection_secrets extra cn =
     build_secrets extra \<lparr>su_session = cn_session cn, su_sink = cn_sink cn, su_world = ()\<rparr>"

definition plan_of ::
  "('b, 'd) channel_decoders \<Rightarrow> string \<Rightarrow> exec_options \<Rightarrow> bool \<Rightarrow> string list \<Rightarrow> string list \<Rightarrow> ('b, 'd) exec_plan"
where
  "plan_of dec command options needs_password secrets variants =
     \<lparr>xp_collect =
        \<lparr>cx_command = command, cx_secrets = secrets, cx_max = eo_max_output_bytes options,
         cx_silent = eo_silent options, cx_ignore_exit_code = eo_ignore_exit_code options,
         cx_stdout_decoder = (if eo_strict_utf8_stdout options then cd_strict dec else cd_lenient dec),
         cx_stderr_decoder = cd_lenient dec\<rparr>,
      xp_variants = variants,
      xp_timeout = (case eo_timeout options of None \<Rightarrow> command_timeout | Some t \<Rightarrow> t),
      xp_needs_password = needs_password, xp_input = eo_input options\<rparr>"

definition prepare_call ::
  "('b, 'd) channel_decoders \<Rightarrow> ssh_config \<Rightarrow> session_call \<Rightarrow> ('b, 'd) channel_pool \<Rightarrow> ('b, 'd) call_phase result"
where
  "prepare_call dec config call cn =
     (if \<not> ss_client (cn_session cn) then Inl (GenericError ''SSH not online'')
      else (case call of
              PreparedCall command options \<Rightarrow>
                (case build_env_prefix (eo_env options) of
                   Inl e \<Rightarrow> Inl e
                 | Inr assigns \<Rightarrow>
                     (case sudo_command config (cn_session cn) command assigns (eo_input options \<noteq> None) of
                        Inl e \<Rightarrow> Inl e
                      | Inr sudo \<Rightarrow>
                          (let secrets = connection_secrets (eo_secrets options) cn
                           in map_sum id (\<lambda>variants. Running (cn_client cn) (sc_mode sudo)
                                  (plan_of dec command options (sc_needs_password sudo) secrets variants) new_exec_run)
                                (get_secret_variants secrets))))
            | RawCall command \<Rightarrow>
                (let secrets = connection_secrets [] cn
                 in map_sum id (\<lambda>variants. Running (cn_client cn) SudoNone
                        (plan_of dec command raw_options False secrets variants) new_exec_run)
                      (get_secret_variants secrets))))"

text \<open>The continuation of a call that has its slot: it starts the command or leaves through \<^verbatim>\<open>finally\<close>.\<close>

definition start_call ::
  "('b, 'd) channel_decoders \<Rightarrow> ssh_config \<Rightarrow> nat \<Rightarrow> ('b, 'd) channel_pool \<Rightarrow> ('b, 'd) channel_pool"
where
  "start_call dec config i cn =
     (case prepare_call dec config (fst (cn_calls cn ! i)) cn of
        Inl e \<Rightarrow> finish_call i (Inl e) cn
      | Inr p \<Rightarrow> set_phase i p cn)"

definition call_arrives ::
  "('b, 'd) channel_decoders \<Rightarrow> ssh_config \<Rightarrow> session_call \<Rightarrow> ('b, 'd) channel_pool \<Rightarrow> ('b, 'd) channel_pool"
where
  "call_arrives dec config call cn =
     (let i = length (cn_calls cn);
          cn1 = cn\<lparr>cn_calls := cn_calls cn @ [(call, Waiting)]\<rparr>
      in case acquire_session_channel i cn1 of
           (True, cn2) \<Rightarrow> start_call dec config i cn2
         | (False, cn2) \<Rightarrow> cn2)"

text \<open>The rest of \<^verbatim>\<open>runPreparedExec\<close> and of the caller once the promise is settled.\<close>

definition call_settles :: "nat \<Rightarrow> sudo_command_mode \<Rightarrow> exec_result result \<Rightarrow> ('b, 'd) channel_pool \<Rightarrow> ('b, 'd) channel_pool" where
  "call_settles i mode r cn =
     (let cn1 = (case r of
                   Inl e \<Rightarrow> (if mode = SudoNoninteractive \<and> is_noninteractive_sudo_auth_error e
                            then cn\<lparr>cn_session := invalidate_sudo_readiness (cn_session cn)\<rparr> else cn)
                 | Inr _ \<Rightarrow> cn)
      in finish_call i r cn1)"

fun reject_pending_phase :: "exn \<Rightarrow> ('b, 'd) call_phase \<Rightarrow> ('b, 'd) call_phase" where
  "reject_pending_phase e (Running client mode plan r) =
     Running client mode plan (exec_step plan r (None, PendingRejected e :: 'b exec_event))"
| "reject_pending_phase e p = p"

definition reject_pending :: "exn \<Rightarrow> ('b, 'd) channel_pool \<Rightarrow> ('b, 'd) channel_pool" where
  "reject_pending e cn =
     cn\<lparr>cn_calls := map (\<lambda>(call, p). (call, reject_pending_phase e p)) (cn_calls cn)\<rparr>"

subsection \<open>The events of a connection\<close>

text \<open>
  A client is registered only by \<^verbatim>\<open>connect\<close>, which the program calls on a session without a
  client: at the start of a run and, after \<^verbatim>\<open>disconnectTransport\<close>, in \<^verbatim>\<open>reconnect\<close>.
\<close>

datatype 'b connection_event =
    CallArrives session_call
  | SlotGranted nat
  | ExecEvent nat "'b exec_event"
  | CallSettles nat
  | ConnectionLost exn
  | TransportDisconnected
  | ClientConnected int

fun from_outside :: "'b exec_event \<Rightarrow> bool" where
  "from_outside (PendingRejected e) = False"
| "from_outside _ = True"

fun connection_step ::
  "('b, 'd) channel_decoders \<Rightarrow> ssh_config \<Rightarrow> ('b, 'd) channel_pool \<Rightarrow> 'b connection_event \<Rightarrow> ('b, 'd) channel_pool option"
where
  "connection_step dec config cn (CallArrives call) = Some (call_arrives dec config call cn)"
| "connection_step dec config cn (SlotGranted i) =
     (if i < length (cn_calls cn)
      then (case phase_of cn i of Granted \<Rightarrow> Some (start_call dec config i cn) | _ \<Rightarrow> None) else None)"
| "connection_step dec config cn (ExecEvent i ev) =
     (if i < length (cn_calls cn) \<and> from_outside ev
      then (case phase_of cn i of
              Running client mode plan r \<Rightarrow>
                (if ev = TimerFired \<and> \<not> xr_timer r then None
                 else Some (set_phase i
                        (Running client mode plan (exec_step plan r (ss_cached_password (cn_session cn), ev))) cn))
            | _ \<Rightarrow> None)
      else None)"
| "connection_step dec config cn (CallSettles i) =
     (if i < length (cn_calls cn)
      then (case phase_of cn i of
              Running client mode plan r \<Rightarrow>
                (case xr_settled r of None \<Rightarrow> None | Some outcome \<Rightarrow> Some (call_settles i mode outcome cn))
            | _ \<Rightarrow> None)
      else None)"
| "connection_step dec config cn (ConnectionLost e) = Some (reject_pending e cn)"
| "connection_step dec config cn TransportDisconnected =
     Some (reject_pending (GenericError ''SSH connection closed'')
             (cn\<lparr>cn_session := disconnect_transport (cn_session cn)\<rparr>))"
| "connection_step dec config cn (ClientConnected port) =
     (if ss_client (cn_session cn) then None
      else Some (cn\<lparr>cn_session := register_connected_client port (cn_session cn), cn_client := cn_client cn + 1\<rparr>))"

inductive connection_reach ::
  "('b, 'd) channel_decoders \<Rightarrow> ssh_config \<Rightarrow> ('b, 'd) channel_pool \<Rightarrow> bool" for dec config where
  reach_idle: "connection_reach dec config \<lparr>cn_session = session, cn_sink = sink, cn_client = 0, cn_active = 0,
    cn_waiters = [], cn_calls = []\<rparr>"
| reach_step: "connection_reach dec config cn \<Longrightarrow> connection_step dec config cn e = Some cn' \<Longrightarrow>
    connection_reach dec config cn'"

subsection \<open>The invariant of the slots\<close>

fun has_slot :: "('b, 'd) call_phase \<Rightarrow> bool" where
  "has_slot Granted = True"
| "has_slot (Running _ _ _ _) = True"
| "has_slot _ = False"

definition phases :: "('b, 'd) channel_pool \<Rightarrow> ('b, 'd) call_phase list" where
  "phases cn = map snd (cn_calls cn)"

definition slots_taken :: "('b, 'd) channel_pool \<Rightarrow> nat" where
  "slots_taken cn = length (filter has_slot (phases cn))"

text \<open>
  The waiting calls are the ones that arrived last, in the order of their arrival; the counter
  is the number of calls with a slot, at most the limit, and all slots are taken while a call
  waits.
\<close>

definition slots_ok :: "('b, 'd) channel_pool \<Rightarrow> bool" where
  "slots_ok cn \<longleftrightarrow>
     (\<exists>n \<le> length (cn_calls cn). cn_waiters cn = [n..<length (cn_calls cn)] \<and>
        (\<forall>i < length (cn_calls cn). phase_of cn i = Waiting \<longleftrightarrow> n \<le> i)) \<and>
     cn_active cn = slots_taken cn \<and> cn_active cn \<le> max_concurrent_session_channels \<and>
     (cn_waiters cn \<noteq> [] \<longrightarrow> cn_active cn = max_concurrent_session_channels)"

lemma set_phase_simps [simp]:
  "cn_session (set_phase i p cn) = cn_session cn" "cn_sink (set_phase i p cn) = cn_sink cn"
  "cn_client (set_phase i p cn) = cn_client cn" "cn_active (set_phase i p cn) = cn_active cn"
  "cn_waiters (set_phase i p cn) = cn_waiters cn" "length (cn_calls (set_phase i p cn)) = length (cn_calls cn)"
  by (simp_all add: set_phase_def)

lemma phase_of_set [simp]:
  "i < length (cn_calls cn) \<Longrightarrow> phase_of (set_phase i p cn) j = (if i = j then p else phase_of cn j)"
  by (auto simp: set_phase_def phase_of_def)

lemma phases_set: "phases (set_phase i p cn) = (phases cn)[i := p]"
  by (simp add: phases_def set_phase_def map_update)

lemma filter_update_length:
  "i < length xs \<Longrightarrow> length (filter P (xs[i := x])) + (if P (xs ! i) then 1 else 0) =
     length (filter P xs) + (if P x then 1 else 0)"
proof (induction xs arbitrary: i)
  case (Cons y ys)
  show ?case
  proof (cases i)
    case (Suc k)
    then show ?thesis using Cons.IH[of k] Cons.prems by auto
  qed simp
qed simp

lemma slots_taken_set:
  assumes "i < length (cn_calls cn)"
  shows "slots_taken (set_phase i p cn) + (if has_slot (phase_of cn i) then 1 else 0) =
    slots_taken cn + (if has_slot p then 1 else 0)"
proof -
  have "phases cn ! i = phase_of cn i" "i < length (phases cn)"
    using assms by (simp_all add: phases_def phase_of_def)
  then show ?thesis using filter_update_length[of i "phases cn" has_slot p]
    by (simp only: slots_taken_def phases_set)
qed

lemma phase_of_fields [simp]:
  "phase_of (cn\<lparr>cn_waiters := ws\<rparr>) = phase_of cn" "phase_of (cn\<lparr>cn_active := a\<rparr>) = phase_of cn"
  "phase_of (cn\<lparr>cn_session := x\<rparr>) = phase_of cn" "phase_of (cn\<lparr>cn_client := c\<rparr>) = phase_of cn"
  "slots_taken (cn\<lparr>cn_waiters := ws\<rparr>) = slots_taken cn" "slots_taken (cn\<lparr>cn_active := a\<rparr>) = slots_taken cn"
  "slots_taken (cn\<lparr>cn_session := x\<rparr>) = slots_taken cn" "slots_taken (cn\<lparr>cn_client := c\<rparr>) = slots_taken cn"
  by (simp_all add: phase_of_def slots_taken_def phases_def fun_eq_iff)

text \<open>Exchanging a phase for another with a slot, or the state of the session, is no matter for the slots.\<close>

lemma slots_ok_set:
  assumes "slots_ok cn" "i < length (cn_calls cn)" "has_slot (phase_of cn i)" "has_slot p"
  shows "slots_ok (set_phase i p cn)"
proof -
  obtain n where n: "n \<le> length (cn_calls cn)" "cn_waiters cn = [n..<length (cn_calls cn)]"
    "\<forall>j < length (cn_calls cn). phase_of cn j = Waiting \<longleftrightarrow> n \<le> j"
    using assms(1) by (auto simp: slots_ok_def)
  have "i < n" using n(3) assms(2,3) by (metis has_slot.simps(3) not_le_imp_less)
  moreover have "p \<noteq> Waiting" using assms(4) by auto
  ultimately have "\<forall>j < length (cn_calls cn). phase_of (set_phase i p cn) j = Waiting \<longleftrightarrow> n \<le> j"
    using n(3) assms(2) by auto
  moreover have "slots_taken (set_phase i p cn) = slots_taken cn"
    using slots_taken_set[OF assms(2), of p] assms(3,4) by simp
  moreover have "cn_active cn = slots_taken cn" "cn_active cn \<le> max_concurrent_session_channels"
    "cn_waiters cn \<noteq> [] \<longrightarrow> cn_active cn = max_concurrent_session_channels"
    using assms(1) by (auto simp: slots_ok_def)
  ultimately show ?thesis using n(1,2) unfolding slots_ok_def
    by (intro conjI exI[of _ n]) simp_all
qed

lemma slots_ok_fields [simp]:
  "slots_ok (cn\<lparr>cn_session := x\<rparr>) = slots_ok cn" "slots_ok (cn\<lparr>cn_client := c\<rparr>) = slots_ok cn"
  by (simp_all add: slots_ok_def)

text \<open>A call leaves: its slot goes to the first call that waits, or is free.\<close>

lemma slots_ok_finish:
  assumes ok: "slots_ok cn" and i: "i < length (cn_calls cn)" and slot: "has_slot (phase_of cn i)"
  shows "slots_ok (finish_call i r cn)"
proof -
  obtain n where n: "n \<le> length (cn_calls cn)" "cn_waiters cn = [n..<length (cn_calls cn)]"
    and w: "\<forall>j < length (cn_calls cn). phase_of cn j = Waiting \<longleftrightarrow> n \<le> j"
    using ok by (auto simp: slots_ok_def)
  have act: "cn_active cn = slots_taken cn" "cn_active cn \<le> max_concurrent_session_channels"
    "cn_waiters cn \<noteq> [] \<longrightarrow> cn_active cn = max_concurrent_session_channels"
    using ok by (auto simp: slots_ok_def)
  define cn1 where "cn1 = set_phase i (Returned r) cn"
  have i_n: "i < n" using w i slot by (metis has_slot.simps(3) not_le_imp_less)
  have taken: "slots_taken cn1 + 1 = slots_taken cn"
    using slots_taken_set[OF i, of "Returned r"] slot by (simp add: cn1_def)
  show ?thesis
  proof (cases "n < length (cn_calls cn)")
    case True
    then have ws: "cn_waiters cn1 = n # [Suc n..<length (cn_calls cn)]" using n by (simp add: cn1_def upt_conv_Cons)
    define cn2 where "cn2 = cn1\<lparr>cn_waiters := [Suc n..<length (cn_calls cn)]\<rparr>"
    have fin: "finish_call i r cn = set_phase n Granted cn2"
      using ws by (simp add: finish_call_def release_session_channel_def cn1_def[symmetric] cn2_def)
    have l: "length (cn_calls cn2) = length (cn_calls cn)" by (simp add: cn2_def cn1_def)
    have w2: "phase_of cn2 n = Waiting" using w True i_n i by (simp add: cn2_def cn1_def)
    have "slots_taken (set_phase n Granted cn2) = slots_taken cn"
      using slots_taken_set[of n cn2 Granted] True w2 l taken by (simp add: cn2_def)
    moreover have "phase_of (set_phase n Granted cn2) j = Waiting \<longleftrightarrow> Suc n \<le> j" if "j < length (cn_calls cn)" for j
      using that True l w i_n i by (auto simp: cn2_def cn1_def)
    ultimately show ?thesis using act True n(2) unfolding fin slots_ok_def
      by (intro conjI exI[of _ "Suc n"]) (auto simp: l cn2_def cn1_def)
  next
    case False
    then have ws: "cn_waiters cn1 = []" using n by (simp add: cn1_def)
    then have fin: "finish_call i r cn = cn1\<lparr>cn_active := cn_active cn1 - 1\<rparr>"
      by (simp add: finish_call_def release_session_channel_def cn1_def[symmetric])
    have "phase_of cn1 j \<noteq> Waiting" if "j < length (cn_calls cn)" for j
      using that False n(1) w i by (auto simp: cn1_def)
    then show ?thesis using act taken ws i unfolding fin slots_ok_def
      by (intro conjI exI[of _ "length (cn_calls cn)"]) (auto simp: cn1_def)
  qed
qed


lemma map_sum_Inr: "map_sum f g x = Inr p \<longleftrightarrow> (\<exists>y. x = Inr y \<and> p = g y)"
  by (cases x) auto

lemma prepare_call_running:
  "prepare_call dec config call cn = Inr p \<Longrightarrow>
   ss_client (cn_session cn) \<and> (\<exists>mode plan. p = Running (cn_client cn) mode plan new_exec_run)"
  by (auto simp: prepare_call_def Let_def map_sum_Inr split: if_splits session_call.splits sum.splits)

lemma prepare_call_slot: "prepare_call dec config call cn = Inr p \<Longrightarrow> has_slot p"
  using prepare_call_running by fastforce

lemma slots_ok_start:
  assumes "slots_ok cn" "i < length (cn_calls cn)" "has_slot (phase_of cn i)"
  shows "slots_ok (start_call dec config i cn)"
proof (cases "prepare_call dec config (fst (cn_calls cn ! i)) cn")
  case (Inl e)
  then show ?thesis using slots_ok_finish[OF assms] by (simp add: start_call_def)
next
  case (Inr p)
  then show ?thesis using slots_ok_set[OF assms prepare_call_slot[OF Inr]] by (simp add: start_call_def)
qed

text \<open>
  The phase is \<open>Waiting\<close> for a moment when the slot was free; what runs next in the same step
  is the continuation, which only looks at its own call.
\<close>

lemma start_call_granted:
  assumes "i < length (cn_calls cn)"
  shows "start_call dec config i (set_phase i Granted cn) = start_call dec config i cn"
proof -
  have same: "prepare_call dec config call (set_phase i Granted cn) = prepare_call dec config call cn" for call
    unfolding prepare_call_def connection_secrets_def set_phase_simps by (rule refl)
  have set: "set_phase i p (set_phase i Granted cn) = set_phase i p cn" for p
    using assms by (simp add: set_phase_def)
  have "fst (cn_calls (set_phase i Granted cn) ! i) = fst (cn_calls cn ! i)"
    using assms by (simp add: set_phase_def)
  then show ?thesis using assms by (simp add: start_call_def same set finish_call_def split: sum.split)
qed

lemma slots_ok_arrives:
  assumes ok: "slots_ok cn"
  shows "slots_ok (call_arrives dec config call cn)"
proof -
  define i where "i = length (cn_calls cn)"
  define cn1 where "cn1 = cn\<lparr>cn_calls := cn_calls cn @ [(call, Waiting)]\<rparr>"
  obtain n where n: "n \<le> i" "cn_waiters cn = [n..<i]"
    "\<forall>j < i. phase_of cn j = Waiting \<longleftrightarrow> n \<le> j"
    using ok by (auto simp: slots_ok_def i_def)
  have act: "cn_active cn = slots_taken cn" "cn_active cn \<le> max_concurrent_session_channels"
    "cn_waiters cn \<noteq> [] \<longrightarrow> cn_active cn = max_concurrent_session_channels"
    using ok by (auto simp: slots_ok_def)
  have l: "length (cn_calls cn1) = Suc i" by (simp add: cn1_def i_def)
  have ph: "phase_of cn1 j = (if j = i then Waiting else phase_of cn j)" if "j < Suc i" for j
    using that by (auto simp: cn1_def phase_of_def nth_append i_def)
  have taken: "slots_taken cn1 = slots_taken cn" by (simp add: cn1_def slots_taken_def phases_def)
  show ?thesis
  proof (cases "cn_active cn < max_concurrent_session_channels \<and> cn_waiters cn = []")
    case True
    then have n_i: "n = i" using n(1,2) by (cases "n < i") auto
    define cn2 where "cn2 = cn1\<lparr>cn_active := cn_active cn + 1\<rparr>"
    have arr: "call_arrives dec config call cn = start_call dec config i cn2"
      using True by (simp add: call_arrives_def acquire_session_channel_def Let_def cn2_def cn1_def i_def)
    have l2: "length (cn_calls cn2) = Suc i" by (simp add: cn2_def l)
    define cn3 where "cn3 = set_phase i Granted cn2"
    have "slots_taken cn3 = slots_taken cn + 1"
      using slots_taken_set[of i cn2 Granted] l2 ph[of i] taken by (simp add: cn3_def cn2_def)
    moreover have "phase_of cn3 j = Waiting \<longleftrightarrow> Suc i \<le> j" if "j < Suc i" for j
      using that l2 ph[OF that] n(3) n_i by (auto simp: cn3_def cn2_def)
    ultimately have "slots_ok cn3"
      using True act n_i n unfolding slots_ok_def
      by (intro conjI exI[of _ "Suc i"]) (auto simp: cn3_def cn2_def cn1_def i_def)
    then show ?thesis
      using slots_ok_start[of cn3 i dec config] start_call_granted[of i cn2 dec config] l2
      unfolding arr cn3_def by simp
  next
    case False
    define cn2 where "cn2 = cn1\<lparr>cn_waiters := cn_waiters cn @ [i]\<rparr>"
    have arr: "call_arrives dec config call cn = cn2"
      using False by (auto simp: call_arrives_def acquire_session_channel_def Let_def cn2_def cn1_def i_def)
    have full: "cn_active cn = max_concurrent_session_channels" using False act by auto
    have "phase_of cn2 j = Waiting \<longleftrightarrow> n \<le> j" if "j < Suc i" for j
      using that ph[OF that] n(1,3) by (auto simp: cn2_def)
    then show ?thesis using act full taken n(1,2) unfolding arr slots_ok_def
      by (intro conjI exI[of _ n]) (auto simp: cn2_def cn1_def i_def)
  qed
qed

lemma slots_ok_reject:
  assumes ok: "slots_ok cn"
  shows "slots_ok (reject_pending e cn)"
proof -
  have slot: "has_slot (reject_pending_phase e p) = has_slot p" for p :: "('a, 'b) call_phase" by (cases p) auto
  have wait: "reject_pending_phase e p = Waiting \<longleftrightarrow> p = Waiting" for p :: "('a, 'b) call_phase" by (cases p) auto
  have ph: "phase_of (reject_pending e cn) i = reject_pending_phase e (phase_of cn i)" if "i < length (cn_calls cn)" for i
    using that by (simp add: phase_of_def reject_pending_def case_prod_beta)
  have l: "length (cn_calls (reject_pending e cn)) = length (cn_calls cn)" by (simp add: reject_pending_def)
  have "slots_taken (reject_pending e cn) = slots_taken cn"
    by (simp add: slots_taken_def phases_def reject_pending_def comp_def case_prod_beta filter_map slot)
  moreover have "cn_active (reject_pending e cn) = cn_active cn" "cn_waiters (reject_pending e cn) = cn_waiters cn"
    by (simp_all add: reject_pending_def)
  ultimately show ?thesis using ok ph wait by (auto simp: slots_ok_def l)
qed

lemma slots_ok_step:
  assumes "slots_ok cn" and "connection_step dec config cn e = Some cn'"
  shows "slots_ok cn'"
proof (cases e)
  case (CallArrives call)
  then show ?thesis using assms slots_ok_arrives by auto
next
  case (SlotGranted i)
  then show ?thesis using assms slots_ok_start[of cn i] by (auto split: if_splits call_phase.splits)
next
  case (ExecEvent i ev)
  then show ?thesis using assms slots_ok_set[of cn i] by (auto split: if_splits call_phase.splits)
next
  case (CallSettles i)
  then show ?thesis using assms slots_ok_finish[of cn i]
    slots_ok_finish[of "cn\<lparr>cn_session := invalidate_sudo_readiness (cn_session cn)\<rparr>" i]
    by (auto simp: call_settles_def Let_def split: if_splits call_phase.splits option.splits sum.splits)
next
  case TransportDisconnected
  then show ?thesis
    using assms slots_ok_reject[of "cn\<lparr>cn_session := disconnect_transport (cn_session cn)\<rparr>"] by auto
qed (use assms slots_ok_reject in \<open>auto split: if_splits\<close>)

lemma slots_ok_reach: "connection_reach dec config cn \<Longrightarrow> slots_ok cn"
proof (induction rule: connection_reach.induct)
  case (reach_idle session sink)
  then show ?case by (simp add: slots_ok_def slots_taken_def phases_def)
next
  case (reach_step cn e cn')
  then show ?case using slots_ok_step by blast
qed


subsection \<open>The invariant of the runs\<close>

text \<open>
  A command that is not settled has its timer and runs on the client the session has now.
\<close>

fun run_ok :: "nat \<Rightarrow> bool \<Rightarrow> ('b, 'd) call_phase \<Rightarrow> bool" where
  "run_ok client online (Running c mode plan r) =
     (exec_run_ok plan r \<and> (xr_settled r = None \<longrightarrow> c = client \<and> online))"
| "run_ok client online _ = True"

definition runs_ok :: "('b, 'd) channel_pool \<Rightarrow> bool" where
  "runs_ok cn \<longleftrightarrow> list_all (run_ok (cn_client cn) (ss_client (cn_session cn))) (phases cn)"

lemma list_all_update: "list_all P xs \<Longrightarrow> P x \<Longrightarrow> list_all P (xs[i := x])"
  by (auto simp: list_all_iff dest: set_update_subset_insert[THEN subsetD])

lemma runs_ok_set:
  "runs_ok cn \<Longrightarrow> run_ok (cn_client cn) (ss_client (cn_session cn)) p \<Longrightarrow> runs_ok (set_phase i p cn)"
  by (simp add: runs_ok_def phases_set list_all_update)

lemma runs_ok_finish: "runs_ok cn \<Longrightarrow> runs_ok (finish_call i r cn)"
proof -
  assume "runs_ok cn"
  then have ok: "runs_ok (set_phase i (Returned r) cn)" by (rule runs_ok_set) simp
  show ?thesis
  proof (cases "cn_waiters (set_phase i (Returned r) cn)")
    case Nil
    then show ?thesis using ok
      by (simp add: finish_call_def release_session_channel_def) (simp add: runs_ok_def phases_def)
  next
    case (Cons j js)
    have "runs_ok ((set_phase i (Returned r) cn)\<lparr>cn_waiters := js\<rparr>)"
      using ok by (simp add: runs_ok_def phases_def)
    then have "runs_ok (set_phase j Granted ((set_phase i (Returned r) cn)\<lparr>cn_waiters := js\<rparr>))"
      by (rule runs_ok_set) simp
    then show ?thesis using Cons unfolding finish_call_def release_session_channel_def by simp
  qed
qed

lemma new_run_ok: "exec_run_ok plan new_exec_run"
  by (simp add: exec_run_ok_def new_exec_run_def)

lemma runs_ok_start: "runs_ok cn \<Longrightarrow> runs_ok (start_call dec config i cn)"
  using prepare_call_running[of dec config "fst (cn_calls cn ! i)" cn]
  by (fastforce simp: start_call_def runs_ok_finish new_run_ok intro: runs_ok_set split: sum.split)

lemma runs_ok_arrives: "runs_ok cn \<Longrightarrow> runs_ok (call_arrives dec config call cn)"
  by (auto simp: call_arrives_def acquire_session_channel_def Let_def runs_ok_def phases_def
      intro!: runs_ok_start[unfolded runs_ok_def phases_def])

lemma reject_pending_run_ok:
  "run_ok client online p \<Longrightarrow> run_ok client' online' (reject_pending_phase e p)"
proof (cases p)
  case (Running c mode plan r)
  then show "run_ok client online p \<Longrightarrow> ?thesis"
    using exec_step_ok[of plan r "(None, PendingRejected e)"] by (auto split: option.splits)
qed simp_all

lemma runs_ok_reject:
  assumes "runs_ok cn" and "phases cn' = phases cn"
  shows "runs_ok (reject_pending e cn')"
proof -
  have "phases (reject_pending e cn') = map (reject_pending_phase e) (phases cn')"
    by (simp add: phases_def reject_pending_def comp_def case_prod_beta)
  then have "phases (reject_pending e cn') = map (reject_pending_phase e) (phases cn)"
    by (simp add: assms(2))
  then show ?thesis using assms(1) reject_pending_run_ok
    by (fastforce simp: runs_ok_def list_all_iff)
qed

lemma runs_ok_exec:
  assumes "runs_ok cn" "i < length (cn_calls cn)" "phase_of cn i = Running c mode plan r"
  shows "runs_ok (set_phase i (Running c mode plan (exec_step plan r ev)) cn)"
proof (rule runs_ok_set[OF assms(1)])
  have "run_ok (cn_client cn) (ss_client (cn_session cn)) (Running c mode plan r)"
    using assms by (metis length_map list_all_length phase_of_def phases_def nth_map runs_ok_def)
  then show "run_ok (cn_client cn) (ss_client (cn_session cn)) (Running c mode plan (exec_step plan r ev))"
    using exec_step_ok[of plan r ev] settled_exec_step[of r _ plan ev] by (cases "xr_settled r") auto
qed

lemma runs_ok_step:
  assumes "runs_ok cn" and "connection_step dec config cn e = Some cn'"
  shows "runs_ok cn'"
proof (cases e)
  case (CallArrives call)
  then show ?thesis using assms runs_ok_arrives by auto
next
  case (SlotGranted i)
  then show ?thesis using assms runs_ok_start by (auto split: if_splits call_phase.splits)
next
  case (ExecEvent i ev)
  then show ?thesis using assms runs_ok_exec by (auto split: if_splits call_phase.splits)
next
  case (CallSettles i)
  have "runs_ok (cn\<lparr>cn_session := invalidate_sudo_readiness (cn_session cn)\<rparr>)"
    using assms(1) by (simp add: runs_ok_def phases_def invalidate_sudo_readiness_def)
  then show ?thesis using assms CallSettles runs_ok_finish
    by (auto simp: call_settles_def Let_def split: if_splits call_phase.splits option.splits sum.splits)
next
  case (ConnectionLost x)
  then show ?thesis using assms runs_ok_reject[of cn cn] by auto
next
  case TransportDisconnected
  have "phases (cn\<lparr>cn_session := disconnect_transport (cn_session cn)\<rparr>) = phases cn" by (simp add: phases_def)
  then show ?thesis using assms TransportDisconnected runs_ok_reject by fastforce
next
  case (ClientConnected port)
  have "run_ok c False p \<Longrightarrow> run_ok c' b p" for c c' b and p :: "('a, 'b) call_phase" by (cases p) auto
  then have "list_all (run_ok (cn_client cn) False) (phases cn) \<Longrightarrow> list_all (run_ok (Suc (cn_client cn)) True) (phases cn)"
    by (metis list.pred_mono_strong)
  then show ?thesis using assms ClientConnected
    by (auto simp: runs_ok_def phases_def register_connected_client_def split: if_splits)
qed

lemma runs_ok_reach: "connection_reach dec config cn \<Longrightarrow> runs_ok cn"
proof (induction rule: connection_reach.induct)
  case (reach_step cn e cn')
  then show ?case using runs_ok_step by blast
qed (simp add: runs_ok_def phases_def)


subsection \<open>Progress\<close>

text \<open>
  The steps that the event loop owes: continuations that are ready and timers. \<open>debt\<close> is what a
  call still needs of them.
\<close>

fun owed :: "'b connection_event \<Rightarrow> bool" where
  "owed (SlotGranted i) = True"
| "owed (CallSettles i) = True"
| "owed (ExecEvent i TimerFired) = True"
| "owed _ = False"

fun debt :: "('b, 'd) call_phase \<Rightarrow> nat" where
  "debt Waiting = 5"
| "debt Granted = 4"
| "debt (Running c mode plan r) = (if xr_settled r = None then 2 else 1) + (if xr_timer r then 1 else 0)"
| "debt (Returned r) = 0"

definition total_debt :: "('b, 'd) channel_pool \<Rightarrow> nat" where
  "total_debt cn = sum_list (map debt (phases cn))"

lemma total_debt_set:
  assumes "i < length (cn_calls cn)"
  shows "total_debt (set_phase i p cn) + debt (phase_of cn i) = total_debt cn + debt p"
proof -
  have upd: "j < length xs \<Longrightarrow> sum_list (map debt (xs[j := x])) + debt (xs ! j) = sum_list (map debt xs) + debt x"
    for j and xs :: "('a, 'b) call_phase list" and x
  proof (induction xs arbitrary: j)
    case (Cons y ys)
    then show ?case by (cases j) (simp_all add: add.commute add.left_commute)
  qed simp
  have "phases cn ! i = phase_of cn i" "i < length (phases cn)"
    using assms by (simp_all add: phases_def phase_of_def)
  then show ?thesis using upd[of i "phases cn" p] by (simp only: total_debt_def phases_set)
qed

lemma total_debt_fields [simp]:
  "total_debt (cn\<lparr>cn_waiters := ws\<rparr>) = total_debt cn" "total_debt (cn\<lparr>cn_active := a\<rparr>) = total_debt cn"
  "total_debt (cn\<lparr>cn_session := x\<rparr>) = total_debt cn" "total_debt (cn\<lparr>cn_client := c\<rparr>) = total_debt cn"
  by (simp_all add: total_debt_def phases_def)

lemma total_debt_finish:
  assumes ok: "slots_ok cn" and i: "i < length (cn_calls cn)" and slot: "has_slot (phase_of cn i)"
  shows "total_debt (finish_call i r cn) < total_debt cn"
proof -
  define cn1 where "cn1 = set_phase i (Returned r) cn"
  have pos: "0 < debt (phase_of cn i)" using slot by (cases "phase_of cn i") auto
  have d1: "total_debt cn1 < total_debt cn"
    using total_debt_set[OF i, of "Returned r"] pos by (simp add: cn1_def)
  show ?thesis
  proof (cases "cn_waiters cn1")
    case Nil
    then have "finish_call i r cn = cn1\<lparr>cn_active := cn_active cn1 - 1\<rparr>"
      by (simp add: finish_call_def release_session_channel_def cn1_def[symmetric])
    then show ?thesis using d1 by simp
  next
    case (Cons j js)
    obtain n where n: "cn_waiters cn = [n..<length (cn_calls cn)]"
      "\<forall>k < length (cn_calls cn). phase_of cn k = Waiting \<longleftrightarrow> n \<le> k"
      using ok by (auto simp: slots_ok_def)
    have "n < length (cn_calls cn)" "j = n"
      using Cons n(1) by (auto simp: cn1_def upt_eq_Cons_conv)
    then have j: "j < length (cn_calls cn)" "phase_of cn j = Waiting" using n(2) by auto
    have "i \<noteq> j" using j slot by auto
    then have ph: "phase_of (cn1\<lparr>cn_waiters := js\<rparr>) j = Waiting" using j i by (simp add: cn1_def)
    have "finish_call i r cn = set_phase j Granted (cn1\<lparr>cn_waiters := js\<rparr>)"
      using Cons by (simp add: finish_call_def release_session_channel_def cn1_def[symmetric])
    moreover have "total_debt (set_phase j Granted (cn1\<lparr>cn_waiters := js\<rparr>)) + 5 = total_debt cn1 + 4"
      using total_debt_set[of j "cn1\<lparr>cn_waiters := js\<rparr>" Granted] ph j(1) by (simp add: cn1_def)
    ultimately show ?thesis using d1 by simp
  qed
qed

lemma total_debt_start:
  assumes ok: "slots_ok cn" and i: "i < length (cn_calls cn)" and "phase_of cn i = Granted"
  shows "total_debt (start_call dec config i cn) < total_debt cn"
proof (cases "prepare_call dec config (fst (cn_calls cn ! i)) cn")
  case (Inl e)
  then show ?thesis using total_debt_finish[OF ok i] assms(3) by (simp add: start_call_def)
next
  case (Inr p)
  then obtain c mode plan where "p = Running c mode plan new_exec_run" using prepare_call_running by blast
  then have "debt p = 3" by (simp add: new_exec_run_def)
  then show ?thesis using total_debt_set[OF i, of p] assms(3) Inr by (simp add: start_call_def)
qed

lemma owed_steps_pay:
  assumes ok: "slots_ok cn" "runs_ok cn" and step: "connection_step dec config cn e = Some cn'" and e: "owed e"
  shows "total_debt cn' < total_debt cn"
proof (cases e)
  case (SlotGranted i)
  then show ?thesis using step total_debt_start[OF ok(1)] by (auto split: if_splits call_phase.splits)
next
  case (CallSettles i)
  have ok': "slots_ok (cn\<lparr>cn_session := invalidate_sudo_readiness (cn_session cn)\<rparr>)" using ok(1) by simp
  show ?thesis using step CallSettles total_debt_finish[OF ok(1)] total_debt_finish[OF ok']
    by (fastforce simp: call_settles_def Let_def split: if_splits call_phase.splits option.splits sum.splits)
next
  case (ExecEvent i ev)
  then have ev: "ev = TimerFired" using e by (cases ev) auto
  then obtain c mode plan r where ph: "i < length (cn_calls cn)" "phase_of cn i = Running c mode plan r" "xr_timer r"
    and cn'0: "cn' = set_phase i (Running c mode plan (exec_step plan r (ss_cached_password (cn_session cn), TimerFired))) cn"
    using step ExecEvent by (auto split: if_splits call_phase.splits)
  define r1 where "r1 = exec_step plan r (ss_cached_password (cn_session cn), TimerFired)"
  have "debt (Running c mode plan r1) < debt (Running c mode plan r)"
    using ph(3) by (auto simp: r1_def split: option.splits)
  moreover have "cn' = set_phase i (Running c mode plan r1) cn" unfolding r1_def by (rule cn'0)
  ultimately show ?thesis using total_debt_set[OF ph(1), of "Running c mode plan r1"]
    unfolding ph(2) by (metis add_less_cancel_left add.commute)
qed (use e in auto)

lemma exec_step_debt:
  "debt (Running c mode plan (exec_step plan r ev)) \<le> debt (Running c mode plan r)"
proof -
  have timer: "xr_timer (exec_step plan r ev) \<Longrightarrow> xr_timer r"
    by (induction plan r ev rule: exec_step.induct)
      (auto simp: accept_channel_def Let_def split: if_splits option.splits sum.splits)
  show ?thesis using timer settled_exec_step[of r _ plan ev] by (cases "xr_settled r") auto
qed

lemma total_debt_reject: "total_debt (reject_pending e cn) \<le> total_debt cn"
proof -
  have "debt (reject_pending_phase e p) \<le> debt p" for p :: "('a, 'b) call_phase"
  proof (cases p)
    case (Running c mode plan r)
    then show ?thesis using exec_step_debt[of c mode plan r "(None, PendingRejected e)"] by simp
  qed simp_all
  then show ?thesis
    by (simp add: total_debt_def phases_def reject_pending_def comp_def case_prod_beta sum_list_mono)
qed

fun is_arrival :: "'b connection_event \<Rightarrow> bool" where
  "is_arrival (CallArrives call) = True"
| "is_arrival _ = False"

lemma other_steps_do_not_borrow:
  assumes ok: "slots_ok cn" "runs_ok cn" and step: "connection_step dec config cn e = Some cn'" and e: "\<not> is_arrival e"
  shows "total_debt cn' \<le> total_debt cn"
proof (cases "owed e")
  case True
  then show ?thesis using owed_steps_pay[OF ok step] by simp
next
  case False
  show ?thesis
  proof (cases e)
    case (ExecEvent i ev)
    then obtain c mode plan r where ph: "i < length (cn_calls cn)" "phase_of cn i = Running c mode plan r"
      and cn': "cn' = set_phase i (Running c mode plan (exec_step plan r (ss_cached_password (cn_session cn), ev))) cn"
      using step by (auto split: if_splits call_phase.splits)
    show ?thesis
      using total_debt_set[OF ph(1), of "Running c mode plan (exec_step plan r (ss_cached_password (cn_session cn), ev))"]
        exec_step_debt[of c mode plan r "(ss_cached_password (cn_session cn), ev)"] ph(2) cn' by simp
  next
    case TransportDisconnected
    then show ?thesis using step
      total_debt_reject[of _ "cn\<lparr>cn_session := disconnect_transport (cn_session cn)\<rparr>"] by auto
  next
    case (ClientConnected port)
    then show ?thesis using step by (auto simp: total_debt_def phases_def split: if_splits)
  qed (use step total_debt_reject False e in auto)
qed

lemma progress:
  assumes ok: "slots_ok cn" "runs_ok cn" and d: "0 < total_debt cn"
  shows "\<exists>e cn'. owed e \<and> connection_step dec config cn e = Some cn'"
proof -
  obtain i where i: "i < length (cn_calls cn)" "debt (phase_of cn i) \<noteq> 0"
  proof -
    have "\<exists>p \<in> set (phases cn). debt p \<noteq> 0"
    proof (rule ccontr)
      assume "\<not> ?thesis"
      then have "\<forall>n \<in> set (map debt (phases cn)). n = 0" by simp
      then have "total_debt cn = 0" unfolding total_debt_def sum_list_eq_0_iff .
      then show False using d by simp
    qed
    then show ?thesis using that by (auto simp: phases_def phase_of_def in_set_conv_nth)
  qed
  have slot: "\<exists>j < length (cn_calls cn). has_slot (phase_of cn j)"
  proof (cases "has_slot (phase_of cn i)")
    case True
    then show ?thesis using i by auto
  next
    case False
    then have "phase_of cn i = Waiting" using i by (cases "phase_of cn i") auto
    moreover obtain n where n: "cn_waiters cn = [n..<length (cn_calls cn)]"
      "\<forall>k < length (cn_calls cn). phase_of cn k = Waiting \<longleftrightarrow> n \<le> k"
      using ok(1) by (auto simp: slots_ok_def)
    ultimately have "i \<in> set (cn_waiters cn)" using i(1) by simp
    then have "cn_waiters cn \<noteq> []" by auto
    then have "slots_taken cn = max_concurrent_session_channels" using ok(1) by (auto simp: slots_ok_def)
    then have "filter has_slot (phases cn) \<noteq> []"
      by (auto simp: slots_taken_def max_concurrent_session_channels_def)
    then obtain p where p: "p \<in> set (phases cn)" "has_slot p" by (auto simp: filter_empty_conv)
    then obtain j where "j < length (phases cn)" "phases cn ! j = p" by (auto simp: in_set_conv_nth)
    then have "j < length (cn_calls cn)" "phase_of cn j = p" by (simp_all add: phases_def phase_of_def)
    then show ?thesis using p(2) by blast
  qed
  then obtain j where j: "j < length (cn_calls cn)" "has_slot (phase_of cn j)" by auto
  show ?thesis
  proof (cases "phase_of cn j")
    case Granted
    then show ?thesis using j by (intro exI[of _ "SlotGranted j"]) auto
  next
    case (Running c mode plan r)
    have rok: "run_ok (cn_client cn) (ss_client (cn_session cn)) (Running c mode plan r)"
      using ok(2) j Running by (metis length_map list_all_length phase_of_def phases_def nth_map runs_ok_def)
    show ?thesis
    proof (cases "xr_settled r")
      case None
      then have "xr_timer r" using rok by (simp add: exec_run_ok_def)
      then show ?thesis using j Running by (intro exI[of _ "ExecEvent j TimerFired"]) auto
    next
      case (Some x)
      then show ?thesis using j Running by (intro exI[of _ "CallSettles j"]) auto
    qed
  qed (use j in auto)
qed

fun run_connection ::
  "('b, 'd) channel_decoders \<Rightarrow> ssh_config \<Rightarrow> ('b, 'd) channel_pool \<Rightarrow> 'b connection_event list \<Rightarrow> ('b, 'd) channel_pool option"
where
  "run_connection dec config cn [] = Some cn"
| "run_connection dec config cn (e # es) =
     (case connection_step dec config cn e of None \<Rightarrow> None | Some cn' \<Rightarrow> run_connection dec config cn' es)"

lemma drains:
  assumes "slots_ok cn" "runs_ok cn"
  shows "\<exists>es cn'. list_all owed es \<and> length es \<le> total_debt cn \<and>
    run_connection dec config cn es = Some cn' \<and> total_debt cn' = 0"
  using assms
proof (induction "total_debt cn" arbitrary: cn rule: less_induct)
  case less
  show ?case
  proof (cases "total_debt cn = 0")
    case True
    then show ?thesis by (intro exI[of _ "[]"] exI[of _ cn]) simp
  next
    case False
    then obtain e cn1 where e: "owed e" "connection_step dec config cn e = Some cn1"
      using progress[OF less.prems] by blast
    have d: "total_debt cn1 < total_debt cn" using owed_steps_pay[OF less.prems e(2,1)] .
    obtain es cn' where "list_all owed es" "length es \<le> total_debt cn1"
      "run_connection dec config cn1 es = Some cn'" "total_debt cn' = 0"
      using less.hyps[OF d slots_ok_step[OF less.prems(1) e(2)] runs_ok_step[OF less.prems(2) e(2)]] by blast
    then show ?thesis using e d by (intro exI[of _ "e # es"] exI[of _ cn']) simp
  qed
qed

lemma total_debt_bound: "runs_ok cn \<Longrightarrow> total_debt cn \<le> 5 * length (cn_calls cn)"
proof -
  have "debt p \<le> 5" for p :: "('a, 'b) call_phase" by (cases p) auto
  then have "sum_list (map debt ps) \<le> 5 * length ps" for ps :: "('a, 'b) call_phase list"
  proof (induction ps)
    case (Cons p ps)
    then show ?case using add_mono[of "debt p" 5 "sum_list (map debt ps)" "5 * length ps"] by simp
  qed simp
  then show ?thesis by (metis length_map phases_def total_debt_def)
qed

lemma no_debt: "total_debt cn = 0 \<longleftrightarrow> list_all (\<lambda>p. \<exists>r. p = Returned r) (phases cn)"
proof -
  have zero: "debt p = 0 \<longleftrightarrow> (\<exists>r. p = Returned r)" for p :: "('a, 'b) call_phase" by (cases p) auto
  show ?thesis by (simp add: total_debt_def sum_list_eq_0_iff zero list_all_iff)
qed

subsection \<open>Properties\<close>

text \<open>
  C10: a connection never uses more than four channels and serves its calls in order. In every
  interleaving of calls, channels, timers, losses and reconnects the counter is the number of
  calls that have a slot, at most four; the calls that wait are the last ones that arrived, in
  the order of their arrival, so no call overtakes another; and a call only waits while all
  four slots are taken.
\<close>

theorem session_channels_bounded_and_fair:
  assumes "connection_reach dec config cn"
  shows "cn_active cn = length (filter has_slot (map snd (cn_calls cn))) \<and> cn_active cn \<le> 4 \<and>
    (\<exists>n \<le> length (cn_calls cn). cn_waiters cn = [n..<length (cn_calls cn)] \<and>
      (\<forall>i < length (cn_calls cn). snd (cn_calls cn ! i) = Waiting \<longleftrightarrow> n \<le> i)) \<and>
    (cn_waiters cn = [] \<or> cn_active cn = 4)"
  using slots_ok_reach[OF assms]
  by (auto simp: slots_ok_def slots_taken_def phases_def phase_of_def max_concurrent_session_channels_def)

text \<open>
  C13: no command runs on a dead client. A command that has no outcome yet was started on the
  client the session has now and has its timer, also after any number of disconnects and
  reconnects while it waited for a slot: a call takes the client when it gets the slot, and a
  disconnect settles every command of the old client.
\<close>

theorem commands_run_on_current_client:
  assumes "connection_reach dec config cn" and "(call, Running client mode plan r) \<in> set (cn_calls cn)"
    and "xr_settled r = None"
  shows "client = cn_client cn \<and> ss_client (cn_session cn) \<and> xr_timer r"
  using runs_ok_reach[OF assms(1)] assms(2,3)
  by (force simp: runs_ok_def phases_def list_all_iff exec_run_ok_def)

text \<open>
  C9: no call hangs. While a call has not returned, the event loop owes a step: a continuation
  that is ready or a timer that is set. Each of these steps brings the calls closer to their
  end, no other event but the arrival of a new call takes them away from it, and at most five
  of them per call lead to a state in which every call has returned.
\<close>

theorem no_call_hangs:
  assumes "connection_reach dec config cn"
  shows "(total_debt cn = 0 \<longleftrightarrow> list_all (\<lambda>(call, p). \<exists>r. p = Returned r) (cn_calls cn)) \<and>
    total_debt cn \<le> 5 * length (cn_calls cn) \<and>
    (0 < total_debt cn \<longrightarrow> (\<exists>e cn'. owed e \<and> connection_step dec config cn e = Some cn')) \<and>
    (\<forall>e cn'. connection_step dec config cn e = Some cn' \<longrightarrow>
       (if owed e then total_debt cn' < total_debt cn else is_arrival e \<or> total_debt cn' \<le> total_debt cn)) \<and>
    (\<exists>es cn'. list_all owed es \<and> length es \<le> total_debt cn \<and> run_connection dec config cn es = Some cn' \<and>
       total_debt cn' = 0)"
proof -
  have ok: "slots_ok cn" "runs_ok cn" using assms by (simp_all add: slots_ok_reach runs_ok_reach)
  have "total_debt cn = 0 \<longleftrightarrow> list_all (\<lambda>(call, p). \<exists>r. p = Returned r) (cn_calls cn)"
    using no_debt[of cn] by (simp add: phases_def list_all_iff case_prod_beta)
  moreover have "if owed e then total_debt cn' < total_debt cn else is_arrival e \<or> total_debt cn' \<le> total_debt cn"
    if "connection_step dec config cn e = Some cn'" for e cn'
    using owed_steps_pay[OF ok that] other_steps_do_not_borrow[OF ok that] by auto
  ultimately show ?thesis using total_debt_bound[OF ok(2)] progress[OF ok] drains[OF ok] by blast
qed


subsection \<open>A run for the witnesses\<close>

definition plain_decoders :: "(string, bool) channel_decoders" where
  "plain_decoders = \<lparr>cd_lenient = plain_decoder, cd_strict = plain_decoder\<rparr>"

definition idle_connection :: "(string, bool) channel_pool" where
  "idle_connection = \<lparr>cn_session = deploy_session None, cn_sink = empty_sink, cn_client = 0, cn_active = 0,
     cn_waiters = [], cn_calls = []\<rparr>"

definition busy_connection :: "(string, bool) channel_pool option" where
  "busy_connection = run_connection plain_decoders (deploy_config None) idle_connection
     (map CallArrives (replicate 6 (RawCall ''id'')) @
      [ExecEvent 0 (ExecRejected (GenericError ''refused'')), CallSettles 0, SlotGranted 4])"

lemma run_connection_reach:
  "connection_reach dec config cn \<Longrightarrow> run_connection dec config cn es = Some cn' \<Longrightarrow> connection_reach dec config cn'"
  by (induction es arbitrary: cn) (auto split: option.splits intro: reach_step)

lemma busy_reached: "busy_connection = Some cn \<Longrightarrow> connection_reach plain_decoders (deploy_config None) cn"
  unfolding busy_connection_def idle_connection_def by (rule run_connection_reach[OF reach_idle])

theorem session_channels_bounded_and_fair_witness:
  "case busy_connection of None \<Rightarrow> False | Some cn \<Rightarrow> cn_active cn = 4 \<and> cn_waiters cn = [5] \<and> length (cn_calls cn) = 6"
proof -
  have run: "case busy_connection of None \<Rightarrow> False | Some cn \<Rightarrow> cn_waiters cn = [5] \<and> length (cn_calls cn) = 6"
    by code_simp
  then obtain cn where cn: "busy_connection = Some cn" "cn_waiters cn = [5]" "length (cn_calls cn) = 6"
    by (auto split: option.splits)
  then have "cn_active cn = 4" using session_channels_bounded_and_fair[OF busy_reached[OF cn(1)]] by auto
  then show ?thesis using cn(2,3) unfolding cn(1) by simp
qed

fun running_client :: "('b, 'd) call_phase \<Rightarrow> nat option" where
  "running_client (Running client mode plan r) = (if xr_settled r = None then Some client else None)"
| "running_client p = None"

theorem commands_run_on_current_client_witness:
  "case busy_connection of None \<Rightarrow> False
   | Some cn \<Rightarrow> running_client (snd (cn_calls cn ! 4)) = Some 0 \<and> cn_client cn = 0"
proof -
  have run: "case busy_connection of None \<Rightarrow> False | Some cn \<Rightarrow> running_client (snd (cn_calls cn ! 4)) = Some 0 \<and>
      length (cn_calls cn) = 6"
    by code_simp
  then obtain cn where cn: "busy_connection = Some cn" "running_client (snd (cn_calls cn ! 4)) = Some 0"
    "length (cn_calls cn) = 6"
    by (auto split: option.splits)
  obtain call mode plan r where c: "cn_calls cn ! 4 = (call, Running 0 mode plan r)" "xr_settled r = None"
    using cn(2) by (cases "cn_calls cn ! 4"; cases "snd (cn_calls cn ! 4)") (auto split: if_splits)
  then have "(call, Running 0 mode plan r) \<in> set (cn_calls cn)"
    using nth_mem[of 4 "cn_calls cn"] cn(3) by simp
  then show ?thesis
    using commands_run_on_current_client[OF busy_reached[OF cn(1)] _ c(2)] cn(2) unfolding cn(1) by auto
qed

theorem no_call_hangs_witness:
  "case busy_connection of None \<Rightarrow> False
   | Some cn \<Rightarrow> total_debt cn = 17 \<and> (\<exists>es cn'. list_all owed es \<and> length es \<le> 17 \<and>
       run_connection plain_decoders (deploy_config None) cn es = Some cn' \<and> total_debt cn' = 0)"
proof -
  have run: "case busy_connection of None \<Rightarrow> False | Some cn \<Rightarrow> total_debt cn = 17"
    by code_simp
  then obtain cn where cn: "busy_connection = Some cn" "total_debt cn = 17"
    by (auto split: option.splits)
  then show ?thesis using no_call_hangs[OF busy_reached[OF cn(1)]] unfolding cn(1) by simp
qed

end
