(* ===== verification/Builtins.thy ===== *)
theory Builtins
  imports Runner Remote
begin

text \<open>
  The built-in modules (\<^verbatim>\<open>builtins.ts\<close>) and the guards of conditional blocks
  (\<^verbatim>\<open>conditionalGuards.ts\<close>, with the package queries of \<^verbatim>\<open>modules/package.ts\<close> they use). A
  guard asks the server through the connection's \<^verbatim>\<open>exec\<close>, which is the parameter \<open>exec\<close>.
\<close>

subsection \<open>Modules that direct a run\<close>

definition plain_core :: "string \<Rightarrow> 'w check_fn \<Rightarrow> 'w apply_fn \<Rightarrow> 'w module_core" where
  "plain_core name check_fn apply_fn =
     \<lparr>mc_name = name, mc_local = False, mc_dry_run_blocker = False, mc_dry_run_diff_producer = False,
      mc_dry_run_meta_producer = False, mc_supports_child_step_hook = False, mc_apply_dry_run = None,
      mc_prewarm_secrets = None, mc_check = check_fn, mc_apply = apply_fn\<rparr>"

definition always_needs_apply :: "'w check_fn" where
  "always_needs_apply conn env st = (Inr NeedsApply, st)"

definition assert_module :: "(environment \<Rightarrow> bool) \<Rightarrow> string \<Rightarrow> 'w module" where
  "assert_module condition message =
     LeafModule ((plain_core (''assert: '' @ message)
         (\<lambda>conn env st. (Inr (if condition env then CheckOk else NeedsApply), st))
         (\<lambda>conn env opts st.
            (Inr (if condition env then plain_result StOk else failed_result (''[assert] '' @ message)), st)))
       \<lparr>mc_dry_run_blocker := True\<rparr>)"

definition debug_module :: "string \<Rightarrow> 'w module" where
  "debug_module message =
     LeafModule (plain_core (''debug: '' @ message) always_needs_apply
       (\<lambda>conn env opts st. (Inr (plain_result StOk), emit (OutInfo (''  [debug] '' @ message)) st)))"

definition fail_module :: "string \<Rightarrow> 'w module" where
  "fail_module message =
     LeafModule ((plain_core (''fail: '' @ message) always_needs_apply
         (\<lambda>conn env opts st. (Inr (failed_result (''[fail] '' @ message)), st)))
       \<lparr>mc_dry_run_blocker := True\<rparr>)"

definition is_first_run_enabled :: "environment \<Rightarrow> bool" where
  "is_first_run_enabled env \<longleftrightarrow>
     map_of env ''PARATIX_FIRST_RUN'' = Some (EScalar (SStr ''true'')) \<or>
     map_of env ''FIRST_RUN'' = Some (EScalar (SBool True))"

definition first_run_stop_name :: "string option \<Rightarrow> string" where
  "first_run_stop_name message = (case message of None \<Rightarrow> ''firstRun.stop'' | Some m \<Rightarrow> ''firstRun.stop: '' @ m)"

definition first_run_stop :: "string option \<Rightarrow> 'w module" where
  "first_run_stop message =
     LeafModule ((plain_core (first_run_stop_name message)
         (\<lambda>conn env st. (Inr (if is_first_run_enabled env then NeedsApply else CheckOk), st))
         (\<lambda>conn env opts st.
            (Inr (if \<not> is_first_run_enabled env then plain_result StOk
                  else (plain_result StOk)\<lparr>mr_dry_run_detail := Some ''(first-run stop)'', mr_stop := True\<rparr>), st)))
       \<lparr>mc_dry_run_blocker := True, mc_local := True\<rparr>)"

definition signals_flush :: "string option \<Rightarrow> 'w module" where
  "signals_flush message =
     LeafModule ((plain_core (case message of None \<Rightarrow> ''signals.flush'' | Some m \<Rightarrow> ''signals.flush: '' @ m)
         always_needs_apply
         (\<lambda>conn env opts st.
            (Inr ((plain_result StOk)\<lparr>mr_dry_run_detail := Some ''(dry-run, pending signals not executed)'',
                                     mr_flush := True\<rparr>), st)))
       \<lparr>mc_dry_run_blocker := True, mc_local := True\<rparr>)"

subsection \<open>Waiting for the operator\<close>

datatype abort_reason = ReasonError exn | ReasonMissing | ReasonString string | ReasonOther

definition normalize_pause_abort_reason :: "abort_reason \<Rightarrow> exn" where
  "normalize_pause_abort_reason reason =
     (case reason of
        ReasonError e \<Rightarrow> e
      | ReasonMissing \<Rightarrow> GenericError ''pause aborted''
      | ReasonString s \<Rightarrow> GenericError s
      | ReasonOther \<Rightarrow> GenericError ''pause aborted'')"

text \<open>\<open>StdinError None\<close> is an error event whose value is not an error object.\<close>

datatype pause_event = StdinData string | StdinClosed | StdinError "exn option" | Aborted abort_reason

definition pause_step :: "unit result option \<Rightarrow> pause_event \<Rightarrow> unit result option" where
  "pause_step outcome ev =
     (case outcome of
        Some r \<Rightarrow> Some r
      | None \<Rightarrow>
          (case ev of
             StdinData input \<Rightarrow> (if CHR 0x0A \<notin> set input \<and> CHR 0x0D \<notin> set input then None else Some (Inr ()))
           | StdinClosed \<Rightarrow> Some (Inl (GenericError ''pause input closed before Enter''))
           | StdinError e \<Rightarrow> Some (Inl (case e of Some x \<Rightarrow> x | None \<Rightarrow> GenericError ''pause input error''))
           | Aborted reason \<Rightarrow> Some (Inl (normalize_pause_abort_reason reason))))"

definition wait_for_enter_or_abort :: "abort_reason option \<Rightarrow> pause_event list \<Rightarrow> unit result option" where
  "wait_for_enter_or_abort already_aborted events =
     foldl pause_step
       (case already_aborted of None \<Rightarrow> None | Some reason \<Rightarrow> Some (Inl (normalize_pause_abort_reason reason)))
       events"

definition pause_module :: "(unit, 'w run_state) effect \<Rightarrow> string option \<Rightarrow> 'w module" where
  "pause_module wait message =
     LeafModule (plain_core (case message of None \<Rightarrow> ''pause'' | Some m \<Rightarrow> ''pause: '' @ m) always_needs_apply
       (\<lambda>conn env opts st.
          and_then (wait (emit (OutInfo (''  [pause] '' @
                      (case message of None \<Rightarrow> ''Press enter to continue...'' | Some m \<Rightarrow> m) @ '' '')) st))
            (\<lambda>_ st1. (Inr (plain_result StOk), st1))))"

lemma wait_settles_once:
  "wait_for_enter_or_abort a es = Some r \<Longrightarrow> wait_for_enter_or_abort a (es @ es') = Some r"
proof (induction es' rule: rev_induct)
  case (snoc e es')
  have "wait_for_enter_or_abort a (es @ es' @ [e]) = pause_step (wait_for_enter_or_abort a (es @ es')) e"
    by (simp add: wait_for_enter_or_abort_def)
  then show ?case using snoc by (simp add: pause_step_def)
qed simp

subsection \<open>Guards\<close>

datatype test_flag = FlagD | FlagF | FlagL | FlagS

definition flag_text :: "test_flag \<Rightarrow> string" where
  "flag_text flag = (case flag of FlagD \<Rightarrow> ''-d'' | FlagF \<Rightarrow> ''-f'' | FlagL \<Rightarrow> ''-L'' | FlagS \<Rightarrow> ''-S'')"

definition filesystem_type_name :: "test_flag \<Rightarrow> string" where
  "filesystem_type_name flag =
     (case flag of FlagD \<Rightarrow> ''path'' | FlagF \<Rightarrow> ''file'' | FlagL \<Rightarrow> ''symlink'' | FlagS \<Rightarrow> ''socket'')"

definition create_conditional_module :: "nat \<Rightarrow> 'w guard \<Rightarrow> string \<Rightarrow> 'w module list \<Rightarrow> 'w module" where
  "create_conditional_module memo_id guard name modules =
     LeafModule ((plain_core name (conditional_check memo_id guard modules)
         (conditional_apply memo_id guard name modules))
       \<lparr>mc_apply_dry_run := Some (conditional_apply_dry_run memo_id guard name modules),
        mc_supports_child_step_hook := True\<rparr>)"

text \<open>A guard that asks the server is false without a connection.\<close>

definition remote_guard :: "bool \<Rightarrow> (bool, 'w run_state) effect \<Rightarrow> 'w guard" where
  "remote_guard invert ask conn env st =
     (case conn of
        NoConnection \<Rightarrow> (Inr False, st)
      | Connection \<Rightarrow> and_then (ask st) (\<lambda>found st1. (Inr (if invert then \<not> found else found), st1)))"

definition create_filesystem_guard ::
  "'w run_state remote \<Rightarrow> nat \<Rightarrow> test_flag \<Rightarrow> bool \<Rightarrow> string \<Rightarrow> 'w module list \<Rightarrow> 'w module" where
  "create_filesystem_guard exec memo_id flag invert path modules =
     create_conditional_module memo_id
       (remote_guard invert (remote_test exec (''test '' @ flag_text flag @ '' '' @ shell_quote path)))
       (''when.'' @ filesystem_type_name flag @ (if invert then ''Missing'' else ''Exists'') @ '': '' @ path) modules"

definition create_command_guard ::
  "'w run_state remote \<Rightarrow> nat \<Rightarrow> string \<Rightarrow> bool \<Rightarrow> 'w module list \<Rightarrow> 'w module" where
  "create_command_guard exec memo_id command_name invert modules =
     create_conditional_module memo_id
       (remote_guard invert (remote_test exec (''command -v '' @ shell_quote command_name @ '' >/dev/null 2>&1'')))
       (''when.command'' @ (if invert then ''Missing'' else ''Exists'') @ '': '' @ command_name) modules"

datatype package_manager = Apt | Dnf | Yum | Apk

text \<open>The cache of detected managers has one entry for the connection.\<close>

record 's pm_cache =
  pm_get :: "'s \<Rightarrow> package_manager option"
  pm_set :: "package_manager \<Rightarrow> 's \<Rightarrow> 's"

definition probe_package_manager_binary :: "'s remote \<Rightarrow> string \<Rightarrow> (bool, 's) effect" where
  "probe_package_manager_binary exec binary s =
     and_then (exec (''which '' @ binary) probe_exec s) (\<lambda>r s1. (Inr (er_code r = 0), s1))"

fun probe_managers :: "'s remote \<Rightarrow> (string \<times> package_manager) list \<Rightarrow> (package_manager option, 's) effect" where
  "probe_managers exec [] s = (Inr None, s)"
| "probe_managers exec ((binary, pm) # rest) s =
     and_then (probe_package_manager_binary exec binary s)
       (\<lambda>found s1. if found then (Inr (Some pm), s1) else probe_managers exec rest s1)"

definition detect_package_manager :: "'s pm_cache \<Rightarrow> 's remote \<Rightarrow> (package_manager option, 's) effect" where
  "detect_package_manager cache exec s =
     (case pm_get cache s of
        Some pm \<Rightarrow> (Inr (Some pm), s)
      | None \<Rightarrow>
          and_then (probe_managers exec [(''apt-get'', Apt), (''dnf'', Dnf), (''yum'', Yum), (''apk'', Apk)] s)
            (\<lambda>result s1. (Inr result, case result of None \<Rightarrow> s1 | Some pm \<Rightarrow> pm_set cache pm s1)))"

definition is_package_installed :: "'s remote \<Rightarrow> package_manager \<Rightarrow> string \<Rightarrow> (bool, 's) effect" where
  "is_package_installed exec pm package_name =
     remote_test exec
       (case pm of
          Apk \<Rightarrow> ''apk info -e '' @ shell_quote package_name
        | Apt \<Rightarrow> ''dpkg-query -W -f='' @ [CHR 0x27] @ ''${Status}'' @ [CHR 0x27] @ '' '' @ shell_quote package_name
                 @ '' 2>/dev/null | grep -q '' @ [CHR 0x27] @ ''install ok installed'' @ [CHR 0x27]
        | Dnf \<Rightarrow> ''rpm -q '' @ shell_quote package_name
        | Yum \<Rightarrow> ''rpm -q '' @ shell_quote package_name)"

definition package_guard :: "'w run_state pm_cache \<Rightarrow> 'w run_state remote \<Rightarrow> string \<Rightarrow> bool \<Rightarrow> 'w guard" where
  "package_guard cache exec package_name invert conn env st =
     (case conn of
        NoConnection \<Rightarrow> (Inr False, st)
      | Connection \<Rightarrow>
          and_then (detect_package_manager cache exec st)
            (\<lambda>pm st1. case pm of
                 None \<Rightarrow> (Inr False, st1)
               | Some m \<Rightarrow> and_then (is_package_installed exec m package_name st1)
                   (\<lambda>installed st2. (Inr (if invert then \<not> installed else installed), st2))))"

definition create_package_guard ::
  "'w run_state pm_cache \<Rightarrow> 'w run_state remote \<Rightarrow> nat \<Rightarrow> string \<Rightarrow> bool \<Rightarrow> 'w module list \<Rightarrow> 'w module" where
  "create_package_guard cache exec memo_id package_name invert modules =
     create_conditional_module memo_id (package_guard cache exec package_name invert)
       (''when.package'' @ (if invert then ''Absent'' else ''Installed'') @ '': '' @ package_name) modules"

definition when_module :: "nat \<Rightarrow> (environment \<Rightarrow> bool) \<Rightarrow> 'w module list \<Rightarrow> 'w module" where
  "when_module memo_id condition modules =
     create_conditional_module memo_id (\<lambda>conn env st. (Inr (condition env), st))
       (''when: conditional ('' @ show_nat (length modules) @ '' ''
          @ (if length modules = 1 then ''module'' else ''modules'') @ '')'') modules"

subsection \<open>Stage boundaries\<close>

lemmas control_module_defs =
  plain_core_def always_needs_apply_def plain_result_def no_options_def
  run_regular_module_def run_regular_body_def apply_checked_module_def apply_module_def
  execute_module_for_apply_def handle_meta_and_build_result_def settle_step_def
  should_execute_apply_during_dry_run_def should_break_after_result_def plain_step_result_def

lemma first_run_stop_step:
  assumes "received st = None"
  shows "module_step ctx (first_run_stop message) env st =
    (if is_first_run_enabled env
     then (\<lparr>sr_env = env, sr_flush = False, sr_break = True, sr_status = Some StOk, sr_stop = True\<rparr>,
           print_module_result (first_run_stop_name message) StOk
             (if rx_dry_run ctx then Some ''(first-run stop)'' else None) None
             (start_module_spinner (first_run_stop_name message) st))
     else (plain_step_result env False StOk,
           print_module_result (first_run_stop_name message) StOk None None
             (start_module_spinner (first_run_stop_name message) st)))"
  using assms by (simp add: first_run_stop_def control_module_defs)

lemma loop_state_eta: "\<lparr>ls_env = ls_env x, ls_pending = ls_pending x, ls_stop = ls_stop x\<rparr> = x"
  by simp

text \<open>
  \<^verbatim>\<open>firstRun.stop\<close> is the end of the first stage and nothing else. In a first run the loop
  ends there, whatever modules follow: they are not even checked, the run is marked as stopped,
  no failure is counted, and the server, the connection and the environment are left as they
  are. In every other run the module counts as one that is already fine and the loop goes on as
  if it were not there.
\<close>

theorem first_run_stop_is_boundary:
  assumes "received st = None"
  shows "(if is_first_run_enabled (ls_env state)
    then run_module_loop ctx signals (first_run_stop message # ms) state st =
         run_module_loop ctx signals [first_run_stop message] state st \<and>
       (case run_module_loop ctx signals (first_run_stop message # ms) state st of
          (state', st') \<Rightarrow> state' = state\<lparr>ls_stop := True\<rparr> \<and> stats st' = update_stats StOk (stats st) \<and>
            world st' = world st \<and> ssh st' = ssh st \<and> memos st' = memos st \<and>
            resolve_exit_code (received st') (stats st') = resolve_exit_code None (stats st))
    else run_module_loop ctx signals (first_run_stop message # ms) state st =
         run_module_loop ctx signals ms state
           (print_module_result (first_run_stop_name message) StOk None None
             (start_module_spinner (first_run_stop_name message) st)
              \<lparr>stats := update_stats StOk (stats st)\<rparr>))"
proof (cases "is_first_run_enabled (ls_env state)")
  case True
  then show ?thesis using assms
    by (auto simp: first_run_stop_step apply_loop_result_to_state_def flush_top_level_signals_if_requested_def
        should_flush_top_level_signals_def resolve_exit_code_def Let_def print_module_result_def
        start_module_spinner_def emit_def)
next
  case False
  then show ?thesis using assms
    by (auto simp: first_run_stop_step apply_loop_result_to_state_def flush_top_level_signals_if_requested_def
        should_flush_top_level_signals_def Let_def plain_step_result_def print_module_result_def
        start_module_spinner_def emit_def loop_state_eta)
qed


definition first_run_environment :: environment where
  "first_run_environment = [(''FIRST_RUN'', EScalar (SBool True))]"

theorem first_run_stop_is_boundary_witness:
  "ls_stop (fst (run_module_loop (sample_context False) None
      [first_run_stop None, fail_module ''never''] (initial_loop_state first_run_environment) (fresh_state (0 :: int)))) \<and>
   rs_failed (stats (snd (run_module_loop (sample_context False) None
      [first_run_stop None, fail_module ''never''] (initial_loop_state first_run_environment) (fresh_state (0 :: int))))) = 0"
proof -
  have start: "received (fresh_state (0 :: int)) = None"
    "rs_failed (stats (fresh_state (0 :: int))) = 0"
    by (simp_all add: fresh_state_def new_run_stats_def)
  have enabled: "is_first_run_enabled (ls_env (initial_loop_state first_run_environment))"
    by (simp add: is_first_run_enabled_def initial_loop_state_def first_run_environment_def)
  define r where "r = run_module_loop (sample_context False) None [first_run_stop None, fail_module ''never'']
    (initial_loop_state first_run_environment) (fresh_state (0 :: int))"
  have "fst r = (initial_loop_state first_run_environment)\<lparr>ls_stop := True\<rparr> \<and>
      stats (snd r) = update_stats StOk (stats (fresh_state (0 :: int)))"
    using first_run_stop_is_boundary[OF start(1), of "initial_loop_state first_run_environment" "sample_context False"
        None None "[fail_module ''never'']"] enabled
    unfolding r_def[symmetric] if_P[OF enabled] case_prod_beta by blast
  then show ?thesis unfolding r_def[symmetric] using start(2) by simp
qed

text \<open>\<^verbatim>\<open>signals.flush\<close> runs the pending signals at once; without any it only counts as fine.\<close>

lemma signals_flush_step:
  assumes "received st = None"
  shows "\<exists>st1. module_step ctx (signals_flush message) env st =
      (\<lparr>sr_env = env, sr_flush = True, sr_break = False, sr_status = Some StOk, sr_stop = False\<rparr>, st1) \<and>
    stats st1 = stats st \<and> received st1 = None \<and> world st1 = world st \<and> ssh st1 = ssh st"
  using assms by (simp add: signals_flush_def control_module_defs)

lemma signals_flush_runs_pending:
  assumes "received st = None" "rs_failed (stats st) = 0" "\<not> rx_dry_run ctx" "ls_pending state"
  shows "\<exists>st1. world st1 = world st \<and>
    run_module_loop ctx (Some sigs) (signals_flush message # ms) state st =
      (case run_signals ctx (ls_env state) sigs st1 of
         (status, st2) \<Rightarrow>
           (if status = SignalFailed then (state\<lparr>ls_pending := False\<rparr>, st2)
            else run_module_loop ctx (Some sigs) ms (state\<lparr>ls_pending := False\<rparr>) st2))"
proof -
  obtain st1 where st1: "module_step ctx (signals_flush message) (ls_env state) st =
      (\<lparr>sr_env = ls_env state, sr_flush = True, sr_break = False, sr_status = Some StOk, sr_stop = False\<rparr>, st1)"
    "stats st1 = stats st" "received st1 = None" "world st1 = world st"
    using signals_flush_step[OF assms(1), of ctx message "ls_env state"] by blast
  have eta: "\<lparr>ls_env = ls_env state, ls_pending = False, ls_stop = ls_stop state\<rparr> = state\<lparr>ls_pending := False\<rparr>"
    by simp
  show ?thesis
    using assms st1
    by (intro exI[of _ "st1\<lparr>stats := update_stats StOk (stats st1)\<rparr>"])
      (simp add: apply_loop_result_to_state_def flush_top_level_signals_if_requested_def
        should_flush_top_level_signals_def Let_def eta split: prod.split)
qed

end
