(* ===== verification/ServerDefinition.thy ===== *)
theory ServerDefinition
  imports KnownHosts HostLabel
begin

text \<open>
  The validation of a server definition (\<^verbatim>\<open>server.ts\<close>, \<^verbatim>\<open>serverDefinitionValidation.ts\<close>). A
  playbook is plain JavaScript, so the parts that are checked at run time are values of the
  language: \<open>JObject plain obj\<close> is an object with its own obj, \<open>plain\<close> when its prototype
  is that of object literals.
\<close>

subsection \<open>Values\<close>

datatype js_value =
    JUndefined
  | JNull
  | JBool bool
  | JNumber js_number
  | JString string
  | JFunction
  | JArray "js_value list"
  | JObject bool "(string \<times> js_value) list"






definition is_js_integer :: "js_value \<Rightarrow> bool" where
  "is_js_integer v = (case v of JNumber (Finite q) \<Rightarrow> of_int \<lfloor>q\<rfloor> = q | _ \<Rightarrow> False)"


subsection \<open>The obj of the connection\<close>



















subsection \<open>The definition\<close>







subsection \<open>Well-typed definitions\<close>























end
