(* ===== verification/LineDiff.thy ===== *)
theory LineDiff
  imports JsString "HOL-Library.Sublist"
begin

text \<open>
  The unified diff of the dry run (\<^verbatim>\<open>modules/diffHelpers.ts\<close>): the table of longest common
  subsequences, the walk back through it, the grouping of the changes into hunks with context,
  and the text that is printed. A diff is read back by the function \<open>apply_patch\<close>, which works
  as a patch program does: it trusts the line numbers of a hunk and checks its lines.
\<close>

subsection \<open>The line diff\<close>

datatype diff_operation = DiffContext | DiffDelete | DiffInsert

record diff_line =
  dl_operation :: diff_operation
  dl_text :: string

definition dline :: "diff_operation \<Rightarrow> string \<Rightarrow> diff_line" where
  "dline op txt = \<lparr>dl_operation = op, dl_text = txt\<rparr>"

definition default_context_lines :: int where "default_context_lines = 3"
definition max_diff_cells :: int where "max_diff_cells = 1000000"

definition normalize_line_endings :: "string \<Rightarrow> string" where
  "normalize_line_endings content = replace_all [carriage_return, newline] [newline] content"

definition split_lines :: "string \<Rightarrow> string list" where
  "split_lines content = (if content = [] then [] else split_on newline content)"

text \<open>
  One row of the table: \<open>prev\<close> is the row before it, \<open>left\<close> the cell just written.
\<close>

fun lcs_cells :: "string \<Rightarrow> string list \<Rightarrow> nat list \<Rightarrow> nat \<Rightarrow> nat list" where
  "lcs_cells x (y # ys) (diagonal # up # prev) left =
     (let v = (if x = y then diagonal + 1 else max up left) in v # lcs_cells x ys (up # prev) v)"
| "lcs_cells x _ _ left = []"

definition next_row :: "string list \<Rightarrow> string \<Rightarrow> nat list \<Rightarrow> nat list" where
  "next_row desired x prev = 0 # lcs_cells x desired prev 0"

fun lcs_rows :: "string list \<Rightarrow> string list \<Rightarrow> nat list \<Rightarrow> nat list list" where
  "lcs_rows [] desired row = [row]"
| "lcs_rows (x # current) desired row = row # lcs_rows current desired (next_row desired x row)"

definition build_lcs_table :: "string list \<Rightarrow> string list \<Rightarrow> nat list list" where
  "build_lcs_table current desired = lcs_rows current desired (replicate (length desired + 1) 0)"

record backtrack_step =
  bs_diff_line :: diff_line
  bs_next_col :: nat
  bs_next_row :: nat

definition next_backtrack_step ::
  "string list \<Rightarrow> string list \<Rightarrow> nat list list \<Rightarrow> nat \<Rightarrow> nat \<Rightarrow> backtrack_step" where
  "next_backtrack_step current desired table row col =
     (if 0 < row \<and> 0 < col \<and> current ! (row - 1) = desired ! (col - 1)
      then \<lparr>bs_diff_line = dline DiffContext (current ! (row - 1)), bs_next_col = col - 1, bs_next_row = row - 1\<rparr>
      else if 0 < col \<and> (row = 0 \<or> table ! row ! (col - 1) \<ge> table ! (row - 1) ! col)
      then \<lparr>bs_diff_line = dline DiffInsert (desired ! (col - 1)), bs_next_col = col - 1, bs_next_row = row\<rparr>
      else \<lparr>bs_diff_line = dline DiffDelete (current ! (row - 1)), bs_next_col = col, bs_next_row = row - 1\<rparr>)"

lemma backtrack_step_decreases:
  "\<not> (row = 0 \<and> col = 0) \<Longrightarrow>
   bs_next_row (next_backtrack_step current desired table row col)
     + bs_next_col (next_backtrack_step current desired table row col) < row + col"
  by (auto simp: next_backtrack_step_def)

function backtrack_loop :: "string list \<Rightarrow> string list \<Rightarrow> nat list list \<Rightarrow> nat \<Rightarrow> nat \<Rightarrow> diff_line list" where
  "backtrack_loop current desired table row col =
     (if row = 0 \<and> col = 0 then []
      else (let st = next_backtrack_step current desired table row col
            in bs_diff_line st # backtrack_loop current desired table (bs_next_row st) (bs_next_col st)))"
  by pat_completeness auto

termination
  by (relation "measure (\<lambda>(current, desired, table, row, col). row + col)")
     (simp_all add: backtrack_step_decreases)

declare backtrack_loop.simps [simp del]

definition backtrack_lcs :: "string list \<Rightarrow> string list \<Rightarrow> nat list list \<Rightarrow> diff_line list" where
  "backtrack_lcs current desired table =
     rev (backtrack_loop current desired table (length current) (length desired))"

definition build_fallback_line_diff :: "string list \<Rightarrow> string list \<Rightarrow> diff_line list" where
  "build_fallback_line_diff current desired = map (dline DiffDelete) current @ map (dline DiffInsert) desired"

definition compute_line_diff :: "string list \<Rightarrow> string list \<Rightarrow> diff_line list" where
  "compute_line_diff current desired =
     (if current = [] then map (dline DiffInsert) desired
      else if desired = [] then map (dline DiffDelete) current
      else if (int (length current) + 1) * (int (length desired) + 1) > max_diff_cells
      then build_fallback_line_diff current desired
      else backtrack_lcs current desired (build_lcs_table current desired))"

subsection \<open>Hunks\<close>

record diff_hunk =
  hk_current_start :: int
  hk_desired_start :: int
  hk_lines :: "diff_line list"

record hunk_builder =
  hb_active :: "diff_hunk option"
  hb_current_number :: int
  hb_desired_number :: int
  hb_hunks :: "diff_hunk list"
  hb_pending :: "diff_line list"
  hb_trailing :: int

definition new_hunk_builder :: hunk_builder where
  "new_hunk_builder = \<lparr>hb_active = None, hb_current_number = 1, hb_desired_number = 1, hb_hunks = [],
     hb_pending = [], hb_trailing = 0\<rparr>"

definition handle_change_line :: "int \<Rightarrow> diff_line \<Rightarrow> hunk_builder \<Rightarrow> hunk_builder" where
  "handle_change_line context_lines line b =
     (let hunk = (case hb_active b of
                    Some h \<Rightarrow> h
                  | None \<Rightarrow> \<lparr>hk_current_start = hb_current_number b - int (length (hb_pending b)),
                            hk_desired_start = hb_desired_number b - int (length (hb_pending b)),
                            hk_lines = hb_pending b\<rparr>);
          pending = (case hb_active b of Some _ \<Rightarrow> hb_pending b | None \<Rightarrow> []);
          b1 = b\<lparr>hb_active := Some (hunk\<lparr>hk_lines := hk_lines hunk @ [line]\<rparr>), hb_pending := pending,
                 hb_trailing := context_lines\<rparr>
      in if dl_operation line = DiffDelete then b1\<lparr>hb_current_number := hb_current_number b + 1\<rparr>
         else b1\<lparr>hb_desired_number := hb_desired_number b + 1\<rparr>)"

definition handle_context_line :: "int \<Rightarrow> diff_line \<Rightarrow> hunk_builder \<Rightarrow> hunk_builder" where
  "handle_context_line context_lines line b =
     (let b1 = (case hb_active b of
                  Some hunk \<Rightarrow>
                    (if hb_trailing b > 0
                     then (let hunk1 = hunk\<lparr>hk_lines := hk_lines hunk @ [line]\<rparr>
                           in if hb_trailing b - 1 = 0
                              then b\<lparr>hb_hunks := hb_hunks b @ [hunk1], hb_active := None, hb_trailing := 0\<rparr>
                              else b\<lparr>hb_active := Some hunk1, hb_trailing := hb_trailing b - 1\<rparr>)
                     else b\<lparr>hb_pending := (if int (length (hb_pending b @ [line])) > context_lines
                                           then tl (hb_pending b @ [line]) else hb_pending b @ [line])\<rparr>)
                | None \<Rightarrow> b\<lparr>hb_pending := (if int (length (hb_pending b @ [line])) > context_lines
                                           then tl (hb_pending b @ [line]) else hb_pending b @ [line])\<rparr>)
      in b1\<lparr>hb_current_number := hb_current_number b + 1, hb_desired_number := hb_desired_number b + 1\<rparr>)"

definition add_diff_line :: "int \<Rightarrow> diff_line \<Rightarrow> hunk_builder \<Rightarrow> hunk_builder" where
  "add_diff_line context_lines line b =
     (if dl_operation line = DiffContext then handle_context_line context_lines line b
      else handle_change_line context_lines line b)"

definition finish_hunks :: "hunk_builder \<Rightarrow> diff_hunk list" where
  "finish_hunks b = (case hb_active b of Some hunk \<Rightarrow> hb_hunks b @ [hunk] | None \<Rightarrow> hb_hunks b)"

definition build_hunks :: "int \<Rightarrow> diff_line list \<Rightarrow> diff_hunk list" where
  "build_hunks context_lines diff = finish_hunks (fold (add_diff_line context_lines) diff new_hunk_builder)"

subsection \<open>The text\<close>

definition old_lines :: "diff_line list \<Rightarrow> string list" where
  "old_lines diff = map dl_text (filter (\<lambda>l. dl_operation l \<noteq> DiffInsert) diff)"

definition new_lines :: "diff_line list \<Rightarrow> string list" where
  "new_lines diff = map dl_text (filter (\<lambda>l. dl_operation l \<noteq> DiffDelete) diff)"

text \<open>\<^verbatim>\<open>countHunkLines\<close>: context counts on both sides, a deletion on the old one.\<close>

fun count_hunk_lines :: "diff_line list \<Rightarrow> int \<times> int" where
  "count_hunk_lines [] = (0, 0)"
| "count_hunk_lines (l # ls) =
     (case count_hunk_lines ls of (cur, des) \<Rightarrow>
        (case dl_operation l of
           DiffContext \<Rightarrow> (cur + 1, des + 1) | DiffDelete \<Rightarrow> (cur + 1, des) | DiffInsert \<Rightarrow> (cur, des + 1)))"

definition render_diff_line :: "diff_line \<Rightarrow> string" where
  "render_diff_line l =
     (case dl_operation l of DiffContext \<Rightarrow> CHR 0x20 # dl_text l | DiffDelete \<Rightarrow> CHR 0x2D # dl_text l
      | DiffInsert \<Rightarrow> CHR 0x2B # dl_text l)"

definition render_hunk :: "diff_hunk \<Rightarrow> string list" where
  "render_hunk hunk =
     (case count_hunk_lines (hk_lines hunk) of (cur, des) \<Rightarrow>
        (''@@ -'' @ show_int (hk_current_start hunk) @ '','' @ show_int cur @ '' +''
         @ show_int (hk_desired_start hunk) @ '','' @ show_int des @ '' @@'')
        # map render_diff_line (hk_lines hunk))"

record diff_options =
  do_context_lines :: "int option"
  do_current_label :: "string option"
  do_desired_label :: "string option"

definition build_unified_diff :: "string \<Rightarrow> string \<Rightarrow> diff_options \<Rightarrow> string" where
  "build_unified_diff current desired options =
     (let normalized_current = normalize_line_endings current;
          normalized_desired = normalize_line_endings desired
      in if normalized_current = normalized_desired then []
         else (let context_lines = max 0 (case do_context_lines options of None \<Rightarrow> default_context_lines | Some n \<Rightarrow> n);
                   current_label = (case do_current_label options of None \<Rightarrow> ''current'' | Some l \<Rightarrow> l);
                   desired_label = (case do_desired_label options of None \<Rightarrow> ''desired'' | Some l \<Rightarrow> l);
                   diff = compute_line_diff (split_lines normalized_current) (split_lines normalized_desired);
                   hunks = build_hunks context_lines diff
               in join_with [newline]
                    ([''--- '' @ current_label, ''+++ '' @ desired_label] @ concat (map render_hunk hunks))))"

definition build_key_value_diff :: "string \<Rightarrow> string option \<Rightarrow> string \<Rightarrow> string" where
  "build_key_value_diff key current desired =
     (if current = Some desired then []
      else join_with [newline]
        ((case current of None \<Rightarrow> [] | Some v \<Rightarrow> [''-'' @ key @ '' = '' @ v]) @ [''+'' @ key @ '' = '' @ desired]))"

text \<open>The error of a dry run that could not read the file: an object with a \<^verbatim>\<open>code\<close> or not.\<close>

definition build_dry_run_detail :: "exn option \<Rightarrow> string" where
  "build_dry_run_detail err =
     (case err of
        Some (NativeErr c _) \<Rightarrow> (if c = [] then ''(dry-run)'' else ''(dry-run, diff unavailable: '' @ c @ '')'')
      | _ \<Rightarrow> ''(dry-run)'')"

subsection \<open>Patching\<close>

text \<open>
  A patch program: the lines of a hunk consume the old text and write the new one.
\<close>

fun patch_lines :: "diff_line list \<Rightarrow> string list \<Rightarrow> (string list \<times> string list) option" where
  "patch_lines [] input = Some ([], input)"
| "patch_lines (l # ls) input =
     (if dl_operation l = DiffInsert
      then map_option (\<lambda>(out, rest). (dl_text l # out, rest)) (patch_lines ls input)
      else (case input of
              [] \<Rightarrow> None
            | x # rest \<Rightarrow>
                (if x \<noteq> dl_text l then None
                 else if dl_operation l = DiffDelete then patch_lines ls rest
                 else map_option (\<lambda>(out, r). (x # out, r)) (patch_lines ls rest))))"

text \<open>
  \<open>run_hunks cur des hunks input\<close>: the next line of the old text has the number \<open>cur\<close>, the next
  line of the new text \<open>des\<close>. Lines between hunks are copied.
\<close>

fun run_hunks :: "int \<Rightarrow> int \<Rightarrow> diff_hunk list \<Rightarrow> string list \<Rightarrow> (string list \<times> string list) option" where
  "run_hunks cur des [] input = Some ([], input)"
| "run_hunks cur des (h # hs) input =
     (let gap = nat (hk_current_start h - cur)
      in if hk_current_start h < cur \<or> length input < gap \<or> hk_desired_start h \<noteq> des + int gap then None
         else (case patch_lines (hk_lines h) (drop gap input) of
                 None \<Rightarrow> None
               | Some (out, rest) \<Rightarrow>
                   map_option (\<lambda>(out2, rest2). (take gap input @ out @ out2, rest2))
                     (run_hunks (hk_current_start h + fst (count_hunk_lines (hk_lines h)))
                        (hk_desired_start h + snd (count_hunk_lines (hk_lines h))) hs rest)))"

definition apply_patch :: "diff_hunk list \<Rightarrow> string list \<Rightarrow> string list option" where
  "apply_patch hunks input = map_option (\<lambda>(out, rest). out @ rest) (run_hunks 1 1 hunks input)"


subsection \<open>The lines of a diff\<close>

lemma dline_simps [simp]: "dl_operation (dline op txt) = op" "dl_text (dline op txt) = txt"
  by (simp_all add: dline_def)

lemma old_lines_simps [simp]:
  "old_lines [] = []" "old_lines (xs @ ys) = old_lines xs @ old_lines ys"
  "old_lines (l # ls) = (if dl_operation l = DiffInsert then old_lines ls else dl_text l # old_lines ls)"
  by (simp_all add: old_lines_def)

lemma new_lines_simps [simp]:
  "new_lines [] = []" "new_lines (xs @ ys) = new_lines xs @ new_lines ys"
  "new_lines (l # ls) = (if dl_operation l = DiffDelete then new_lines ls else dl_text l # new_lines ls)"
  by (simp_all add: new_lines_def)

lemma map_dline_lines [simp]:
  "old_lines (map (dline DiffInsert) xs) = []" "new_lines (map (dline DiffInsert) xs) = xs"
  "old_lines (map (dline DiffDelete) xs) = xs" "new_lines (map (dline DiffDelete) xs) = []"
  by (induction xs) simp_all

lemma count_hunk_lines_eq: "count_hunk_lines ls = (int (length (old_lines ls)), int (length (new_lines ls)))"
  by (induction ls) (auto split: diff_operation.split)

lemma backtrack_loop_lines:
  assumes "row \<le> length current" and "col \<le> length desired"
  shows "old_lines (rev (backtrack_loop current desired table row col)) = take row current \<and>
    new_lines (rev (backtrack_loop current desired table row col)) = take col desired"
  using assms
proof (induction current desired table row col rule: backtrack_loop.induct)
  case (1 current desired table row col)
  show ?case
  proof (cases "row = 0 \<and> col = 0")
    case True
    then show ?thesis by (simp add: backtrack_loop.simps)
  next
    case False
    have take_row: "0 < row \<Longrightarrow> take row current = take (row - 1) current @ [current ! (row - 1)]"
      using 1(2) by (cases row) (auto simp: take_Suc_conv_app_nth)
    have take_col: "0 < col \<Longrightarrow> take col desired = take (col - 1) desired @ [desired ! (col - 1)]"
      using 1(3) by (cases col) (auto simp: take_Suc_conv_app_nth)
    let ?st = "next_backtrack_step current desired table row col"
    have unfold: "backtrack_loop current desired table row col =
        bs_diff_line ?st # backtrack_loop current desired table (bs_next_row ?st) (bs_next_col ?st)"
      using False by (subst backtrack_loop.simps) (simp add: Let_def)
    have bounds: "bs_next_row ?st \<le> length current" "bs_next_col ?st \<le> length desired"
      using 1(2,3) by (auto simp: next_backtrack_step_def)
    have step: "take row current = take (bs_next_row ?st) current @ old_lines [bs_diff_line ?st]"
      "take col desired = take (bs_next_col ?st) desired @ new_lines [bs_diff_line ?st]"
      using False take_row take_col by (auto simp: next_backtrack_step_def)
    show ?thesis
      using 1(1)[OF False refl bounds] unfolding unfold step by simp
  qed
qed

lemma compute_line_diff_lines:
  "old_lines (compute_line_diff current desired) = current \<and> new_lines (compute_line_diff current desired) = desired"
  using backtrack_loop_lines[of "length current" current "length desired" desired]
  by (simp add: compute_line_diff_def build_fallback_line_diff_def backtrack_lcs_def)

subsection \<open>The hunks patch\<close>

lemma patch_lines_self: "patch_lines ls (old_lines ls @ rest) = Some (new_lines ls, rest)"
  by (induction ls) (auto split: diff_operation.split)

definition context_of :: "string list \<Rightarrow> diff_line list" where
  "context_of ts = map (dline DiffContext) ts"

lemma context_of_lines [simp]: "old_lines (context_of ts) = ts" "new_lines (context_of ts) = ts"
  by (induction ts) (simp_all add: context_of_def)

text \<open>
  \<open>covers hs d\<close>: the hunks \<open>hs\<close> turn the old lines of \<open>d\<close> into its new lines and leave the rest of
  the input alone.
\<close>

definition covers :: "diff_hunk list \<Rightarrow> diff_line list \<Rightarrow> bool" where
  "covers hs d \<longleftrightarrow> (\<forall>rest. run_hunks 1 1 hs (old_lines d @ rest) = Some (new_lines d, rest))"

fun hunk_end :: "int \<times> int \<Rightarrow> diff_hunk list \<Rightarrow> int \<times> int" where
  "hunk_end p [] = p"
| "hunk_end p (h # hs) =
     hunk_end (hk_current_start h + fst (count_hunk_lines (hk_lines h)),
               hk_desired_start h + snd (count_hunk_lines (hk_lines h))) hs"

lemma run_hunks_append:
  assumes "run_hunks cur des hs input = Some (out, rest)"
  shows "run_hunks cur des (hs @ hs') input =
     map_option (\<lambda>p. (out @ fst p, snd p))
       (run_hunks (fst (hunk_end (cur, des) hs)) (snd (hunk_end (cur, des) hs)) hs' rest)"
  using assms
proof (induction cur des hs input arbitrary: out rest rule: run_hunks.induct)
  case (1 cur des input)
  then show ?case by (cases "run_hunks cur des hs' rest") auto
next
  case (2 cur des h hs input)
  define gap where "gap = nat (hk_current_start h - cur)"
  have ok: "\<not> (hk_current_start h < cur \<or> length input < gap \<or> hk_desired_start h \<noteq> des + int gap)"
    using 2(2) by (auto simp: Let_def gap_def split: if_splits)
  obtain o1 r1 where one: "patch_lines (hk_lines h) (drop gap input) = Some (o1, r1)"
    using 2(2) ok by (auto simp: Let_def gap_def[symmetric] split: option.splits)
  obtain o2 where two: "run_hunks (hk_current_start h + fst (count_hunk_lines (hk_lines h)))
      (hk_desired_start h + snd (count_hunk_lines (hk_lines h))) hs r1 = Some (o2, rest)"
    and out: "out = take gap input @ o1 @ o2"
    using 2(2) ok one by (auto simp: Let_def gap_def[symmetric])
  show ?case
    using 2(1)[OF gap_def _ one refl two] ok
    by (simp add: Let_def gap_def[symmetric] one out option.map_comp comp_def split_beta)
qed

text \<open>What holds after the lines \<open>d\<close>, of which the finished hunks cover \<open>d1\<close>.\<close>

definition builder_ok :: "int \<Rightarrow> diff_line list \<Rightarrow> hunk_builder \<Rightarrow> bool" where
  "builder_ok n d b \<longleftrightarrow>
     (\<exists>d1 gap. covers (hb_hunks b) d1 \<and>
        hunk_end (1, 1) (hb_hunks b) = (1 + int (length (old_lines d1)), 1 + int (length (new_lines d1))) \<and>
        hb_current_number b = 1 + int (length (old_lines d)) \<and>
        hb_desired_number b = 1 + int (length (new_lines d)) \<and>
        (case hb_active b of
           None \<Rightarrow> (\<exists>g0 ps. gap = g0 @ ps \<and> hb_pending b = context_of ps) \<and> d = d1 @ context_of gap
         | Some h \<Rightarrow> hb_pending b = [] \<and> hb_trailing b > 0 \<and> d = d1 @ context_of gap @ hk_lines h \<and>
             hk_current_start h = 1 + int (length (old_lines d1)) + int (length gap) \<and>
             hk_desired_start h = 1 + int (length (new_lines d1)) + int (length gap)))"

lemma run_one_hunk:
  assumes "hk_current_start h = c + int (length gap)" and "hk_desired_start h = e + int (length gap)"
  shows "run_hunks c e [h] (gap @ old_lines (hk_lines h) @ rest) = Some (gap @ new_lines (hk_lines h), rest)"
  using assms by (simp add: Let_def patch_lines_self)

lemma covers_snoc:
  assumes "covers hs d1"
    and "hunk_end (1, 1) hs = (1 + int (length (old_lines d1)), 1 + int (length (new_lines d1)))"
    and "hk_current_start h = 1 + int (length (old_lines d1)) + int (length gap)"
    and "hk_desired_start h = 1 + int (length (new_lines d1)) + int (length gap)"
  shows "covers (hs @ [h]) (d1 @ context_of gap @ hk_lines h) \<and>
    hunk_end (1, 1) (hs @ [h]) = (1 + int (length (old_lines (d1 @ context_of gap @ hk_lines h))),
                                  1 + int (length (new_lines (d1 @ context_of gap @ hk_lines h))))"
proof -
  have end_snoc: "hunk_end p (xs @ [h]) = (hk_current_start h + fst (count_hunk_lines (hk_lines h)),
      hk_desired_start h + snd (count_hunk_lines (hk_lines h)))" for p xs
    by (induction xs arbitrary: p) simp_all
  show ?thesis
    using assms(1,2) run_one_hunk[OF assms(3,4)]
    by (simp add: covers_def run_hunks_append end_snoc count_hunk_lines_eq assms(3,4) del: run_hunks.simps)
qed


lemma builder_ok_context:
  assumes "builder_ok n d b" and "1 \<le> n" and op: "dl_operation l = DiffContext"
  shows "builder_ok n (d @ [l]) (handle_context_line n l b)"
proof -
  have l: "l = dline DiffContext (dl_text l)" using op by (simp add: dline_def)
  obtain d1 gap where cov: "covers (hb_hunks b) d1"
    and hend: "hunk_end (1, 1) (hb_hunks b) = (1 + int (length (old_lines d1)), 1 + int (length (new_lines d1)))"
    and nums: "hb_current_number b = 1 + int (length (old_lines d))" "hb_desired_number b = 1 + int (length (new_lines d))"
    and active: "case hb_active b of
           None \<Rightarrow> (\<exists>g0 ps. gap = g0 @ ps \<and> hb_pending b = context_of ps) \<and> d = d1 @ context_of gap
         | Some h \<Rightarrow> hb_pending b = [] \<and> hb_trailing b > 0 \<and> d = d1 @ context_of gap @ hk_lines h \<and>
             hk_current_start h = 1 + int (length (old_lines d1)) + int (length gap) \<and>
             hk_desired_start h = 1 + int (length (new_lines d1)) + int (length gap)"
    using assms(1) unfolding builder_ok_def by blast
  show ?thesis
  proof (cases "hb_active b")
    case None
    then obtain g0 ps where gap: "gap = g0 @ ps" "hb_pending b = context_of ps" and d: "d = d1 @ context_of gap"
      using active by auto
    have "\<exists>g0 ps. gap @ [dl_text l] = g0 @ ps \<and>
        (if int (length (hb_pending b @ [l])) > n then tl (hb_pending b @ [l]) else hb_pending b @ [l]) = context_of ps"
    proof (cases "int (length (hb_pending b @ [l])) > n")
      case True
      then obtain p qs where "ps = p # qs" using gap(2) assms(2) by (cases ps) (auto simp: context_of_def)
      then show ?thesis using gap l True
        by - (rule exI[of _ "g0 @ [p]"], rule exI[of _ "qs @ [dl_text l]"], auto simp: context_of_def)
    next
      case False
      then show ?thesis using gap l by - (rule exI[of _ g0], rule exI[of _ "ps @ [dl_text l]"], auto simp: context_of_def)
    qed
    moreover have "d @ [l] = d1 @ context_of (gap @ [dl_text l])" using d l by (simp add: context_of_def)
    ultimately show ?thesis
      unfolding builder_ok_def
      using None cov hend nums op d
      by (intro exI[of _ d1] exI[of _ "gap @ [dl_text l]"]) (simp add: handle_context_line_def Let_def)
  next
    case (Some h)
    then have h: "hb_pending b = []" "hb_trailing b > 0" "d = d1 @ context_of gap @ hk_lines h"
        "hk_current_start h = 1 + int (length (old_lines d1)) + int (length gap)"
        "hk_desired_start h = 1 + int (length (new_lines d1)) + int (length gap)"
      using active by auto
    define h1 where "h1 = h\<lparr>hk_lines := hk_lines h @ [l]\<rparr>"
    have d1: "d @ [l] = d1 @ context_of gap @ hk_lines h1" using h by (simp add: h1_def)
    have step: "handle_context_line n l b =
      (if hb_trailing b - 1 = 0 then b\<lparr>hb_hunks := hb_hunks b @ [h1], hb_active := None, hb_trailing := 0\<rparr>
       else b\<lparr>hb_active := Some h1, hb_trailing := hb_trailing b - 1\<rparr>)
        \<lparr>hb_current_number := hb_current_number b + 1, hb_desired_number := hb_desired_number b + 1\<rparr>"
      using Some h(2) by (simp add: handle_context_line_def h1_def Let_def)
    show ?thesis
    proof (cases "hb_trailing b - 1 = 0")
      case True
      have c: "covers (hb_hunks b @ [h1]) (d1 @ context_of gap @ hk_lines h1) \<and>
          hunk_end (1, 1) (hb_hunks b @ [h1]) =
            (1 + int (length (old_lines (d1 @ context_of gap @ hk_lines h1))),
             1 + int (length (new_lines (d1 @ context_of gap @ hk_lines h1))))"
        by (rule covers_snoc[OF cov hend]) (simp_all add: h1_def h)
      show ?thesis
        unfolding builder_ok_def
        using c True step h nums op unfolding d1
        by (intro exI[of _ "d1 @ context_of gap @ hk_lines h1"] exI[of _ "[]"])
           (simp add: h1_def context_of_def)
    next
      case False
      then show ?thesis
        unfolding builder_ok_def
        using cov hend step h nums op d1
        by (intro exI[of _ d1] exI[of _ gap]) (auto simp: h1_def)
    qed
  qed
qed

lemma builder_ok_change:
  assumes "builder_ok n d b" and "1 \<le> n" and op: "dl_operation l \<noteq> DiffContext"
  shows "builder_ok n (d @ [l]) (handle_change_line n l b)"
proof -
  obtain d1 gap where cov: "covers (hb_hunks b) d1"
    and hend: "hunk_end (1, 1) (hb_hunks b) = (1 + int (length (old_lines d1)), 1 + int (length (new_lines d1)))"
    and nums: "hb_current_number b = 1 + int (length (old_lines d))" "hb_desired_number b = 1 + int (length (new_lines d))"
    and active: "case hb_active b of
           None \<Rightarrow> (\<exists>g0 ps. gap = g0 @ ps \<and> hb_pending b = context_of ps) \<and> d = d1 @ context_of gap
         | Some h \<Rightarrow> hb_pending b = [] \<and> hb_trailing b > 0 \<and> d = d1 @ context_of gap @ hk_lines h \<and>
             hk_current_start h = 1 + int (length (old_lines d1)) + int (length gap) \<and>
             hk_desired_start h = 1 + int (length (new_lines d1)) + int (length gap)"
    using assms(1) unfolding builder_ok_def by blast
  show ?thesis
  proof (cases "hb_active b")
    case None
    then obtain g0 ps where gap: "gap = g0 @ ps" "hb_pending b = context_of ps" and d: "d = d1 @ context_of gap"
      using active by auto
    have "length (context_of ps) = length ps" by (simp add: context_of_def)
    then show ?thesis
      unfolding builder_ok_def
      using cov hend nums d gap None assms(2) op
      by (intro exI[of _ d1] exI[of _ g0])
         (auto simp: handle_change_line_def Let_def context_of_def old_lines_def new_lines_def
            intro: diff_operation.exhaust[of "dl_operation l"])
  next
    case (Some h)
    then show ?thesis
      unfolding builder_ok_def
      using cov hend nums active assms(2) op
      by (intro exI[of _ d1] exI[of _ gap])
         (auto simp: handle_change_line_def Let_def intro: diff_operation.exhaust[of "dl_operation l"])
  qed
qed

lemma builder_ok_fold:
  "builder_ok n d b \<Longrightarrow> 1 \<le> n \<Longrightarrow> builder_ok n (d @ ls) (fold (add_diff_line n) ls b)"
proof (induction ls arbitrary: d b)
  case (Cons l ls)
  have "builder_ok n (d @ [l]) (add_diff_line n l b)"
    using Cons(2,3) by (simp add: add_diff_line_def builder_ok_context builder_ok_change)
  from Cons(1)[OF this Cons(3)] show ?case by simp
qed simp

lemma hunks_patch_diff:
  assumes "1 \<le> n"
  shows "apply_patch (build_hunks n d) (old_lines d) = Some (new_lines d)"
proof -
  have "builder_ok n [] new_hunk_builder"
    by (auto simp: builder_ok_def new_hunk_builder_def covers_def context_of_def intro!: exI[of _ "[]"])
  then have "builder_ok n d (fold (add_diff_line n) d new_hunk_builder)" (is "builder_ok n d ?b")
    using builder_ok_fold[of n "[]" new_hunk_builder d] assms by simp
  then obtain d1 gap where cov: "covers (hb_hunks ?b) d1"
    and hend: "hunk_end (1, 1) (hb_hunks ?b) = (1 + int (length (old_lines d1)), 1 + int (length (new_lines d1)))"
    and active: "case hb_active ?b of
           None \<Rightarrow> (\<exists>g0 ps. gap = g0 @ ps \<and> hb_pending ?b = context_of ps) \<and> d = d1 @ context_of gap
         | Some h \<Rightarrow> hb_pending ?b = [] \<and> hb_trailing ?b > 0 \<and> d = d1 @ context_of gap @ hk_lines h \<and>
             hk_current_start h = 1 + int (length (old_lines d1)) + int (length gap) \<and>
             hk_desired_start h = 1 + int (length (new_lines d1)) + int (length gap)"
    unfolding builder_ok_def by blast
  show ?thesis
  proof (cases "hb_active ?b")
    case None
    then have "d = d1 @ context_of gap" using active by simp
    then show ?thesis
      using cov None by (simp add: build_hunks_def finish_hunks_def apply_patch_def covers_def)
  next
    case (Some h)
    then have "d = d1 @ context_of gap @ hk_lines h" and "covers (hb_hunks ?b @ [h]) (d1 @ context_of gap @ hk_lines h)"
      using covers_snoc[OF cov hend] active by auto
    then have "run_hunks 1 1 (hb_hunks ?b @ [h]) (old_lines d) = Some (new_lines d, [])"
      using covers_def[of "hb_hunks ?b @ [h]"] by (metis append_Nil2)
    then show ?thesis using Some by (simp add: build_hunks_def finish_hunks_def apply_patch_def)
  qed
qed

subsection \<open>The diff is minimal\<close>

text \<open>The length of a longest common subsequence.\<close>

fun lcs_len :: "'a list \<Rightarrow> 'a list \<Rightarrow> nat" where
  "lcs_len (x # xs) (y # ys) =
     (if x = y then lcs_len xs ys + 1 else max (lcs_len xs (y # ys)) (lcs_len (x # xs) ys))"
| "lcs_len _ _ = 0"

lemma lcs_len_Nil [simp]: "lcs_len [] ys = 0" "lcs_len xs [] = 0"
  by (cases xs; simp)+

lemma subseq_le_lcs_len: "subseq zs xs \<Longrightarrow> subseq zs ys \<Longrightarrow> length zs \<le> lcs_len xs ys"
proof (induction xs ys arbitrary: zs rule: lcs_len.induct)
  case (1 x xs y ys)
  show ?case
  proof (cases zs)
    case (Cons z zs')
    show ?thesis
    proof (cases "x = y")
      case True
      have "subseq zs' xs" "subseq zs' ys" using 1(4,5) Cons by (auto split: if_splits dest: subseq_Cons')
      then show ?thesis using 1(1)[OF True] True Cons by simp
    next
      case False
      then have "subseq zs xs \<or> subseq zs ys" using 1(4,5) Cons by (auto split: if_splits)
      then show ?thesis
        using 1(2)[OF False, of zs] 1(3)[OF False, of zs] 1(4,5) False by (auto simp: max.coboundedI1 max.coboundedI2)
    qed
  qed simp
qed auto

definition lcs_prefix :: "string list \<Rightarrow> string list \<Rightarrow> nat \<Rightarrow> nat \<Rightarrow> nat" where
  "lcs_prefix current desired i j = lcs_len (rev (take i current)) (rev (take j desired))"

lemma lcs_prefix_zero [simp]: "lcs_prefix current desired 0 j = 0" "lcs_prefix current desired i 0 = 0"
  by (simp_all add: lcs_prefix_def)

lemma lcs_prefix_Suc:
  assumes "i < length current" and "j < length desired"
  shows "lcs_prefix current desired (Suc i) (Suc j) =
    (if current ! i = desired ! j then lcs_prefix current desired i j + 1
     else max (lcs_prefix current desired i (Suc j)) (lcs_prefix current desired (Suc i) j))"
  using assms by (simp add: lcs_prefix_def take_Suc_conv_app_nth)

lemma lcs_cells_prefix:
  assumes "i < length current"
  shows "k \<le> length desired \<Longrightarrow>
    lcs_cells (current ! i) (drop k desired)
      (map (lcs_prefix current desired i) [k..<Suc (length desired)]) (lcs_prefix current desired (Suc i) k) =
    map (lcs_prefix current desired (Suc i)) [Suc k..<Suc (length desired)]"
proof (induction "length desired - k" arbitrary: k)
  case 0
  then show ?case by simp
next
  case (Suc n)
  then have k: "k < length desired" by simp
  have "drop k desired = desired ! k # drop (Suc k) desired" using k by (simp add: Cons_nth_drop_Suc)
  moreover have "[k..<Suc (length desired)] = k # Suc k # [Suc (Suc k)..<Suc (length desired)]"
    using k by (simp add: upt_rec)
  moreover have "[Suc k..<Suc (length desired)] = Suc k # [Suc (Suc k)..<Suc (length desired)]"
    using k by (simp add: upt_rec)
  ultimately show ?case
    using Suc(1)[of "Suc k"] Suc(2) k lcs_prefix_Suc[OF assms k] by (simp add: Let_def)
qed

lemma next_row_prefix:
  assumes "i < length current"
  shows "next_row desired (current ! i) (map (lcs_prefix current desired i) [0..<Suc (length desired)]) =
    map (lcs_prefix current desired (Suc i)) [0..<Suc (length desired)]"
  using lcs_cells_prefix[OF assms, of 0 desired] by (simp add: next_row_def upt_rec[of 0] del: upt_Suc)

lemma lcs_rows_prefix:
  "i \<le> length current \<Longrightarrow>
   lcs_rows (drop i current) desired (map (lcs_prefix current desired i) [0..<Suc (length desired)]) =
   map (\<lambda>r. map (lcs_prefix current desired r) [0..<Suc (length desired)]) [i..<Suc (length current)]"
proof (induction "length current - i" arbitrary: i)
  case 0
  then show ?case by simp
next
  case (Suc n)
  then have i: "i < length current" by simp
  have "drop i current = current ! i # drop (Suc i) current" using i by (simp add: Cons_nth_drop_Suc)
  moreover have "[i..<Suc (length current)] = i # [Suc i..<Suc (length current)]" using i by (simp add: upt_rec)
  ultimately show ?case using Suc(1)[of "Suc i"] Suc(2) i next_row_prefix[OF i, of desired] by (simp del: upt_Suc)
qed

lemma lcs_table_entry:
  assumes "i \<le> length current" and "j \<le> length desired"
  shows "build_lcs_table current desired ! i ! j = lcs_prefix current desired i j"
proof -
  have "replicate (length desired + 1) 0 = map (lcs_prefix current desired 0) [0..<Suc (length desired)]"
    by (rule nth_equalityI) (simp_all del: upt_Suc replicate_Suc)
  then have "build_lcs_table current desired =
      map (\<lambda>r. map (lcs_prefix current desired r) [0..<Suc (length desired)]) [0..<Suc (length current)]"
    using lcs_rows_prefix[of 0 current desired] by (simp add: build_lcs_table_def del: upt_Suc replicate_Suc)
  then show ?thesis using assms by (simp del: upt_Suc)
qed

definition context_lines :: "diff_line list \<Rightarrow> string list" where
  "context_lines d = map dl_text (filter (\<lambda>l. dl_operation l = DiffContext) d)"

definition change_count :: "diff_line list \<Rightarrow> nat" where
  "change_count d = length (filter (\<lambda>l. dl_operation l \<noteq> DiffContext) d)"

lemma backtrack_loop_context:
  assumes "row \<le> length current" and "col \<le> length desired"
  shows "length (context_lines (backtrack_loop current desired (build_lcs_table current desired) row col)) =
    lcs_prefix current desired row col"
  using assms
proof (induction "row + col" arbitrary: row col rule: less_induct)
  case less
  let ?T = "build_lcs_table current desired"
  show ?case
  proof (cases "row = 0 \<and> col = 0")
    case True
    then show ?thesis by (simp add: backtrack_loop.simps context_lines_def)
  next
    case False
    let ?st = "next_backtrack_step current desired ?T row col"
    have unfold: "backtrack_loop current desired ?T row col =
        bs_diff_line ?st # backtrack_loop current desired ?T (bs_next_row ?st) (bs_next_col ?st)"
      using False by (subst backtrack_loop.simps) (simp add: Let_def)
    have bounds: "bs_next_row ?st \<le> length current" "bs_next_col ?st \<le> length desired"
      using less(2,3) by (auto simp: next_backtrack_step_def)
    have tab: "?T ! i ! j = lcs_prefix current desired i j" if "i \<le> row" "j \<le> col" for i j
      using lcs_table_entry[of i current j desired] that less(2,3) by simp
    have "lcs_prefix current desired row col =
        length (context_lines [bs_diff_line ?st]) + lcs_prefix current desired (bs_next_row ?st) (bs_next_col ?st)"
    proof (cases row; cases col)
      fix r c assume rc: "row = Suc r" "col = Suc c"
      then show ?thesis
        using lcs_prefix_Suc[of r current c desired] less(2,3) tab[of row c] tab[of r col]
        by (auto simp: next_backtrack_step_def context_lines_def)
    qed (use False in \<open>auto simp: next_backtrack_step_def context_lines_def\<close>)
    then show ?thesis
      using less(1)[OF backtrack_step_decreases[OF False] bounds] unfolding unfold by (simp add: context_lines_def)
  qed
qed

lemma diff_size: "length (old_lines d) + length (new_lines d) = change_count d + 2 * length (context_lines d)"
  by (induction d) (auto simp: change_count_def context_lines_def split: diff_operation.split
      intro: diff_operation.exhaust)

lemma context_subseq: "subseq (context_lines d) (old_lines d) \<and> subseq (context_lines d) (new_lines d)"
  by (induction d) (auto simp: context_lines_def)

lemma subseq_rev: "subseq xs ys \<Longrightarrow> subseq (rev xs) (rev ys)"
proof (induction rule: list_emb.induct)
  case (list_emb_Cons xs ys y)
  then show ?case by (simp add: subseq_rev_drop_many)
next
  case (list_emb_Cons2 x y xs ys)
  then show ?case by (simp add: list_emb_append_mono)
qed simp

lemma subseq_rev_le_lcs:
  assumes "subseq zs xs" and "subseq zs ys"
  shows "length zs \<le> lcs_len (rev xs) (rev ys)"
  using subseq_le_lcs_len[of "rev zs" "rev xs" "rev ys"] subseq_rev assms by (metis length_rev)

lemma line_diff_minimal:
  assumes "(int (length current) + 1) * (int (length desired) + 1) \<le> max_diff_cells"
    and "old_lines d = current" and "new_lines d = desired"
  shows "change_count (compute_line_diff current desired) \<le> change_count d"
proof -
  let ?d = "compute_line_diff current desired"
  have d: "length (context_lines d) \<le> lcs_len (rev current) (rev desired)"
    using subseq_rev_le_lcs context_subseq[of d] assms(2,3) by metis
  have "length (context_lines ?d) = lcs_len (rev current) (rev desired)"
  proof (cases "current = [] \<or> desired = []")
    case True
    then show ?thesis by (auto simp: compute_line_diff_def context_lines_def)
  next
    case False
    then have "?d = rev (backtrack_loop current desired (build_lcs_table current desired) (length current) (length desired))"
      using assms(1) by (simp add: compute_line_diff_def backtrack_lcs_def)
    then show ?thesis
      using backtrack_loop_context[of "length current" current "length desired" desired]
      by (simp add: context_lines_def lcs_prefix_def rev_filter[symmetric] rev_map[symmetric])
  qed
  then show ?thesis
    using d diff_size[of d] diff_size[of ?d] compute_line_diff_lines[of current desired] assms(2,3) by simp
qed

text \<open>
  C7: the diff a dry run prints is a patch. Applied to the current lines, its hunks, read with
  the line numbers in their headers, give the desired lines, for every number of context lines
  from one on. And within the bound of the table no diff of the two texts changes fewer lines.
\<close>

theorem unified_diff_is_minimal_patch:
  assumes "1 \<le> n"
  shows "apply_patch (build_hunks n (compute_line_diff current desired)) current = Some desired \<and>
    ((int (length current) + 1) * (int (length desired) + 1) \<le> max_diff_cells \<longrightarrow>
     (\<forall>d. old_lines d = current \<and> new_lines d = desired \<longrightarrow>
          change_count (compute_line_diff current desired) \<le> change_count d))"
  using hunks_patch_diff[OF assms, of "compute_line_diff current desired"] compute_line_diff_lines[of current desired]
    line_diff_minimal[of current desired] by simp

lemma unified_diff_is_minimal_patch_witness:
  "apply_patch (build_hunks 3 (compute_line_diff [''a'', ''b'', ''c''] [''a'', ''x'', ''c'']))
     [''a'', ''b'', ''c''] = Some [''a'', ''x'', ''c''] \<and>
   change_count (compute_line_diff [''a'', ''b'', ''c''] [''a'', ''x'', ''c'']) \<le>
   change_count (build_fallback_line_diff [''a'', ''b'', ''c''] [''a'', ''x'', ''c''])"
  using unified_diff_is_minimal_patch[of 3 "[''a'', ''b'', ''c'']" "[''a'', ''x'', ''c'']"]
  by (simp add: max_diff_cells_def build_fallback_line_diff_def dline_def)

text \<open>
  With no context a hunk is never closed, and the lines between two changes are lost from it:
  the result is not a patch.
\<close>

lemma no_context_is_no_patch:
  "apply_patch (build_hunks 0 (compute_line_diff [''a'', ''b'', ''c''] [''x'', ''b'', ''y''])) [''a'', ''b'', ''c''] = None"
  by code_simp

end
