(* ===== verification/Script.thy ===== *)
theory Script
  imports Remote
begin

text \<open>
  A module talks to the server in turns: it sends a command or a file, waits for the answer and
  goes on. A value of \<open>'a script\<close> is such an asynchronous function: \<open>Done\<close> returns or throws,
  \<open>Exec\<close> is \<^verbatim>\<open>ssh.exec\<close>, \<open>WriteFile\<close> is \<^verbatim>\<open>ssh.writeFile\<close> and \<open>Clock\<close> is \<^verbatim>\<open>Date.now()\<close>, each with what the
  function does with the answer. \<open>Local\<close> asks the connection or the process itself: the candidate
  ports, a reconnect, a timer, a warning on the terminal. Scripts that are run alone are effects (\<open>run_script\<close>); scripts
  that run side by side are interleaved at the commands (\<open>step_script\<close>).
\<close>

datatype local_request =
    AddPort int
  | RemovePort int
  | ReconnectSession
  | GetConnectionInfo
  | Sleep int
  | Warn string

text \<open>What \<^verbatim>\<open>getConnectionInfo()\<close> tells of the ports; the other requests answer with it unused.\<close>

record connection_info =
  ci_port :: int
  ci_configured_ports :: "int list"

datatype 'a script =
    Done "'a result"
  | Exec string exec_options "exec_result result \<Rightarrow> 'a script"
  | WriteFile string string "string option" "unit result \<Rightarrow> 'a script"
  | Clock "int \<Rightarrow> 'a script"
  | Local local_request "connection_info result \<Rightarrow> 'a script"

primrec script_bind :: "'a script \<Rightarrow> ('a \<Rightarrow> 'b script) \<Rightarrow> 'b script" where
  "script_bind (Done r) k = (case r of Inl e \<Rightarrow> Done (Inl e) | Inr x \<Rightarrow> k x)"
| "script_bind (Exec cmd opts f) k = Exec cmd opts (\<lambda>r. script_bind (f r) k)"
| "script_bind (WriteFile path content mode f) k = WriteFile path content mode (\<lambda>r. script_bind (f r) k)"
| "script_bind (Clock f) k = Clock (\<lambda>t. script_bind (f t) k)"
| "script_bind (Local req f) k = Local req (\<lambda>r. script_bind (f r) k)"

primrec script_catch :: "'a script \<Rightarrow> (exn \<Rightarrow> 'a script) \<Rightarrow> 'a script" where
  "script_catch (Done r) h = (case r of Inl e \<Rightarrow> h e | Inr x \<Rightarrow> Done (Inr x))"
| "script_catch (Exec cmd opts f) h = Exec cmd opts (\<lambda>r. script_catch (f r) h)"
| "script_catch (WriteFile path content mode f) h = WriteFile path content mode (\<lambda>r. script_catch (f r) h)"
| "script_catch (Clock f) h = Clock (\<lambda>t. script_catch (f t) h)"
| "script_catch (Local req f) h = Local req (\<lambda>r. script_catch (f r) h)"

text \<open>\<open>attempt m\<close> returns the outcome of \<open>m\<close>, so \<^verbatim>\<open>finally\<close> is a bind after it.\<close>

primrec attempt :: "'a script \<Rightarrow> 'a result script" where
  "attempt (Done r) = Done (Inr r)"
| "attempt (Exec cmd opts f) = Exec cmd opts (\<lambda>r. attempt (f r))"
| "attempt (WriteFile path content mode f) = WriteFile path content mode (\<lambda>r. attempt (f r))"
| "attempt (Clock f) = Clock (\<lambda>t. attempt (f t))"
| "attempt (Local req f) = Local req (\<lambda>r. attempt (f r))"

abbreviation give :: "'a \<Rightarrow> 'a script" where "give x \<equiv> Done (Inr x)"
abbreviation throw :: "exn \<Rightarrow> 'a script" where "throw e \<equiv> Done (Inl e)"

definition finally_do :: "'a script \<Rightarrow> unit script \<Rightarrow> 'a script" where
  "finally_do m cleanup = script_bind (attempt m) (\<lambda>r. script_bind cleanup (\<lambda>_. Done r))"

definition exec_script :: "string \<Rightarrow> exec_options \<Rightarrow> exec_result script" where
  "exec_script cmd opts = Exec cmd opts Done"

definition write_file_script :: "string \<Rightarrow> string \<Rightarrow> string option \<Rightarrow> unit script" where
  "write_file_script path content mode = WriteFile path content mode Done"

definition clock_script :: "int script" where
  "clock_script = Clock (\<lambda>t. give t)"

definition local_script :: "local_request \<Rightarrow> unit script" where
  "local_script req = Local req (\<lambda>r. case r of Inl e \<Rightarrow> throw e | Inr info \<Rightarrow> give ())"

definition connection_info_script :: "connection_info script" where
  "connection_info_script = Local GetConnectionInfo Done"

subsection \<open>The helpers of the connection\<close>

definition test_script :: "string \<Rightarrow> bool script" where
  "test_script cmd = script_bind (exec_script cmd probe_exec) (\<lambda>r. give (er_code r = 0))"

definition exists_script :: "string \<Rightarrow> bool script" where
  "exists_script path = test_script (''[ -e '' @ shell_quote path @ '' ]'')"

definition output_script :: "string \<Rightarrow> string script" where
  "output_script cmd = script_bind (exec_script cmd silent_exec) (\<lambda>r. give (trim (er_stdout r)))"

definition read_file_script :: "string \<Rightarrow> string script" where
  "read_file_script path =
     script_bind (exec_script (''cat '' @ shell_quote path) silent_exec)
       (\<lambda>r. if ends_with (er_stdout r) capture_truncation_marker
            then throw (GenericError (''[ssh.readFile: '' @ path @ ''] remote file exceeds the captured-output cap of ''
                    @ show_nat default_max_output_bytes @ '' bytes; refusing to return truncated contents''))
            else give (er_stdout r))"

subsection \<open>Running a script\<close>

record 's host =
  ho_exec :: "'s remote"
  ho_write :: "string \<Rightarrow> string \<Rightarrow> string option \<Rightarrow> (unit, 's) effect"
  ho_now :: "'s \<Rightarrow> int \<times> 's"
  ho_local :: "local_request \<Rightarrow> (connection_info, 's) effect"

fun step_script :: "'s host \<Rightarrow> 'a script \<Rightarrow> 's \<Rightarrow> 'a script \<times> 's" where
  "step_script h (Done r) s = (Done r, s)"
| "step_script h (Exec cmd opts f) s = (case ho_exec h cmd opts s of (r, s1) \<Rightarrow> (f r, s1))"
| "step_script h (WriteFile path content mode f) s = (case ho_write h path content mode s of (r, s1) \<Rightarrow> (f r, s1))"
| "step_script h (Clock f) s = (case ho_now h s of (t, s1) \<Rightarrow> (f t, s1))"
| "step_script h (Local req f) s = (case ho_local h req s of (r, s1) \<Rightarrow> (f r, s1))"

primrec run_script :: "'s host \<Rightarrow> 'a script \<Rightarrow> ('a, 's) effect" where
  "run_script h (Done r) = (\<lambda>s. (r, s))"
| "run_script h (Exec cmd opts f) = (\<lambda>s. case ho_exec h cmd opts s of (r, s1) \<Rightarrow> run_script h (f r) s1)"
| "run_script h (WriteFile path content mode f) =
     (\<lambda>s. case ho_write h path content mode s of (r, s1) \<Rightarrow> run_script h (f r) s1)"
| "run_script h (Clock f) = (\<lambda>s. case ho_now h s of (t, s1) \<Rightarrow> run_script h (f t) s1)"
| "run_script h (Local req f) = (\<lambda>s. case ho_local h req s of (r, s1) \<Rightarrow> run_script h (f r) s1)"

lemma run_script_step:
  "(\<And>r. m \<noteq> Done r) \<Longrightarrow> run_script h m s = (case step_script h m s of (m1, s1) \<Rightarrow> run_script h m1 s1)"
  by (cases m) (auto split: prod.split)

lemma run_bind [effect_simps]:
  "run_script h (script_bind m k) s = and_then (run_script h m s) (\<lambda>x. run_script h (k x))"
  by (induction m arbitrary: s) (auto split: sum.split prod.split)

lemma run_catch [effect_simps]:
  "run_script h (script_catch m f) s = catching (run_script h m s) (\<lambda>e. run_script h (f e))"
  by (induction m arbitrary: s) (auto split: sum.split prod.split)

lemma run_attempt [effect_simps]:
  "run_script h (attempt m) s = (case run_script h m s of (r, s1) \<Rightarrow> (Inr r, s1))"
  by (induction m arbitrary: s) (auto split: prod.split)

lemma run_exec [effect_simps]: "run_script h (exec_script cmd opts) s = ho_exec h cmd opts s"
  by (simp add: exec_script_def split: prod.split)

lemma run_write_file [effect_simps]:
  "run_script h (write_file_script path content mode) s = ho_write h path content mode s"
  by (simp add: write_file_script_def split: prod.split)

lemma run_clock [effect_simps]:
  "run_script h clock_script s = (case ho_now h s of (t, s1) \<Rightarrow> (Inr t, s1))"
  by (simp add: clock_script_def split: prod.split)

lemma run_local [effect_simps]:
  "run_script h (local_script req) s = (case ho_local h req s of (Inl e, s1) \<Rightarrow> (Inl e, s1) | (Inr i, s1) \<Rightarrow> (Inr (), s1))"
  by (simp add: local_script_def split: prod.split sum.split)

lemma run_connection_info [effect_simps]:
  "run_script h connection_info_script s = ho_local h GetConnectionInfo s"
  by (simp add: connection_info_script_def split: prod.split)

lemma run_test [effect_simps]: "run_script h (test_script cmd) = remote_test (ho_exec h) cmd"
  by (rule ext) (simp add: test_script_def remote_test_def effect_simps)

lemma run_exists [effect_simps]: "run_script h (exists_script path) = remote_exists (ho_exec h) path"
  by (simp add: exists_script_def remote_exists_def run_test)

lemma run_output [effect_simps]: "run_script h (output_script cmd) = remote_output (ho_exec h) cmd"
  by (rule ext) (simp add: output_script_def remote_output_def effect_simps)

lemma run_read_file [effect_simps]: "run_script h (read_file_script path) = remote_read_file (ho_exec h) path"
  by (rule ext) (simp add: read_file_script_def remote_read_file_def effect_simps split: prod.split effect_splits)

subsection \<open>Laws\<close>

lemma script_bind_assoc:
  "script_bind (script_bind m k) l = script_bind m (\<lambda>x. script_bind (k x) l)"
  by (induction m) (auto split: sum.split)

lemma script_bind_give [simp]: "script_bind m (\<lambda>x. give x) = m"
  by (induction m) (auto split: sum.split)

text \<open>
  The values a script can return are those of the type's set function. A recursion through a
  bind terminates when every value the first script returns is smaller.
\<close>

lemma script_bind_cong [fundef_cong]:
  assumes "m = m'" and "\<And>x. x \<in> set_script m' \<Longrightarrow> k x = k' x"
  shows "script_bind m k = script_bind m' k'"
proof -
  have "(\<And>x. x \<in> set_script m' \<Longrightarrow> k x = k' x) \<Longrightarrow> script_bind m' k = script_bind m' k'"
    by (induction m') (auto split: sum.split simp: fun_eq_iff intro: rangeI)
  then show ?thesis using assms by simp
qed

lemma set_script_bindD:
  "y \<in> set_script (script_bind m k) \<Longrightarrow> \<exists>x \<in> set_script m. y \<in> set_script (k x)"
proof (induction m)
  case (Done r)
  then show ?case by (cases r) auto
qed (simp, metis rangeI)+

lemma set_script_bindE:
  assumes "y \<in> set_script (script_bind m k)"
  obtains x where "x \<in> set_script m" and "y \<in> set_script (k x)"
  using set_script_bindD[OF assms] by (rule bexE)

lemma set_script_catchD:
  "y \<in> set_script (script_catch m f) \<Longrightarrow> y \<in> set_script m \<or> (\<exists>e. y \<in> set_script (f e))"
proof (induction m)
  case (Done r)
  then show ?case by (cases r) auto
qed (simp, metis rangeI)+

text \<open>\<open>returns P m\<close>: every value the script can return satisfies \<open>P\<close>.\<close>

definition returns :: "('a \<Rightarrow> bool) \<Rightarrow> 'a script \<Rightarrow> bool" where
  "returns P m \<longleftrightarrow> (\<forall>x \<in> set_script m. P x)"

lemma returns_bind: "(\<And>x. x \<in> set_script m \<Longrightarrow> returns P (k x)) \<Longrightarrow> returns P (script_bind m k)"
  by (auto simp: returns_def elim: set_script_bindE)

lemma returns_Done [simp]: "returns P (Done r) \<longleftrightarrow> (\<forall>x. r = Inr x \<longrightarrow> P x)"
  by (cases r) (auto simp: returns_def)

lemma returns_mono: "returns P m \<Longrightarrow> (\<And>x. P x \<Longrightarrow> Q x) \<Longrightarrow> returns Q m"
  by (auto simp: returns_def)

end
