(* ===== verification/FlagLock.thy ===== *)
theory FlagLock
  imports Script
begin

text \<open>
  The lock directories on the server (\<^verbatim>\<open>modules/flagLock.ts\<close>, \<^verbatim>\<open>flagLockScripts.ts\<close>,
  \<^verbatim>\<open>flagLockWait.ts\<close>, \<^verbatim>\<open>flagLockRefresh.ts\<close>): a lock is a directory with a marker file that names
  its holder. The shell commands are built here as the code builds them, and the functions that
  send them are scripts. Seconds and milliseconds are integers.
\<close>

subsection \<open>Age thresholds and commands (\<^verbatim>\<open>flagLockScripts.ts\<close>)\<close>

definition flag_lock_holder_marker_name :: string where "flag_lock_holder_marker_name = ''holder''"

record age_threshold =
  at_effective_age_seconds :: int
  at_mmin_minutes :: int

definition ceil_div :: "int \<Rightarrow> int \<Rightarrow> int" where
  "ceil_div a b = - ((- a) div b)"

definition flag_lock_age_threshold :: "int \<Rightarrow> age_threshold result" where
  "flag_lock_age_threshold seconds =
     (if seconds < 0
      then Inl (GenericError (''flag lock age threshold must be a finite number >= 0, got: '' @ show_int seconds))
      else (let mmin = max 1 (ceil_div seconds 60) - 1
            in Inr \<lparr>at_effective_age_seconds = mmin * 60, at_mmin_minutes = mmin\<rparr>))"

record flag_lock_holder =
  fh_owner_lines :: "string list option"
  fh_token :: string

definition token_start_char :: "char \<Rightarrow> bool" where
  "token_start_char c \<longleftrightarrow> is_alpha c \<or> is_digit c"

definition token_char :: "char \<Rightarrow> bool" where
  "token_char c \<longleftrightarrow> is_word c \<or> c \<in> set ''.:@+=-''"

definition flag_lock_token_pattern :: "string \<Rightarrow> bool" where
  "flag_lock_token_pattern t \<longleftrightarrow>
     (case t of [] \<Rightarrow> False
      | c # cs \<Rightarrow> token_start_char c \<and> list_all token_char cs \<and> 7 \<le> length cs \<and> length cs \<le> 127)"

definition owner_line_char :: "char \<Rightarrow> bool" where
  "owner_line_char c \<longleftrightarrow> char_between 32 126 c \<and> c \<notin> {CHR 0x22, CHR 0x24, CHR 0x27, CHR 0x5C, CHR 0x60}"

definition flag_lock_owner_line_pattern :: "string \<Rightarrow> bool" where
  "flag_lock_owner_line_pattern l \<longleftrightarrow> list_all owner_line_char l \<and> 1 \<le> length l \<and> length l \<le> 200"

definition max_flag_lock_owner_lines :: nat where "max_flag_lock_owner_lines = 8"

definition validate_flag_lock_holder :: "flag_lock_holder \<Rightarrow> unit result" where
  "validate_flag_lock_holder holder =
     (let owner_lines = (case fh_owner_lines holder of None \<Rightarrow> [] | Some ls \<Rightarrow> ls)
      in if \<not> flag_lock_token_pattern (fh_token holder)
         then Inl (GenericError (''flag lock holder token must match /^[A-Za-z0-9]['' @ [backslash] @ ''w.:@+='' @ [backslash]
                @ ''-]{7,127}$/v, got: '' @ json_stringify (fh_token holder)))
         else if max_flag_lock_owner_lines < length owner_lines
         then Inl (GenericError (''flag lock holder allows at most 8 owner lines, got '' @ show_nat (length owner_lines)))
         else (case find (\<lambda>l. \<not> flag_lock_owner_line_pattern l) owner_lines of
                 None \<Rightarrow> Inr ()
               | Some line \<Rightarrow>
                   Inl (GenericError (''flag lock owner line must be 1-200 printable ASCII characters without quotes, backslash, backtick or $, got: ''
                          @ json_stringify line))))"

definition build_flag_lock_holder_marker_write :: "string \<Rightarrow> flag_lock_holder \<Rightarrow> string" where
  "build_flag_lock_holder_marker_write marker_word holder =
     ''printf '' @ [squote] @ ''%s'' @ [backslash] @ ''n'' @ [squote] @ '' ''
     @ join_with '' ''
         (map shell_quote (fh_token holder # (case fh_owner_lines holder of None \<Rightarrow> [] | Some ls \<Rightarrow> ls)))
     @ '' > '' @ marker_word"

text \<open>The first field of the first line of a file.\<close>

definition first_word_of :: "string \<Rightarrow> string" where
  \<open>first_word_of word = ''awk 'NR==1{print $1}' '' @ word\<close>

definition build_stale_flag_lock_reclaim_command :: "string \<Rightarrow> string \<Rightarrow> string \<Rightarrow> int \<Rightarrow> string result" where
  \<open>build_stale_flag_lock_reclaim_command awk_marker_word lock_word marker_word stale_seconds =
     (case flag_lock_age_threshold stale_seconds of
        Inl e \<Rightarrow> Inl e
      | Inr threshold \<Rightarrow>
          (let mmin = show_int (at_mmin_minutes threshold);
               token = ''"$('' @ first_word_of awk_marker_word @ '' 2>/dev/null)"'';
               old = (\<lambda>word. ''find '' @ word @ '' -maxdepth 0 -mmin +'' @ mmin @ '' -print -quit | grep -q .'')
           in Inr (''if [ -d '' @ lock_word @ '' ]; then ''
                @ ''if [ -f '' @ marker_word @ '' ]; then ''
                @ ''STALE_TOKEN='' @ token @ ''; ''
                @ ''if '' @ old marker_word @ ''; then ''
                @ ''[ '' @ token @ '' = "$STALE_TOKEN" ] && ''
                @ ''rm -f -- '' @ marker_word @ '' && rmdir -- '' @ lock_word @ ''; ''
                @ ''else exit 1; fi; ''
                @ ''else ''
                @ ''if '' @ old lock_word @ ''; then ''
                @ old lock_word @ '' && ''
                @ ''rm -f -- '' @ marker_word @ '' && rmdir -- '' @ lock_word @ ''; ''
                @ ''else exit 1; fi; ''
                @ ''fi; ''
                @ ''else exit 1; fi'')))\<close>

text \<open>The guard for a lock and a token that are given literally, the only form flag locks use.\<close>

definition build_flag_lock_refresh_guard :: "int \<Rightarrow> string \<Rightarrow> string \<Rightarrow> string result" where
  \<open>build_flag_lock_refresh_guard guard_seconds lock_directory holder_token =
     (case flag_lock_age_threshold guard_seconds of
        Inl e \<Rightarrow> Inl e
      | Inr threshold \<Rightarrow>
          (let lock = shell_quote lock_directory;
               marker = shell_quote (lock_directory @ ''/'' @ flag_lock_holder_marker_name);
               token = shell_quote holder_token
           in Inr (''{ [ -d '' @ lock @ '' ] && [ -f '' @ marker @ '' ] && ''
                @ ''[ "x$('' @ first_word_of marker @ '' 2>/dev/null </dev/null)" = x'' @ token @ '' ] && ''
                @ ''[ -n "$(find '' @ marker @ '' -maxdepth 0 ! -mmin +'' @ show_int (at_mmin_minutes threshold)
                @ '' -print 2>/dev/null </dev/null)" ] && ''
                @ ''touch -c '' @ marker @ '' </dev/null 2>/dev/null; }'')))\<close>

subsection \<open>Acquiring and releasing (\<^verbatim>\<open>flagLock.ts\<close>)\<close>

definition flags_directory :: string where "flags_directory = ''/var/lib/paratix/flags''"
definition flag_lock_wait_seconds :: int where "flag_lock_wait_seconds = 300"
definition flag_lock_stale_seconds :: int where "flag_lock_stale_seconds = 4 * 60 * 60"

fun flag_name_rest :: "string \<Rightarrow> bool" where
  "flag_name_rest [] = True"
| "flag_name_rest (c # cs) =
     (if is_word c \<or> c = CHR ''-'' then flag_name_rest cs
      else if c = CHR ''.'' then (case cs of d # ds \<Rightarrow> (is_alpha d \<or> is_digit d) \<and> flag_name_rest ds | [] \<Rightarrow> False)
      else False)"

definition flag_name_pattern :: "string \<Rightarrow> bool" where
  "flag_name_pattern name = (case name of [] \<Rightarrow> False | c # cs \<Rightarrow> (is_alpha c \<or> is_digit c) \<and> flag_name_rest cs)"

definition validate_flag_name :: "string \<Rightarrow> string \<Rightarrow> unit result" where
  "validate_flag_name value label =
     (if flag_name_pattern value then Inr ()
      else Inl (GenericError (label @ '' must match /^[A-Za-z0-9](?:['' @ [backslash] @ ''w'' @ [backslash] @ ''-]|''
             @ [backslash] @ ''.[A-Za-z0-9])*$/v, got: '' @ json_stringify value)))"

definition ensure_flags_directory :: "module_result option script" where
  "ensure_flags_directory =
     script_bind (exec_script (''mkdir -p '' @ flags_directory) probe_exec)
       (\<lambda>r. if er_code r = 0 then give None
            else script_bind (Done (failed_command (''[moduleHelpers] failed to create '' @ flags_directory) r None))
                   (\<lambda>failure. give (Some failure)))"

definition flag_path :: "string \<Rightarrow> string" where
  "flag_path name = flags_directory @ ''/'' @ shell_quote name"

definition flag_lock_display_path :: "string \<Rightarrow> string" where
  "flag_lock_display_path lock_name = flags_directory @ ''/'' @ lock_name"

definition flag_lock_name :: "string \<Rightarrow> string" where
  "flag_lock_name flag_name = flag_name @ ''.lock''"

definition marker_path :: "string \<Rightarrow> string" where
  "marker_path lock_name = flag_path lock_name @ ''/'' @ flag_lock_holder_marker_name"

definition quoted_marker :: "string \<Rightarrow> string" where
  "quoted_marker lock_name = shell_quote (flag_lock_display_path lock_name @ ''/'' @ flag_lock_holder_marker_name)"

text \<open>The result of writing the marker, and of an acquisition: \<open>Inl\<close> is the failure.\<close>

datatype acquire_result = AcquireFailed module_result | Acquired string | Contended

definition holder_marker_write_command :: "string \<Rightarrow> flag_lock_holder option \<Rightarrow> string script" where
  \<open>holder_marker_write_command marker holder =
     (case holder of
        Some h \<Rightarrow> give (build_flag_lock_holder_marker_write marker h)
      | None \<Rightarrow>
          script_bind (script_catch (output_script ''hostname'') (\<lambda>e. give []))
            (\<lambda>raw. give (''printf '' @ [squote] @ ''%s@%s %s'' @ [backslash] @ ''n'' @ [squote] @ '' "$$" ''
                   @ shell_quote (trim raw) @ '' "$(date +%s)" > '' @ marker)))\<close>

definition build_readback_failure :: "string \<Rightarrow> exec_result option \<Rightarrow> module_result result" where
  "build_readback_failure lock_name readback =
     (case readback of
        None \<Rightarrow> Inr (failed_result (''[moduleHelpers] flag lock holder marker for '' @ lock_name
                 @ '' readback failed: ssh.exec threw before returning a result''))
      | Some r \<Rightarrow>
          (if er_code r \<noteq> 0
           then failed_command (''[moduleHelpers] flag lock holder marker for '' @ lock_name @ '' readback failed'') r None
           else Inr (failed_result (''[moduleHelpers] flag lock holder marker for '' @ lock_name
                       @ '' is readable but empty''))))"

definition verify_supplied_holder_token ::
  "string \<Rightarrow> flag_lock_holder option \<Rightarrow> string \<Rightarrow> module_result + string" where
  "verify_supplied_holder_token lock_name holder token =
     (case holder of
        None \<Rightarrow> Inr token
      | Some h \<Rightarrow>
          (if token = fh_token h then Inr token
           else Inl (failed_result (''[moduleHelpers] flag lock holder marker for '' @ lock_name
                       @ '' does not carry the supplied token''))))"

definition remove_lock_directory :: "string \<Rightarrow> unit script" where
  "remove_lock_directory lock_name =
     script_bind (exec_script (''rmdir -- '' @ flag_path lock_name) probe_exec) (\<lambda>_. give ())"

definition remove_marker :: "string \<Rightarrow> unit script" where
  "remove_marker lock_name =
     script_bind (exec_script (''rm -f -- '' @ marker_path lock_name) probe_exec) (\<lambda>_. give ())"

definition read_back_token :: "string \<Rightarrow> exec_result option script" where
  "read_back_token lock_name =
     script_catch (script_bind (exec_script (first_word_of (quoted_marker lock_name)) probe_exec) (\<lambda>r. give (Some r)))
       (\<lambda>e. give None)"

definition write_flag_lock_holder_marker ::
  "string \<Rightarrow> flag_lock_holder option \<Rightarrow> (module_result + string) script" where
  "write_flag_lock_holder_marker lock_name holder =
     script_bind (holder_marker_write_command (marker_path lock_name) holder) (\<lambda>command.
     script_bind (exec_script command probe_exec) (\<lambda>printf_result.
       if er_code printf_result \<noteq> 0
       then script_bind (remove_lock_directory lock_name) (\<lambda>_.
            script_bind (Done (failed_command
                (''[moduleHelpers] failed to write flag lock holder marker for '' @ lock_name) printf_result None))
              (\<lambda>failure. give (Inl failure)))
       else script_bind (read_back_token lock_name) (\<lambda>readback.
            let token = (case readback of None \<Rightarrow> [] | Some r \<Rightarrow> trim (er_stdout r));
                read_ok = (case readback of None \<Rightarrow> False | Some r \<Rightarrow> er_code r = 0)
            in if \<not> read_ok \<or> token = []
               then script_bind (remove_marker lock_name) (\<lambda>_.
                    script_bind (remove_lock_directory lock_name) (\<lambda>_.
                    script_bind (Done (build_readback_failure lock_name readback)) (\<lambda>failure. give (Inl failure))))
               else give (verify_supplied_holder_token lock_name holder token))))"

definition validate_optional_holder :: "flag_lock_holder option \<Rightarrow> unit result" where
  "validate_optional_holder holder = (case holder of None \<Rightarrow> Inr () | Some h \<Rightarrow> validate_flag_lock_holder h)"

definition acquire_flag_lock :: "string \<Rightarrow> flag_lock_holder option \<Rightarrow> acquire_result script" where
  "acquire_flag_lock lock_name holder =
     script_bind (Done (validate_flag_name lock_name ''lockName'')) (\<lambda>_.
     script_bind (Done (validate_optional_holder holder)) (\<lambda>_.
     script_bind ensure_flags_directory (\<lambda>ensure_failure.
       case ensure_failure of
         Some failure \<Rightarrow> give (AcquireFailed failure)
       | None \<Rightarrow>
           script_bind (exec_script (''mkdir '' @ flag_path lock_name) probe_exec) (\<lambda>r.
             if er_code r = 0
             then script_bind (write_flag_lock_holder_marker lock_name holder) (\<lambda>marker.
                  case marker of Inl failure \<Rightarrow> give (AcquireFailed failure) | Inr token \<Rightarrow> give (Acquired token))
             else give Contended))))"

definition release_command :: "string \<Rightarrow> string \<Rightarrow> string" where
  \<open>release_command lock_name holder_token =
     ''awk_token=$('' @ first_word_of (quoted_marker lock_name) @ '' 2>/dev/null); awk_status=$?; ''
     @ ''[ "$awk_status" = 0 ] && ''
     @ ''[ "x$awk_token" = '' @ shell_quote (''x'' @ holder_token) @ '' ] && ''
     @ ''rm -f -- '' @ marker_path lock_name @ '' && ''
     @ ''rmdir -- '' @ flag_path lock_name\<close>

definition release_flag_lock :: "string \<Rightarrow> string \<Rightarrow> unit script" where
  "release_flag_lock lock_name holder_token =
     script_bind (Done (validate_flag_name lock_name ''lockName'')) (\<lambda>_.
       if holder_token = [] then give ()
       else script_bind (exec_script (release_command lock_name holder_token) probe_exec) (\<lambda>_. give ()))"

definition try_reclaim_stale_flag_lock :: "string \<Rightarrow> int \<Rightarrow> bool script" where
  "try_reclaim_stale_flag_lock lock_name stale_seconds =
     script_bind (Done (build_stale_flag_lock_reclaim_command (quoted_marker lock_name) (flag_path lock_name)
         (marker_path lock_name) stale_seconds)) (\<lambda>command.
     script_bind (exec_script command probe_exec) (\<lambda>r. give (er_code r = 0)))"

subsection \<open>Waiting (\<^verbatim>\<open>flagLockWait.ts\<close>)\<close>

definition flag_lock_wait_poll_seconds :: int where "flag_lock_wait_poll_seconds = 60"

record wait_budget =
  wb_total :: int
  wb_deadline :: int
  wb_consumed :: int
  wb_rounds :: nat
  wb_initial_claimed :: bool

definition create_flag_lock_wait_budget :: "int \<Rightarrow> wait_budget script" where
  "create_flag_lock_wait_budget total_seconds =
     script_bind clock_script (\<lambda>now.
       give \<lparr>wb_total = total_seconds, wb_deadline = now + total_seconds * 1000, wb_consumed = 0, wb_rounds = 0,
             wb_initial_claimed = False\<rparr>)"

definition remaining_seconds :: "wait_budget \<Rightarrow> int \<Rightarrow> int" where
  "remaining_seconds b now = max 0 (min (wb_total b - wb_consumed b) (ceil_div (wb_deadline b - now) 1000))"

definition is_exhausted :: "wait_budget \<Rightarrow> bool script" where
  "is_exhausted b =
     (if wb_rounds b = 0 then give False
      else script_bind clock_script (\<lambda>now. give (remaining_seconds b now \<le> 0)))"

definition next_poll_seconds :: "wait_budget \<Rightarrow> int script" where
  "next_poll_seconds b =
     script_bind clock_script (\<lambda>now. give (min flag_lock_wait_poll_seconds (remaining_seconds b now)))"

definition record_round :: "bool \<Rightarrow> int \<Rightarrow> int \<Rightarrow> wait_budget \<Rightarrow> wait_budget script" where
  "record_round still_held poll_seconds started_at b =
     script_bind clock_script (\<lambda>now.
       give (b\<lparr>wb_rounds := wb_rounds b + 1,
               wb_consumed := wb_consumed b
                 + max 1 (max (if still_held then poll_seconds else 0) (ceil_div (now - started_at) 1000))\<rparr>))"

definition mutex_poll_command :: "string \<Rightarrow> int \<Rightarrow> string" where
  \<open>mutex_poll_command lock_name poll_seconds =
     ''i=0; while [ -d '' @ flag_path lock_name @ '' ] && [ "$i" -lt '' @ show_int poll_seconds @ '' ]; do ''
     @ ''sleep 1; i=$((i+1)); done; ''
     @ ''[ ! -d '' @ flag_path lock_name @ '' ]''\<close>

definition flag_poll_command :: "string \<Rightarrow> string \<Rightarrow> int \<Rightarrow> string" where
  \<open>flag_poll_command flag_name lock_name poll_seconds =
     ''i=0; while [ -d '' @ flag_path lock_name @ '' ] && [ ! -f '' @ flag_path flag_name @ '' ] && [ "$i" -lt ''
     @ show_int poll_seconds @ '' ]; do ''
     @ ''sleep 1; i=$((i+1)); done; ''
     @ ''[ ! -d '' @ flag_path lock_name @ '' ] || [ -f '' @ flag_path flag_name @ '' ]''\<close>

text \<open>The claim of the first reclaim is part of the budget, which is returned updated.\<close>

definition try_initial_reclaim :: "string \<Rightarrow> int \<Rightarrow> wait_budget \<Rightarrow> (bool \<times> wait_budget) script" where
  "try_initial_reclaim lock_name stale_seconds b =
     (if wb_initial_claimed b then give (False, b)
      else script_bind (try_reclaim_stale_flag_lock lock_name stale_seconds)
             (\<lambda>reclaimed. give (reclaimed, b\<lparr>wb_initial_claimed := True\<rparr>)))"

datatype wait_outcome = WaitExhausted | WaitReleased

text \<open>What is left of a budget: it goes down with every round and with the first reclaim.\<close>

definition budget_measure :: "wait_budget \<Rightarrow> nat" where
  "budget_measure b = nat (wb_total b - wb_consumed b) + (if wb_rounds b = 0 then 1 else 0)
     + (if wb_initial_claimed b then 0 else 1)"

lemma exhausted_False:
  "False \<in> set_script (is_exhausted b) \<Longrightarrow> wb_rounds b = 0 \<or> wb_consumed b < wb_total b"
  by (auto simp: is_exhausted_def clock_script_def remaining_seconds_def split: if_splits)

lemma initial_reclaim_measure:
  "(r, b1) \<in> set_script (try_initial_reclaim lock_name stale b) \<Longrightarrow>
   b1 = b \<and> wb_initial_claimed b \<and> \<not> r \<or> b1 = b\<lparr>wb_initial_claimed := True\<rparr> \<and> \<not> wb_initial_claimed b"
  by (auto simp: try_initial_reclaim_def elim: set_script_bindE split: if_splits)

lemma record_round_measure:
  "b2 \<in> set_script (record_round still_held poll started b) \<Longrightarrow>
   wb_rounds b = 0 \<or> wb_consumed b < wb_total b \<Longrightarrow> budget_measure b2 < budget_measure b"
  by (auto simp: record_round_def clock_script_def budget_measure_def)

function wait_for_mutex_lock_round :: "string \<Rightarrow> int \<Rightarrow> wait_budget \<Rightarrow> (wait_outcome \<times> wait_budget) script" where
  "wait_for_mutex_lock_round lock_name stale_seconds b =
     script_bind (is_exhausted b) (\<lambda>exhausted.
       if exhausted then give (WaitExhausted, b)
       else script_bind (try_initial_reclaim lock_name stale_seconds b) (\<lambda>(initial, b1).
         if initial then give (WaitReleased, b1)
         else script_bind (next_poll_seconds b1) (\<lambda>poll_seconds.
              script_bind clock_script (\<lambda>started_at.
              script_bind (exec_script (mutex_poll_command lock_name poll_seconds) probe_exec) (\<lambda>probe.
              script_bind (record_round (er_code probe \<noteq> 0) poll_seconds started_at b1) (\<lambda>b2.
                if er_code probe = 0 then give (WaitReleased, b2)
                else script_bind (try_reclaim_stale_flag_lock lock_name stale_seconds) (\<lambda>reclaimed.
                       if reclaimed then give (WaitReleased, b2)
                       else wait_for_mutex_lock_round lock_name stale_seconds b2)))))))"
  by pat_completeness auto

termination
proof (relation "measure (\<lambda>(lock_name, stale, b). budget_measure b)", goal_cases)
  case 1
  then show ?case by simp
next
  case (2 lock_name stale b ex p r b1 poll started probe b2 rec)
  then show ?case using exhausted_False[of b] initial_reclaim_measure[of r b1 lock_name stale b]
      record_round_measure[of b2 "er_code probe \<noteq> 0" poll started b1]
    by (auto simp: budget_measure_def)
qed

declare wait_for_mutex_lock_round.simps [simp del]

lemma wait_round_released:
  "returns (\<lambda>(out, b'). out = WaitReleased \<longrightarrow> budget_measure b' < budget_measure b)
     (wait_for_mutex_lock_round lock_name stale b)"
proof (induction lock_name stale b rule: wait_for_mutex_lock_round.induct)
  case (1 lock_name stale b)
  have less: "budget_measure b2 < budget_measure b"
    if "False \<in> set_script (is_exhausted b)" "(False, b1) \<in> set_script (try_initial_reclaim lock_name stale b)"
      "b2 \<in> set_script (record_round h p st b1)" for b1 b2 h p st
    using that(1) exhausted_False[of b] initial_reclaim_measure[OF that(2)] record_round_measure[OF that(3)]
    by (auto simp: budget_measure_def)
  have first: "budget_measure b1 < budget_measure b"
    if "(True, b1) \<in> set_script (try_initial_reclaim lock_name stale b)" for b1
    using initial_reclaim_measure[OF that] by (auto simp: budget_measure_def)
  have again: "returns (\<lambda>(out, b'). out = WaitReleased \<longrightarrow> budget_measure b' < budget_measure b)
      (wait_for_mutex_lock_round lock_name stale b2)"
    if "False \<in> set_script (is_exhausted b)" "(False, b1) \<in> set_script (try_initial_reclaim lock_name stale b)"
      "p \<in> set_script (next_poll_seconds b1)" "st \<in> set_script clock_script"
      "probe \<in> set_script (exec_script (mutex_poll_command lock_name p) probe_exec)"
      "b2 \<in> set_script (record_round True p st b1)" "er_code probe \<noteq> 0"
      "False \<in> set_script (try_reclaim_stale_flag_lock lock_name stale)" for b1 p st probe b2
  proof -
    have "b2 \<in> set_script (record_round (er_code probe \<noteq> 0) p st b1)" using that(6,7) by simp
    from 1[OF that(1) _ that(2) refl _ that(3-5) this that(7) that(8)]
    show ?thesis by (rule returns_mono) (use less[OF that(1,2,6)] in auto)
  qed
  show ?case
    by (subst wait_for_mutex_lock_round.simps)
       (auto intro!: returns_bind split: prod.split; blast intro: less first again)
qed

definition flag_wait_timeout :: "string \<Rightarrow> exec_result option \<Rightarrow> module_result result" where
  "flag_wait_timeout lock_name r =
     (let message = ''[moduleHelpers] timed out waiting for flag lock '' @ lock_name
      in case r of None \<Rightarrow> Inr (failed_result message) | Some res \<Rightarrow> failed_command message res None)"

text \<open>\<open>None\<close> is \<^verbatim>\<open>"resolved"\<close>, \<open>Some\<close> the failure.\<close>

function wait_for_flag_lock_resolution ::
  "string \<Rightarrow> string \<Rightarrow> int \<Rightarrow> wait_budget \<Rightarrow> (module_result option \<times> wait_budget) script" where
  "wait_for_flag_lock_resolution flag_name lock_name stale_seconds b =
     script_bind (is_exhausted b) (\<lambda>exhausted.
       if exhausted then script_bind (Done (flag_wait_timeout lock_name None)) (\<lambda>failure. give (Some failure, b))
       else script_bind (try_initial_reclaim lock_name stale_seconds b) (\<lambda>(initial, b1).
         if initial then give (None, b1)
         else script_bind (next_poll_seconds b1) (\<lambda>poll_seconds.
              script_bind clock_script (\<lambda>started_at.
              script_bind (exec_script (flag_poll_command flag_name lock_name poll_seconds) probe_exec) (\<lambda>probe.
              script_bind (record_round (er_code probe \<noteq> 0) poll_seconds started_at b1) (\<lambda>b2.
                if er_code probe = 0 then give (None, b2)
                else script_bind (try_reclaim_stale_flag_lock lock_name stale_seconds) (\<lambda>reclaimed.
                       if reclaimed then give (None, b2)
                       else script_bind (is_exhausted b2) (\<lambda>spent.
                         if spent then script_bind (Done (flag_wait_timeout lock_name (Some probe)))
                                         (\<lambda>failure. give (Some failure, b2))
                         else wait_for_flag_lock_resolution flag_name lock_name stale_seconds b2))))))))"
  by pat_completeness auto

termination
proof (relation "measure (\<lambda>(flag_name, lock_name, stale, b). budget_measure b)", goal_cases)
  case 1
  then show ?case by simp
next
  case (2 flag_name lock_name stale b ex p r b1 poll started probe b2 rec spent)
  then show ?case using exhausted_False[of b] initial_reclaim_measure[of r b1 lock_name stale b]
      record_round_measure[of b2 "er_code probe \<noteq> 0" poll started b1]
    by (auto simp: budget_measure_def)
qed

declare wait_for_flag_lock_resolution.simps [simp del]

end
