(* ===== verification/MutexLock.thy ===== *)
theory MutexLock
  imports FlagLock
begin

text \<open>
  Flags and the mutex lock (\<^verbatim>\<open>modules/moduleHelpers.ts\<close>, \<^verbatim>\<open>mutexLock.ts\<close>,
  \<^verbatim>\<open>flagLockRefresh.ts\<close>). The lost state of a handle is passed along explicitly. The timer of the
  heartbeat is the state machine at the end; the optional custom acquisition of a lock is not
  modelled.
\<close>

subsection \<open>Refreshing and describing a held lock\<close>

definition flag_lock_refresh_guard :: "int \<Rightarrow> string \<Rightarrow> string \<Rightarrow> string result" where
  "flag_lock_refresh_guard guard_seconds lock_name token =
     (case validate_flag_name lock_name ''lockName'' of
        Inl e \<Rightarrow> Inl e
      | Inr _ \<Rightarrow> build_flag_lock_refresh_guard guard_seconds (flag_lock_display_path lock_name) token)"

definition refresh_flag_lock :: "int \<Rightarrow> string \<Rightarrow> string \<Rightarrow> bool script" where
  "refresh_flag_lock guard_seconds lock_name token =
     script_bind (Done (flag_lock_refresh_guard guard_seconds lock_name token)) (\<lambda>command.
     script_bind (exec_script command probe_exec) (\<lambda>r. give (er_code r = 0)))"

datatype lock_diagnostics =
    DiagAbsent
  | DiagHeld "int option" bool "string list"
  | DiagUnknown string

text \<open>\<open>DiagHeld age marker_present owner_lines\<close>.\<close>

definition diagnostic_owner_line_limit :: nat where "diagnostic_owner_line_limit = 8"
definition diagnostic_line_length_limit :: nat where "diagnostic_line_length_limit = 200"
definition diagnostics_header_tag :: string where "diagnostics_header_tag = ''paratix-lock''"
definition diagnostics_states :: "string list" where "diagnostics_states = [''absent'', ''marker'', ''no-marker'']"

definition mtime_of :: "string \<Rightarrow> string" where
  "mtime_of word = ''$(stat -c %Y '' @ word @ '' 2>/dev/null || stat -f %m '' @ word @ '' 2>/dev/null)''"

definition build_flag_lock_diagnostics_command :: "string \<Rightarrow> string \<Rightarrow> string" where
  \<open>build_flag_lock_diagnostics_command lock_word marker_word =
     ''if [ ! -d '' @ lock_word @ '' ]; then echo 'paratix-lock absent'; ''
     @ ''elif [ -f '' @ marker_word @ '' ]; then ''
     @ ''echo "paratix-lock marker $(date +%s) '' @ mtime_of marker_word @ ''"; ''
     @ ''sed -n '2,9p' '' @ marker_word @ '' </dev/null 2>/dev/null; ''
     @ ''else echo "paratix-lock no-marker $(date +%s) '' @ mtime_of lock_word @ ''"; fi''\<close>

definition sanitize_diagnostic_line :: "string \<Rightarrow> string" where
  "sanitize_diagnostic_line line =
     take diagnostic_line_length_limit (map (\<lambda>c. if char_between 32 126 c then c else CHR ''?'') line)"

definition all_digits :: "string \<Rightarrow> bool" where
  "all_digits s \<longleftrightarrow> s \<noteq> [] \<and> list_all is_digit s"

text \<open>\<^verbatim>\<open>Number\<close> of a run of decimal digits.\<close>

definition digits_value :: "string \<Rightarrow> int" where
  "digits_value s = foldl (\<lambda>acc c. acc * 10 + (int (code c) - 48)) 0 s"

definition age_from :: "string option \<Rightarrow> string option \<Rightarrow> int option" where
  "age_from now mtime =
     (case (now, mtime) of
        (Some n, Some m) \<Rightarrow> (if all_digits n \<and> all_digits m then Some (max 0 (digits_value n - digits_value m)) else None)
      | _ \<Rightarrow> None)"

definition nth_field :: "nat \<Rightarrow> string list \<Rightarrow> string option" where
  "nth_field i xs = (if i < length xs then Some (xs ! i) else None)"

definition parse_flag_lock_holder_diagnostics :: "string \<Rightarrow> lock_diagnostics" where
  "parse_flag_lock_holder_diagnostics stdout =
     (let lines = split_on newline stdout;
          fields = split_on (CHR 0x20) (hd lines);
          state = (case nth_field 1 fields of Some s \<Rightarrow> s | None \<Rightarrow> [])
      in if hd fields \<noteq> diagnostics_header_tag \<or> state \<notin> set diagnostics_states
         then DiagUnknown ''unexpected diagnostics output''
         else if state = ''absent'' then DiagAbsent
         else DiagHeld (age_from (nth_field 2 fields) (nth_field 3 fields)) (state = ''marker'')
                (map sanitize_diagnostic_line
                   (take diagnostic_owner_line_limit (filter (\<lambda>l. trim l \<noteq> []) (tl lines)))))"

definition read_flag_lock_holder_diagnostics :: "string \<Rightarrow> lock_diagnostics script" where
  "read_flag_lock_holder_diagnostics lock_name =
     script_bind (Done (validate_flag_name lock_name ''lockName'')) (\<lambda>_.
       let lock_path = flag_lock_display_path lock_name;
           command = build_flag_lock_diagnostics_command (shell_quote lock_path)
                       (shell_quote (lock_path @ ''/'' @ flag_lock_holder_marker_name))
       in script_catch
            (script_bind (exec_script command probe_exec) (\<lambda>r.
               give (if er_code r \<noteq> 0 then DiagUnknown (''diagnostics read exited '' @ show_int (er_code r))
                     else parse_flag_lock_holder_diagnostics (er_stdout r))))
            (\<lambda>e. give (DiagUnknown (''diagnostics read failed: '' @ exn_message e))))"

definition describe_flag_lock_holder :: "lock_diagnostics \<Rightarrow> string \<Rightarrow> age_threshold \<Rightarrow> string" where
  "describe_flag_lock_holder diagnostics lock_name threshold =
     (let path = flag_lock_display_path lock_name
      in case diagnostics of
           DiagAbsent \<Rightarrow> ''lock '' @ path @ '' was released only after the wait ran out''
         | DiagUnknown reason \<Rightarrow> ''lock '' @ path @ '' is held (holder details unavailable: '' @ reason @ '')''
         | DiagHeld age marker_present owner_lines \<Rightarrow>
             (let owner = (if owner_lines = [] then ''unknown'' else join_with ''; '' owner_lines);
                  marker = (if marker_present then ''marker'' else ''lock directory (no marker)'');
                  reclaim = ''reclaimable once older than '' @ show_int (at_effective_age_seconds threshold) @ '' s''
              in case age of
                   None \<Rightarrow> ''lock '' @ path @ '' is held (owner: '' @ owner @ ''), '' @ marker @ '' age unknown, '' @ reclaim
                 | Some a \<Rightarrow>
                     ''lock '' @ path @ '' is held (owner: '' @ owner @ ''), '' @ marker @ '' age '' @ show_int a @ '' s, ''
                     @ reclaim @ '' (in about ''
                     @ show_int (max 0 (at_effective_age_seconds threshold + 1 - a)) @ '' s)''))"

subsection \<open>Flags\<close>

definition has_flag :: "string \<Rightarrow> bool script" where
  "has_flag flag_name =
     script_bind (Done (validate_flag_name flag_name ''flagName'')) (\<lambda>_.
       test_script (''[ -f '' @ flags_directory @ ''/'' @ shell_quote flag_name @ '' ]''))"

definition set_flag :: "string \<Rightarrow> module_result option script" where
  "set_flag flag_name =
     script_bind (Done (validate_flag_name flag_name ''flagName'')) (\<lambda>_.
     script_bind ensure_flags_directory (\<lambda>ensure_failure.
       case ensure_failure of
         Some failure \<Rightarrow> give (Some failure)
       | None \<Rightarrow>
           script_bind (exec_script (''touch '' @ flags_directory @ ''/'' @ shell_quote flag_name) probe_exec) (\<lambda>r.
             if er_code r = 0 then give None
             else script_bind (Done (failed_command (''[moduleHelpers] failed to persist flag '' @ flag_name) r None))
                    (\<lambda>failure. give (Some failure)))))"

definition set_versioned_flag :: "string \<Rightarrow> string \<Rightarrow> module_result option script" where
  \<open>set_versioned_flag flag_name flag_prefix =
     script_bind (Done (validate_flag_name flag_name ''flagName'')) (\<lambda>_.
     script_bind (Done (validate_flag_name flag_prefix ''flagPrefix'')) (\<lambda>_.
     script_bind ensure_flags_directory (\<lambda>ensure_failure.
       case ensure_failure of
         Some failure \<Rightarrow> give (Some failure)
       | None \<Rightarrow>
           script_bind (exec_script
               (''find '' @ flags_directory @ '' -maxdepth 1 -type f -name '' @ shell_quote (flag_prefix @ ''*'')
                @ '' ! -name '*.lock' -delete && touch '' @ flags_directory @ ''/'' @ shell_quote flag_name) probe_exec)
             (\<lambda>r. if er_code r = 0 then give None
                  else script_bind (Done (failed_command
                           (''[moduleHelpers] failed to persist versioned flag '' @ flag_name) r None))
                         (\<lambda>failure. give (Some failure))))))\<close>

record flag_apply =
  fa_apply :: "module_result script"
  fa_flag_name :: string
  fa_should_apply :: "bool script option"
  fa_stale_seconds :: "int option"
  fa_wait_seconds :: "int option"

definition should_run_flag_apply :: "flag_apply \<Rightarrow> bool script" where
  "should_run_flag_apply p =
     script_bind (has_flag (fa_flag_name p)) (\<lambda>present.
       if \<not> present then give True
       else (case fa_should_apply p of None \<Rightarrow> give False | Some m \<Rightarrow> m))"

text \<open>A release that throws is ignored.\<close>

definition release_quietly :: "string \<Rightarrow> string \<Rightarrow> unit script" where
  "release_quietly lock_name token = script_catch (release_flag_lock lock_name token) (\<lambda>e. give ())"

definition run_locked_flag_apply :: "flag_apply \<Rightarrow> string \<Rightarrow> string \<Rightarrow> module_result script" where
  "run_locked_flag_apply p lock_name token =
     finally_do
       (script_bind (should_run_flag_apply p) (\<lambda>run. if run then fa_apply p else give (plain_result StOk)))
       (release_quietly lock_name token)"

lemma wait_resolution_resolved:
  "returns (\<lambda>(out, b'). out = None \<longrightarrow> budget_measure b' < budget_measure b)
     (wait_for_flag_lock_resolution flag_name lock_name stale b)"
proof (induction flag_name lock_name stale b rule: wait_for_flag_lock_resolution.induct)
  case (1 flag_name lock_name stale b)
  have less: "budget_measure b2 < budget_measure b"
    if "False \<in> set_script (is_exhausted b)" "(False, b1) \<in> set_script (try_initial_reclaim lock_name stale b)"
      "b2 \<in> set_script (record_round h p st b1)" for b1 b2 h p st
    using that(1) exhausted_False[of b] initial_reclaim_measure[OF that(2)] record_round_measure[OF that(3)]
    by (auto simp: budget_measure_def)
  have first: "budget_measure b1 < budget_measure b"
    if "(True, b1) \<in> set_script (try_initial_reclaim lock_name stale b)" for b1
    using initial_reclaim_measure[OF that] by (auto simp: budget_measure_def)
  have again: "returns (\<lambda>(out, b'). out = None \<longrightarrow> budget_measure b' < budget_measure b)
      (wait_for_flag_lock_resolution flag_name lock_name stale b2)"
    if "False \<in> set_script (is_exhausted b)" "(False, b1) \<in> set_script (try_initial_reclaim lock_name stale b)"
      "p \<in> set_script (next_poll_seconds b1)" "st \<in> set_script clock_script"
      "probe \<in> set_script (exec_script (flag_poll_command flag_name lock_name p) probe_exec)"
      "b2 \<in> set_script (record_round True p st b1)" "er_code probe \<noteq> 0"
      "False \<in> set_script (try_reclaim_stale_flag_lock lock_name stale)" "False \<in> set_script (is_exhausted b2)"
    for b1 p st probe b2
  proof -
    have "b2 \<in> set_script (record_round (er_code probe \<noteq> 0) p st b1)" using that(6,7) by simp
    from 1[OF that(1) _ that(2) refl _ that(3-5) this that(7) that(8) _ that(9)]
    show ?thesis by (rule returns_mono) (use less[OF that(1,2,6)] in auto)
  qed
  show ?case
    by (subst wait_for_flag_lock_resolution.simps)
       (auto intro!: returns_bind simp del: script_bind.simps split: prod.split; blast intro: less first again)
qed

function try_apply_with_flag_lock :: "flag_apply \<Rightarrow> string \<Rightarrow> wait_budget option \<Rightarrow> module_result script" where
  "try_apply_with_flag_lock p lock_name budget =
     script_bind (should_run_flag_apply p) (\<lambda>run.
       if \<not> run then give (plain_result StOk)
       else script_bind (acquire_flag_lock lock_name None) (\<lambda>acquired.
         case acquired of
           AcquireFailed failure \<Rightarrow> give failure
         | Acquired token \<Rightarrow> run_locked_flag_apply p lock_name token
         | Contended \<Rightarrow>
             script_bind (case budget of
                  Some b \<Rightarrow> give b
                | None \<Rightarrow> create_flag_lock_wait_budget
                            (case fa_wait_seconds p of None \<Rightarrow> flag_lock_wait_seconds | Some w \<Rightarrow> w)) (\<lambda>b.
             script_bind (wait_for_flag_lock_resolution (fa_flag_name p) lock_name
                  (case fa_stale_seconds p of None \<Rightarrow> flag_lock_stale_seconds | Some x \<Rightarrow> x) b) (\<lambda>(out, b').
               case out of
                 Some failure \<Rightarrow> give failure
               | None \<Rightarrow> try_apply_with_flag_lock p lock_name (Some b')))))"
  by pat_completeness auto

termination
proof (relation "measures [\<lambda>(p, lock_name, budget). if budget = None then 1 else 0,
    \<lambda>(p, lock_name, budget). case budget of None \<Rightarrow> 0 | Some b \<Rightarrow> budget_measure b]", goal_cases)
  case 1
  then show ?case by simp
next
  case (2 p lock_name budget run acq b x out b')
  then show ?case
    using wait_resolution_resolved[of b "fa_flag_name p" lock_name
        "case fa_stale_seconds p of None \<Rightarrow> flag_lock_stale_seconds | Some x \<Rightarrow> x"]
    by (cases budget) (auto simp: returns_def)
qed

declare try_apply_with_flag_lock.simps [simp del]

definition apply_with_flag_lock :: "flag_apply \<Rightarrow> module_result script" where
  "apply_with_flag_lock p =
     script_bind (Done (validate_flag_name (fa_flag_name p) ''flagName'')) (\<lambda>_.
       let lock_name = flag_lock_name (fa_flag_name p)
       in script_bind (Done (validate_flag_name lock_name ''lockName'')) (\<lambda>_.
            try_apply_with_flag_lock p lock_name None))"

subsection \<open>The mutex lock\<close>

datatype lost_reason = LostError string | LostRefused

record lock_handle =
  lh_guard_seconds :: int
  lh_lock_name :: string
  lh_token :: string

text \<open>
  \<^verbatim>\<open>handle.refresh()\<close>: the latch \<open>lost\<close> keeps the first reason, and a lost handle sends nothing.
\<close>

definition mark_lost :: "lost_reason \<Rightarrow> lost_reason option \<Rightarrow> lost_reason option" where
  "mark_lost reason lost = (case lost of None \<Rightarrow> Some reason | Some r \<Rightarrow> Some r)"

definition refresh_handle :: "lock_handle \<Rightarrow> lost_reason option \<Rightarrow> (bool \<times> lost_reason option) script" where
  "refresh_handle handle lost =
     (if lost \<noteq> None then give (False, lost)
      else script_bind (attempt (refresh_flag_lock (lh_guard_seconds handle) (lh_lock_name handle) (lh_token handle)))
        (\<lambda>r. let lost' = (case r of Inl e \<Rightarrow> mark_lost (LostError (exn_message e)) lost
                         | Inr refreshed \<Rightarrow> if refreshed then lost else mark_lost LostRefused lost)
             in give (lost' = None, lost')))"

record wait_failure_context =
  wf_diagnostics :: lock_diagnostics
  wf_lock_name :: string
  wf_lock_path :: string
  wf_stale_threshold :: age_threshold
  wf_wait_seconds :: int

record 'a mutex_parameters =
  mp_describe_wait_failure :: "(wait_failure_context \<Rightarrow> string) option"
  mp_failure_message :: string
  mp_heartbeat :: "int option option"
  mp_holder :: "flag_lock_holder option"
  mp_lock_name :: string
  mp_propagate_section_throws :: bool
  mp_refresh_guard_seconds :: "int option"
  mp_section :: "lock_handle \<Rightarrow> 'a script"
  mp_stale_seconds :: "int option"
  mp_wait_seconds :: "int option"

text \<open>
  \<open>mp_heartbeat\<close> is \<open>None\<close> without a heartbeat, and otherwise the optional interval in
  milliseconds. Parameters with the defaults:
\<close>

definition plain_mutex :: "string \<Rightarrow> string \<Rightarrow> (lock_handle \<Rightarrow> 'a script) \<Rightarrow> 'a mutex_parameters" where
  "plain_mutex failure_message lock_name section_body =
     \<lparr>mp_describe_wait_failure = None, mp_failure_message = failure_message, mp_heartbeat = None,
      mp_holder = None, mp_lock_name = lock_name, mp_propagate_section_throws = False,
      mp_refresh_guard_seconds = None, mp_section = section_body, mp_stale_seconds = None, mp_wait_seconds = None\<rparr>"

definition mutex_lock_heartbeat_interval_milliseconds :: int where
  "mutex_lock_heartbeat_interval_milliseconds = 60000"

definition stale_seconds_of :: "'a mutex_parameters \<Rightarrow> int" where
  "stale_seconds_of p = (case mp_stale_seconds p of None \<Rightarrow> flag_lock_stale_seconds | Some s \<Rightarrow> s)"

definition guard_seconds_of :: "'a mutex_parameters \<Rightarrow> int" where
  "guard_seconds_of p = (case mp_refresh_guard_seconds p of None \<Rightarrow> stale_seconds_of p | Some s \<Rightarrow> s)"

text \<open>A number of milliseconds written as a number of seconds.\<close>

fun strip_zeros :: "string \<Rightarrow> string" where
  "strip_zeros s = (if s \<noteq> [] \<and> last s = CHR ''0'' then strip_zeros (butlast s) else s)"

declare strip_zeros.simps [simp del]

definition three_digits :: "nat \<Rightarrow> string" where
  "three_digits n = [digit_char (n div 100 mod 10), digit_char (n div 10 mod 10), digit_char (n mod 10)]"

definition show_thousandths :: "int \<Rightarrow> string" where
  "show_thousandths n =
     (if n mod 1000 = 0 then show_int (n div 1000)
      else show_int (n div 1000) @ ''.'' @ strip_zeros (three_digits (nat (n mod 1000))))"

definition validate_mutex_lock_timing :: "'a mutex_parameters \<Rightarrow> unit result" where
  "validate_mutex_lock_timing p =
     (case flag_lock_age_threshold (stale_seconds_of p) of
        Inl e \<Rightarrow> Inl e
      | Inr reclaim \<Rightarrow>
          (case flag_lock_age_threshold (guard_seconds_of p) of
             Inl e \<Rightarrow> Inl e
           | Inr guard \<Rightarrow>
               (let reclaim_age = at_effective_age_seconds reclaim; guard_age = at_effective_age_seconds guard
                in if reclaim_age < guard_age
                   then Inl (GenericError (''refreshGuardSeconds must not accept a marker older than the stale threshold: effective guard age ''
                          @ show_int guard_age @ '' s exceeds effective reclaim age '' @ show_int reclaim_age @ '' s''))
                   else (case mp_heartbeat p of
                           None \<Rightarrow> Inr ()
                         | Some interval \<Rightarrow>
                             (let ms = (case interval of None \<Rightarrow> mutex_lock_heartbeat_interval_milliseconds | Some i \<Rightarrow> i)
                              in if guard_age * 1000 \<le> ms
                                 then Inl (GenericError (''heartbeat.intervalMilliseconds must stay below the effective refresh guard age: ''
                                        @ show_thousandths ms @ '' s is not below '' @ show_int guard_age @ '' s''))
                                 else Inr ())))))"

definition validate_mutex_lock_parameters :: "'a mutex_parameters \<Rightarrow> unit result" where
  "validate_mutex_lock_parameters p =
     (case validate_flag_name (mp_lock_name p) ''lockName'' of
        Inl e \<Rightarrow> Inl e
      | Inr _ \<Rightarrow>
          (case validate_optional_holder (mp_holder p) of
             Inl e \<Rightarrow> Inl e
           | Inr _ \<Rightarrow>
               (case mp_heartbeat p of
                  Some (Some interval) \<Rightarrow>
                    (if interval \<le> 0
                     then Inl (GenericError (''heartbeat.intervalMilliseconds must be a positive number, got: '' @ show_int interval))
                     else validate_mutex_lock_timing p)
                | _ \<Rightarrow> validate_mutex_lock_timing p)))"

definition prefix_module_failure :: "string \<Rightarrow> module_result \<Rightarrow> module_result" where
  "prefix_module_failure prefix_text failure =
     failed_result (prefix_text @ '': ''
       @ (case mr_error failure of Some e \<Rightarrow> exn_message e | None \<Rightarrow> ''unknown reason''))"

definition build_wait_failure :: "'a mutex_parameters \<Rightarrow> wait_budget \<Rightarrow> module_result script" where
  "build_wait_failure p b =
     (case mp_describe_wait_failure p of
        None \<Rightarrow> give (failed_result (mp_failure_message p @ '': timed out waiting for mutex lock '' @ mp_lock_name p))
      | Some describe \<Rightarrow>
          script_bind (read_flag_lock_holder_diagnostics (mp_lock_name p)) (\<lambda>diagnostics.
          script_bind (Done (flag_lock_age_threshold (stale_seconds_of p))) (\<lambda>threshold.
            give (failed_result (mp_failure_message p @ '': ''
              @ describe \<lparr>wf_diagnostics = diagnostics, wf_lock_name = mp_lock_name p,
                  wf_lock_path = flag_lock_display_path (mp_lock_name p), wf_stale_threshold = threshold,
                  wf_wait_seconds = wb_total b\<rparr>)))))"

function acquire_mutex :: "'a mutex_parameters \<Rightarrow> wait_budget \<Rightarrow> (module_result + string) script" where
  "acquire_mutex p b =
     script_bind (acquire_flag_lock (mp_lock_name p) (mp_holder p)) (\<lambda>acquired.
       case acquired of
         AcquireFailed failure \<Rightarrow> give (Inl (prefix_module_failure (mp_failure_message p) failure))
       | Acquired token \<Rightarrow> give (Inr token)
       | Contended \<Rightarrow>
           script_bind (wait_for_mutex_lock_round (mp_lock_name p) (stale_seconds_of p) b) (\<lambda>(round, b').
             if round = WaitReleased then acquire_mutex p b'
             else script_bind (build_wait_failure p b') (\<lambda>failure. give (Inl failure))))"
  by pat_completeness auto

termination
proof (relation "measure (\<lambda>(p, b). budget_measure b)", goal_cases)
  case 1
  then show ?case by simp
next
  case (2 p b acquired x round b')
  then show ?case
    using wait_round_released[of b "mp_lock_name p" "stale_seconds_of p"] by (auto simp: returns_def)
qed

declare acquire_mutex.simps [simp del]

text \<open>
  A section that throws becomes a failure, or is thrown again after the release when the caller
  asked for it.
\<close>

definition run_section_capturing_errors ::
  "'a mutex_parameters \<Rightarrow> lock_handle \<Rightarrow> (exn + (module_result + 'a)) script" where
  "run_section_capturing_errors p handle =
     script_bind (attempt (mp_section p handle)) (\<lambda>r.
       give (case r of
               Inr v \<Rightarrow> Inr (Inr v)
             | Inl e \<Rightarrow>
                 (if mp_propagate_section_throws p then Inl e
                  else Inr (Inl (failed_result (mp_failure_message p @ '': '' @ exn_message e))))))"

definition run_mutex_section :: "'a mutex_parameters \<Rightarrow> string \<Rightarrow> (module_result + 'a) script" where
  "run_mutex_section p token =
     (let handle = \<lparr>lh_guard_seconds = guard_seconds_of p, lh_lock_name = mp_lock_name p, lh_token = token\<rparr>
      in script_bind (finally_do (run_section_capturing_errors p handle) (release_quietly (mp_lock_name p) token))
           (\<lambda>outcome. Done outcome))"

definition with_mutex_lock :: "'a mutex_parameters \<Rightarrow> (module_result + 'a) script" where
  "with_mutex_lock p =
     script_bind (Done (validate_mutex_lock_parameters p)) (\<lambda>_.
     script_bind (create_flag_lock_wait_budget
         (case mp_wait_seconds p of None \<Rightarrow> flag_lock_wait_seconds | Some w \<Rightarrow> w)) (\<lambda>b.
     script_bind (acquire_mutex p b) (\<lambda>acquired.
       case acquired of Inl failure \<Rightarrow> give (Inl failure) | Inr token \<Rightarrow> run_mutex_section p token)))"

subsection \<open>The heartbeat\<close>

text \<open>
  The heartbeat beside a section: a timer, a refresh under way, and the stop. \<open>HbTimer\<close> is the
  timer that fires, \<open>HbRefreshed lost\<close> the end of the refresh with the latch afterwards, and
  \<open>HbStop\<close> the call of stop at the end of the section. \<open>hb_sent\<close> counts the refreshes that were
  started.
\<close>

record heartbeat =
  hb_stopped :: bool
  hb_timer :: bool
  hb_in_flight :: bool
  hb_lost :: bool
  hb_sent :: nat

datatype heartbeat_event = HbTimer | HbRefreshed bool | HbStop

definition hb_schedule :: "heartbeat \<Rightarrow> heartbeat" where
  "hb_schedule h = (if hb_stopped h \<or> hb_lost h then h else h\<lparr>hb_timer := True\<rparr>)"

definition start_heartbeat :: "bool \<Rightarrow> heartbeat" where
  "start_heartbeat lost =
     hb_schedule \<lparr>hb_stopped = False, hb_timer = False, hb_in_flight = False, hb_lost = lost, hb_sent = 0\<rparr>"

definition heartbeat_step :: "heartbeat_event \<Rightarrow> heartbeat \<Rightarrow> heartbeat" where
  "heartbeat_step e h =
     (case e of
        HbTimer \<Rightarrow>
          (if hb_timer h then h\<lparr>hb_timer := False, hb_in_flight := True, hb_sent := hb_sent h + 1\<rparr> else h)
      | HbRefreshed lost \<Rightarrow>
          (if hb_in_flight h then hb_schedule (h\<lparr>hb_in_flight := False, hb_lost := hb_lost h \<or> lost\<rparr>) else h)
      | HbStop \<Rightarrow> h\<lparr>hb_stopped := True, hb_timer := False\<rparr>)"

definition stop_resolved :: "heartbeat \<Rightarrow> bool" where
  "stop_resolved h \<longleftrightarrow> hb_stopped h \<and> \<not> hb_in_flight h"

end
