(* ===== verification/LockProtocol.thy ===== *)
theory LockProtocol
  imports MutexLock
begin

text \<open>
  Several runs that compete for one lock. A process acquires the lock, runs its section and
  releases; every command is one step on the server, and the steps of the processes interleave in
  any order. The server is a parameter: \<open>lock_server\<close> states what its file system does for the
  commands of a lock, including commands that fail or whose answer is lost.
\<close>

subsection \<open>The lock on the server\<close>

record lock_dir =
  ld_marker :: "(string \<times> int) option"
  ld_mtime :: int

text \<open>The age that decides about a reclaim: that of the marker, or of the directory without one.\<close>

definition lock_since :: "lock_dir \<Rightarrow> int" where
  "lock_since d = (case ld_marker d of Some (token, mtime) \<Rightarrow> mtime | None \<Rightarrow> ld_mtime d)"

definition answered_ok :: "exec_result result \<Rightarrow> bool" where
  "answered_ok r = (case r of Inl e \<Rightarrow> False | Inr res \<Rightarrow> er_code res = 0)"

definition mkdir_command :: "string \<Rightarrow> string" where "mkdir_command n = ''mkdir '' @ flag_path n"
definition rmdir_command :: "string \<Rightarrow> string" where "rmdir_command n = ''rmdir -- '' @ flag_path n"
definition rm_marker_command :: "string \<Rightarrow> string" where "rm_marker_command n = ''rm -f -- '' @ marker_path n"

text \<open>The commands that write a marker, for any host name or supplied holder.\<close>

definition marker_write_command :: "string \<Rightarrow> string \<Rightarrow> bool" where
  "marker_write_command n c \<longleftrightarrow>
     (\<exists>holder. c = build_flag_lock_holder_marker_write (marker_path n) holder) \<or>
     (\<exists>hostname. c = ''printf '' @ [squote] @ ''%s@%s %s'' @ [backslash] @ ''n'' @ [squote] @ '' '' @ [dquote] @ ''$$'' @ [dquote]
              @ '' '' @ shell_quote hostname @ '' '' @ [dquote] @ ''$(date +%s)'' @ [dquote] @ '' > '' @ marker_path n)"

definition reclaim_command :: "string \<Rightarrow> int \<Rightarrow> string \<Rightarrow> bool" where
  "reclaim_command n stale c \<longleftrightarrow>
     build_stale_flag_lock_reclaim_command (quoted_marker n) (flag_path n) (marker_path n) stale = Inr c"



subsection \<open>Processes\<close>

datatype 'a lock_process =
    Acquiring "(module_result + string) script"
  | InSection string "'a script"
  | Releasing "unit script"
  | Finished

text \<open>One turn of a script: what it sent and was answered, and how it goes on.\<close>

fun script_turn :: "'s host \<Rightarrow> 'a script \<Rightarrow> 's \<Rightarrow> 'a script \<times> (string \<times> exec_result result) option \<times> 's" where
  "script_turn h (Done r) s = (Done r, None, s)"
| "script_turn h (Exec c opts f) s = (case ho_exec h c opts s of (r, s1) \<Rightarrow> (f r, Some (c, r), s1))"
| "script_turn h (WriteFile path content mode f) s = (case ho_write h path content mode s of (r, s1) \<Rightarrow> (f r, None, s1))"
| "script_turn h (Clock f) s = (case ho_now h s of (t, s1) \<Rightarrow> (f t, None, s1))"
| "script_turn h (Local req f) s = (case ho_local h req s of (r, s1) \<Rightarrow> (f r, None, s1))"

text \<open>The stages of \<open>with_mutex_lock\<close> one after the other.\<close>

fun process_turn ::
  "'s host \<Rightarrow> 'a mutex_parameters \<Rightarrow> 'a lock_process \<Rightarrow> 's \<Rightarrow>
   'a lock_process \<times> (string \<times> exec_result result) option \<times> 's" where
  "process_turn h p (Acquiring (Done r)) s =
     ((case r of
         Inr (Inr token) \<Rightarrow>
           InSection token (mp_section p \<lparr>lh_guard_seconds = guard_seconds_of p, lh_lock_name = mp_lock_name p,
             lh_token = token\<rparr>)
       | _ \<Rightarrow> Finished), None, s)"
| "process_turn h p (Acquiring m) s = (case script_turn h m s of (m1, ev, s1) \<Rightarrow> (Acquiring m1, ev, s1))"
| "process_turn h p (InSection token (Done r)) s = (Releasing (release_quietly (mp_lock_name p) token), None, s)"
| "process_turn h p (InSection token m) s = (case script_turn h m s of (m1, ev, s1) \<Rightarrow> (InSection token m1, ev, s1))"
| "process_turn h p (Releasing (Done r)) s = (Finished, None, s)"
| "process_turn h p (Releasing m) s = (case script_turn h m s of (m1, ev, s1) \<Rightarrow> (Releasing m1, ev, s1))"
| "process_turn h p Finished s = (Finished, None, s)"

text \<open>
  \<open>lc_owner\<close> is an auxiliary variable: the process that made the directory which is there now, from
  its \<^verbatim>\<open>mkdir\<close> to its release, its clean-up after a failure, or its end.
\<close>

record ('a, 's) lock_config =
  lc_procs :: "nat \<Rightarrow> 'a lock_process"
  lc_owner :: "nat option"
  lc_server :: 's

definition next_owner ::
  "string \<Rightarrow> nat \<Rightarrow> 'a lock_process \<Rightarrow> 'a lock_process \<Rightarrow> (string \<times> exec_result result) option \<Rightarrow> nat option \<Rightarrow> nat option" where
  "next_owner n i before after ev owner =
     (let gone = (if owner = Some i then None else owner)
      in case after of
           Finished \<Rightarrow> gone
         | _ \<Rightarrow> (case ev of
                    None \<Rightarrow> owner
                  | Some (c, r) \<Rightarrow>
                      (if c = mkdir_command n \<and> answered_ok r then Some i
                       else if c = rmdir_command n then gone
                       else (case before of Releasing _ \<Rightarrow> gone | _ \<Rightarrow> owner))))"

text \<open>An owner that has neither finished nor refreshed its marker for the stale time is late.\<close>

definition timely :: "int \<Rightarrow> ('s \<Rightarrow> lock_dir option) \<Rightarrow> ('s \<Rightarrow> int) \<Rightarrow> ('a, 's) lock_config \<Rightarrow> bool" where
  "timely stale view now c \<longleftrightarrow>
     (case (lc_owner c, view (lc_server c), flag_lock_age_threshold stale) of
        (Some i, Some d, Inr t) \<Rightarrow> now (lc_server c) - lock_since d \<le> at_effective_age_seconds t
      | _ \<Rightarrow> True)"

text \<open>
  A process takes a turn, a process dies and leaves its lock behind, or the server changes without
  touching the lock (time passes, other programs run).
\<close>

inductive lock_step ::
  "string \<Rightarrow> int \<Rightarrow> 's host \<Rightarrow> ('s \<Rightarrow> lock_dir option) \<Rightarrow> ('s \<Rightarrow> int) \<Rightarrow> (nat \<Rightarrow> 'a mutex_parameters) \<Rightarrow>
   ('a, 's) lock_config \<Rightarrow> ('a, 's) lock_config \<Rightarrow> bool"
  for n :: string and stale :: int and h :: "'s host" and view :: "'s \<Rightarrow> lock_dir option" and now :: "'s \<Rightarrow> int"
    and ps :: "nat \<Rightarrow> 'a mutex_parameters"
where
  turn: "timely stale view now c \<Longrightarrow>
    process_turn h (ps i) (lc_procs c i) (lc_server c) = (p1, ev, s1) \<Longrightarrow>
    lock_step n stale h view now ps c
      \<lparr>lc_procs = (lc_procs c)(i := p1), lc_owner = next_owner n i (lc_procs c i) p1 ev (lc_owner c), lc_server = s1\<rparr>"
| death: "lock_step n stale h view now ps c
      (c\<lparr>lc_procs := (lc_procs c)(i := Finished), lc_owner := (if lc_owner c = Some i then None else lc_owner c)\<rparr>)"
| environment: "view s1 = view (lc_server c) \<Longrightarrow> lock_step n stale h view now ps c (c\<lparr>lc_server := s1\<rparr>)"



subsection \<open>Scripts that keep to the protocol\<close>

text \<open>
  \<open>obeys n stale N Q m own\<close>: run by a process that owns the lock when \<open>own\<close>, the script sends only
  what its ownership allows, and ends with \<open>Q\<close> of its outcome and the ownership then.
\<close>

primrec obeys :: "string \<Rightarrow> int \<Rightarrow> string set \<Rightarrow> ('a result \<Rightarrow> bool \<Rightarrow> bool) \<Rightarrow> 'a script \<Rightarrow> bool \<Rightarrow> bool" where
  "obeys n stale N Q (Done r) own = Q r own"
| "obeys n stale N Q (Exec c opts f) own =
     ((c = mkdir_command n \<and> \<not> own \<and> (\<forall>r. obeys n stale N Q (f r) (answered_ok r))) \<or>
      ((marker_write_command n c \<or> c = rm_marker_command n) \<and> own \<and> (\<forall>r. obeys n stale N Q (f r) True)) \<or>
      (c = rmdir_command n \<and> own \<and> (\<forall>r. obeys n stale N Q (f r) False)) \<or>
      (reclaim_command n stale c \<and> \<not> own \<and> (\<forall>r. obeys n stale N Q (f r) False)) \<or>
      (c \<in> N \<and> c \<noteq> mkdir_command n \<and> c \<noteq> rmdir_command n \<and> (\<forall>r. obeys n stale N Q (f r) own)))"
| "obeys n stale N Q (WriteFile path content mode f) own = (\<forall>r. obeys n stale N Q (f r) own)"
| "obeys n stale N Q (Clock f) own = (\<forall>t. obeys n stale N Q (f t) own)"
| "obeys n stale N Q (Local req f) own = (\<forall>r. obeys n stale N Q (f r) own)"

primrec sends_only :: "string set \<Rightarrow> 'a script \<Rightarrow> bool" where
  "sends_only N (Done r) = True"
| "sends_only N (Exec c opts f) = (c \<in> N \<and> (\<forall>r. sends_only N (f r)))"
| "sends_only N (WriteFile path content mode f) = (\<forall>r. sends_only N (f r))"
| "sends_only N (Clock f) = (\<forall>t. sends_only N (f t))"
| "sends_only N (Local req f) = (\<forall>r. sends_only N (f r))"




lemma sends_only_obeys:
  "sends_only N m \<Longrightarrow> mkdir_command n \<notin> N \<Longrightarrow> rmdir_command n \<notin> N \<Longrightarrow> obeys n stale N (\<lambda>r own'. own' = own) m own"
  by (induction m) auto

text \<open>No command of the protocol is taken for another one.\<close>

lemma command_heads [simp]:
  "mkdir_command n \<noteq> rmdir_command n" "rmdir_command n \<noteq> mkdir_command n"
  "rm_marker_command n \<noteq> mkdir_command n" "rm_marker_command n \<noteq> rmdir_command n"
  "mkdir_command n \<noteq> rm_marker_command n" "rmdir_command n \<noteq> rm_marker_command n"
  by (simp_all add: mkdir_command_def rmdir_command_def rm_marker_command_def)





























subsection \<open>Mutual exclusion\<close>






lemma release_heads [simp]: "release_command n token \<noteq> mkdir_command n" "release_command n token \<noteq> rmdir_command n"
  by (simp_all add: release_command_def mkdir_command_def rmdir_command_def)



















end
