(* ===== verification/LockBounds.thy ===== *)
theory LockBounds
  imports LockProtocol
begin

text \<open>
  How many commands waiting for a lock can take, whatever the server answers and whatever the
  clock does, and what becomes of a section.
\<close>

text \<open>\<open>spends P k m\<close>: after \<open>k\<close> commands so far, the script ends with \<open>P\<close> of the count and the outcome.\<close>

primrec spends :: "(nat \<Rightarrow> 'a result \<Rightarrow> bool) \<Rightarrow> nat \<Rightarrow> 'a script \<Rightarrow> bool" where
  "spends P k (Done r) = P k r"
| "spends P k (Exec c opts f) = (\<forall>r. spends P (Suc k) (f r))"
| "spends P k (WriteFile path content mode f) = (\<forall>r. spends P (Suc k) (f r))"
| "spends P k (Clock f) = (\<forall>t. spends P k (f t))"
| "spends P k (Local req f) = (\<forall>r. spends P k (f r))"

lemma spends_bind:
  "spends (\<lambda>k r. case r of Inl e \<Rightarrow> P k (Inl e) | Inr x \<Rightarrow> spends P k (g x)) k m \<Longrightarrow> spends P k (script_bind m g)"
proof (induction m arbitrary: k)
  case (Done r)
  then show ?case by (cases r) simp_all
qed auto

lemma spends_catch:
  "spends (\<lambda>k r. case r of Inl e \<Rightarrow> spends P k (g e) | Inr x \<Rightarrow> P k (Inr x)) k m \<Longrightarrow> spends P k (script_catch m g)"
proof (induction m arbitrary: k)
  case (Done r)
  then show ?case by (cases r) simp_all
qed auto

lemma spends_mono: "spends P k m \<Longrightarrow> (\<And>j r. P j r \<Longrightarrow> Q j r) \<Longrightarrow> spends Q k m"
  by (induction m arbitrary: k) auto

lemma spends_values:
  "spends P k m \<Longrightarrow> spends (\<lambda>j r. P j r \<and> (\<forall>x. r = Inr x \<longrightarrow> x \<in> set_script m)) k m"
proof (induction m arbitrary: k)
  case (Exec c opts f)
  have "spends (\<lambda>j r. P j r \<and> (\<forall>x. r = Inr x \<longrightarrow> x \<in> set_script (Exec c opts f))) (Suc k) (f r)" for r
    by (rule spends_mono[OF Exec(1)[OF rangeI]]) (use Exec(2) in auto)
  then show ?case by simp
next
  case (WriteFile path content mode f)
  have "spends (\<lambda>j r. P j r \<and> (\<forall>x. r = Inr x \<longrightarrow> x \<in> set_script (WriteFile path content mode f))) (Suc k) (f r)" for r
    by (rule spends_mono[OF WriteFile(1)[OF rangeI]]) (use WriteFile(2) in auto)
  then show ?case by simp
next
  case (Clock f)
  have "spends (\<lambda>j r. P j r \<and> (\<forall>x. r = Inr x \<longrightarrow> x \<in> set_script (Clock f))) k (f t)" for t
    by (rule spends_mono[OF Clock(1)[OF rangeI]]) (use Clock(2) in auto)
  then show ?case by simp
next
  case (Local req f)
  have "spends (\<lambda>j r. P j r \<and> (\<forall>x. r = Inr x \<longrightarrow> x \<in> set_script (Local req f))) k (f t)" for t
    by (rule spends_mono[OF Local(1)[OF rangeI]]) (use Local(2) in auto)
  then show ?case by simp
qed simp

text \<open>A script of at most \<open>n\<close> commands, followed by one whose bound may depend on its value.\<close>

lemma spends_then:
  assumes "spends (\<lambda>j r. j \<le> k + n) k m"
    and "\<And>x j. x \<in> set_script m \<Longrightarrow> j \<le> k + n \<Longrightarrow> spends P j (g x)" and "\<And>e j. j \<le> k + n \<Longrightarrow> P j (Inl e)"
  shows "spends P k (script_bind m g)"
  by (rule spends_bind, rule spends_mono[OF spends_values[OF assms(1)]]) (use assms(2,3) in \<open>auto split: sum.split\<close>)

lemma spends_exec: "spends (\<lambda>j r. j \<le> k + 1) k (exec_script c opts)"
  by (simp add: exec_script_def)

lemma spends_clock: "spends (\<lambda>j r. j \<le> k + 0) k clock_script"
  by (simp add: clock_script_def)

lemma spends_local:
  "spends (\<lambda>j r. j \<le> k + 0) k (is_exhausted b)" "spends (\<lambda>j r. j \<le> k + 0) k (next_poll_seconds b)"
  "spends (\<lambda>j r. j \<le> k + 0) k (record_round still_held p st b)"
  by (simp_all add: is_exhausted_def next_poll_seconds_def record_round_def clock_script_def)

lemma spends_reclaim: "spends (\<lambda>j r. j \<le> k + 1) k (try_reclaim_stale_flag_lock n stale)"
  by (simp add: try_reclaim_stale_flag_lock_def exec_script_def split: sum.split)

lemma spends_initial: "spends (\<lambda>j r. j \<le> k + 1) k (try_initial_reclaim n stale b)"
  unfolding try_initial_reclaim_def
  by (auto intro!: spends_then[OF spends_reclaim])

lemma spends_write_command: "spends (\<lambda>j r. j \<le> k + 1) k (holder_marker_write_command marker holder)"
  by (cases holder) (auto simp: holder_marker_write_command_def output_script_def exec_script_def split: sum.split)

lemma spends_cleanup:
  "spends (\<lambda>j r. j \<le> k + 1) k (remove_lock_directory n)" "spends (\<lambda>j r. j \<le> k + 1) k (remove_marker n)"
  "spends (\<lambda>j r. j \<le> k + 1) k (read_back_token n)"
  by (simp_all add: remove_lock_directory_def remove_marker_def read_back_token_def exec_script_def split: sum.split)

lemma spends_write_marker: "spends (\<lambda>j r. j \<le> k + 5) k (write_flag_lock_holder_marker n holder)"
  unfolding write_flag_lock_holder_marker_def
  by (auto intro!: spends_then[OF spends_write_command] spends_then[OF spends_exec] spends_then[OF spends_cleanup(1)]
        spends_then[OF spends_cleanup(2)] spends_then[OF spends_cleanup(3)] simp: Let_def split: sum.split)

lemma spends_ensure: "spends (\<lambda>j r. j \<le> k + 1) k ensure_flags_directory"
  unfolding ensure_flags_directory_def
  by (auto intro!: spends_then[OF spends_exec] split: sum.split)

lemma spends_acquire_flag:
  "spends (\<lambda>j r. j \<le> k + 7 \<and> (r = Inr Contended \<longrightarrow> j \<le> k + 2)) k (acquire_flag_lock n holder)"
proof -
  have made: "spends (\<lambda>j r. j \<le> k + 7 \<and> (r = Inr Contended \<longrightarrow> j \<le> k + 2)) i
      (script_bind (write_flag_lock_holder_marker n holder) (\<lambda>marker.
         case marker of Inl failure \<Rightarrow> give (AcquireFailed failure) | Inr token \<Rightarrow> give (Acquired token)))"
    if "i \<le> k + 2" for i
    by (rule spends_then[OF spends_write_marker]) (use that in \<open>auto split: sum.split\<close>)
  show ?thesis
    unfolding acquire_flag_lock_def
    by (auto intro!: spends_then[OF spends_ensure] spends_then[OF spends_exec] made[simplified] split: sum.split option.split)
qed

text \<open>Each round costs at most three commands and takes from the budget what it costs.\<close>

definition wait_cost :: "nat \<Rightarrow> wait_budget \<Rightarrow> nat \<Rightarrow> (wait_outcome \<times> wait_budget) result \<Rightarrow> bool" where
  "wait_cost k b j r \<longleftrightarrow>
     (case r of
        Inr (WaitReleased, b') \<Rightarrow> budget_measure b' < budget_measure b \<and> j + 3 * budget_measure b' \<le> k + 3 * budget_measure b
      | _ \<Rightarrow> j \<le> k + 3 * budget_measure b)"

lemma wait_cost_step:
  assumes "budget_measure b2 < budget_measure b" and "i \<le> k + 3" and "wait_cost i b2 j r"
  shows "wait_cost k b j r"
  using assms by (auto simp: wait_cost_def split: sum.splits prod.splits wait_outcome.splits)

lemma spends_wait: "spends (wait_cost k b) k (wait_for_mutex_lock_round n stale b)"
proof (induction n stale b arbitrary: k rule: wait_for_mutex_lock_round.induct)
  case (1 n stale b)
  have less: "budget_measure b2 < budget_measure b"
    if "False \<in> set_script (is_exhausted b)" "(False, b1) \<in> set_script (try_initial_reclaim n stale b)"
      "b2 \<in> set_script (record_round h p st b1)" for b1 b2 h p st
    using that(1) exhausted_False[of b] initial_reclaim_measure[OF that(2)] record_round_measure[OF that(3)]
    by (auto simp: budget_measure_def)
  have first: "budget_measure b1 < budget_measure b"
    if "(True, b1) \<in> set_script (try_initial_reclaim n stale b)" for b1
    using initial_reclaim_measure[OF that] by (auto simp: budget_measure_def)
  have pos: "0 < budget_measure b" if "False \<in> set_script (is_exhausted b)"
    using exhausted_False[OF that] by (auto simp: budget_measure_def)
  have released: "wait_cost k b j (Inr (WaitReleased, b2))"
    if "budget_measure b2 < budget_measure b" "j \<le> k + 3" for j b2
    using that by (auto simp: wait_cost_def)
  have failed: "wait_cost k b j (Inl e)" if "False \<in> set_script (is_exhausted b) \<or> j \<le> k" "j \<le> k + 3" for j e
    using that pos by (auto simp: wait_cost_def)
  have again: "spends (wait_cost k b) i (wait_for_mutex_lock_round n stale b2)"
    if "i \<le> k + 3"
      "False \<in> set_script (is_exhausted b)" "(False, b1) \<in> set_script (try_initial_reclaim n stale b)"
      "p \<in> set_script (next_poll_seconds b1)" "st \<in> set_script clock_script"
      "probe \<in> set_script (exec_script (mutex_poll_command n p) probe_exec)"
      "b2 \<in> set_script (record_round True p st b1)" "er_code probe \<noteq> 0"
      "False \<in> set_script (try_reclaim_stale_flag_lock n stale)" for i b1 p st probe b2
  proof -
    have "b2 \<in> set_script (record_round (er_code probe \<noteq> 0) p st b1)" using that(7,8) by simp
    from 1[OF that(2) _ that(3) refl _ that(4-6) this that(8,9), of i]
    have "spends (wait_cost i b2) i (wait_for_mutex_lock_round n stale b2)" by simp
    then show ?thesis by (rule spends_mono) (rule wait_cost_step[OF less[OF that(2,3,7)] that(1)])
  qed
  have spent: "wait_cost k b j (Inr (WaitExhausted, b))" if "j \<le> k" for j
    using that by (simp add: wait_cost_def)
  show ?case
    by (subst wait_for_mutex_lock_round.simps)
       (auto intro!: spends_then[OF spends_local(1)] spends_then[OF spends_initial] spends_then[OF spends_local(2)]
          spends_then[OF spends_clock] spends_then[OF spends_exec] spends_then[OF spends_local(3)]
          spends_then[OF spends_reclaim] spent failed released simp del: script_bind.simps split: prod.split;
        (blast intro: less first | (rule again; (assumption | linarith))))
qed

text \<open>
  C21: waiting for a lock is bounded by its budget alone: whatever the server answers, however its
  clock runs and however often another run wins the race for a released lock, acquiring sends
  at most seven commands and five more for every second of the wait window and its two extra
  rounds, and returns.
\<close>

theorem lock_wait_is_bounded:
  "spends (\<lambda>j r. j \<le> 7 + 5 * (nat (wb_total b - wb_consumed b) + 2)) 0 (acquire_mutex p b)"
proof -
  have "spends (\<lambda>j r. j \<le> k + 7 + 5 * budget_measure b) k (acquire_mutex p b)" for k
  proof (induction p b arbitrary: k rule: acquire_mutex.induct)
    case (1 p b)
    note IH = 1
    let ?P = "\<lambda>j (r :: (module_result + string) result). j \<le> k + 7 + 5 * budget_measure b"
    have failure: "spends ?P i (script_bind (build_wait_failure p b') (\<lambda>failure. give (Inl failure)))"
      if "i \<le> k + 2 + 3 * budget_measure b" for i b'
    proof -
      have "spends (\<lambda>j r. j \<le> i + 1) i (build_wait_failure p b')"
        by (auto simp: build_wait_failure_def read_flag_lock_holder_diagnostics_def Let_def exec_script_def
            split: option.split sum.split)
      then show ?thesis by (rule spends_then) (use that in auto)
    qed
    have contended: "spends ?P i
        (script_bind (wait_for_mutex_lock_round (mp_lock_name p) (stale_seconds_of p) b) (\<lambda>(round, b').
             if round = WaitReleased then acquire_mutex p b'
             else script_bind (build_wait_failure p b') (\<lambda>failure. give (Inl failure))))"
      if i: "i \<le> k + 2" and c: "Contended \<in> set_script (acquire_flag_lock (mp_lock_name p) (mp_holder p))" for i
    proof (rule spends_bind, rule spends_mono[OF spends_values[OF spends_wait]], goal_cases)
      case (1 j r)
      show ?case
      proof (cases r)
        case (Inl e)
        then show ?thesis using 1 i by (simp add: wait_cost_def)
      next
        case (Inr x)
        obtain round b' where x: "x = (round, b')" by (cases x)
        show ?thesis
        proof (cases round)
          case WaitExhausted
          then show ?thesis using 1 i Inr x failure[of j b'] by (simp add: wait_cost_def)
        next
          case WaitReleased
          have mem: "(WaitReleased, b') \<in> set_script (wait_for_mutex_lock_round (mp_lock_name p) (stale_seconds_of p) b)"
            using 1 Inr x WaitReleased by simp
          have "j + 3 * budget_measure b' \<le> i + 3 * budget_measure b" "budget_measure b' < budget_measure b"
            using 1 Inr x WaitReleased by (simp_all add: wait_cost_def)
          then have "spends ?P j (acquire_mutex p b')"
            using i by (intro spends_mono[OF IH[OF c refl mem refl refl]]) auto
          then show ?thesis using Inr x WaitReleased by simp
        qed
      qed
    qed
    show ?case
      by (subst acquire_mutex.simps, rule spends_bind, rule spends_mono[OF spends_values[OF spends_acquire_flag]])
         (auto simp del: script_bind.simps split: sum.split acquire_result.split intro!: contended)
  qed
  from this[of 0] show ?thesis by (rule spends_mono) (auto simp: budget_measure_def split: if_splits)
qed

text \<open>
  Once the stop of a heartbeat has resolved, no event starts another refresh, so no refresh can
  touch the marker after the release.
\<close>

lemma heartbeat_timer_off: "hb_stopped h \<longrightarrow> \<not> hb_timer h \<Longrightarrow>
    hb_stopped (heartbeat_step e h) \<longrightarrow> \<not> hb_timer (heartbeat_step e h)"
  by (auto simp: heartbeat_step_def hb_schedule_def split: heartbeat_event.split)

lemma heartbeat_silent_after_stop:
  "hb_stopped h \<longrightarrow> \<not> hb_timer h \<Longrightarrow> stop_resolved h \<Longrightarrow>
   hb_sent (fold heartbeat_step es h) = hb_sent h \<and> stop_resolved (fold heartbeat_step es h)"
proof (induction es arbitrary: h)
  case (Cons e es)
  have "hb_sent (heartbeat_step e h) = hb_sent h" "stop_resolved (heartbeat_step e h)"
    using Cons(2,3) by (auto simp: heartbeat_step_def stop_resolved_def hb_schedule_def split: heartbeat_event.split)
  then show ?case using Cons(1)[OF heartbeat_timer_off[OF Cons(2)]] by simp
qed simp

end
