(* ===== verification/ModuleScript.thy ===== *)
theory ModuleScript
  imports Script Builtins
begin

text \<open>
  What the modules that edit files on the server share: a module as scripts for its check and its
  apply, operations on lines, and the contract of an editor. An editor computes the new document
  or nothing when there is nothing to write, and its verdict is what the check reports; the
  locale \<open>file_editor\<close> states that the two agree, and \<open>framed_editor\<close> that the parts of the
  document that are not the editor's stay as they are.
\<close>

subsection \<open>Modules as scripts\<close>

text \<open>
  \<open>sm_missing\<close> is the message of the failure without a connection; the check then says that
  the module needs its apply, and a dry run that it would change.
\<close>

record script_module =
  sm_name :: string
  sm_missing :: string
  sm_check :: "check_result script"
  sm_apply :: "module_result script"
  sm_dry_run :: "module_result script option"

definition module_of_script :: "'w run_state host \<Rightarrow> script_module \<Rightarrow> 'w module" where
  "module_of_script h m =
     LeafModule ((plain_core (sm_name m)
         (\<lambda>conn env st. case conn of NoConnection \<Rightarrow> (Inr NeedsApply, st) | Connection \<Rightarrow> run_script h (sm_check m) st)
         (\<lambda>conn env opts st. case conn of
              NoConnection \<Rightarrow> (Inr (failed_result (sm_missing m)), st)
            | Connection \<Rightarrow> run_script h (sm_apply m) st))
       \<lparr>mc_dry_run_diff_producer := (sm_dry_run m \<noteq> None),
        mc_apply_dry_run := map_option (\<lambda>dry conn env opts st. case conn of
              NoConnection \<Rightarrow> (Inr (plain_result StChanged), st)
            | Connection \<Rightarrow> run_script h dry st) (sm_dry_run m)\<rparr>)"

subsection \<open>Lines\<close>

text \<open>\<^verbatim>\<open>lines[i]\<close>, which is undefined past the end; \<^verbatim>\<open>findIndex\<close>; and \<^verbatim>\<open>splice\<close>.\<close>

definition line_at :: "'a list \<Rightarrow> nat \<Rightarrow> 'a option" where
  "line_at xs i = (if i < length xs then Some (xs ! i) else None)"

fun find_index :: "('a \<Rightarrow> bool) \<Rightarrow> 'a list \<Rightarrow> nat option" where
  "find_index P [] = None"
| "find_index P (x # xs) = (if P x then Some 0 else map_option Suc (find_index P xs))"

definition splice_at :: "nat \<Rightarrow> nat \<Rightarrow> 'a list \<Rightarrow> 'a list \<Rightarrow> 'a list" where
  "splice_at i n new xs = take i xs @ new @ drop (i + n) xs"

lemma line_at_simps [simp]:
  "line_at [] i = None" "line_at (x # xs) 0 = Some x" "line_at (x # xs) (Suc i) = line_at xs i"
  by (simp_all add: line_at_def)

lemma line_at_append [simp]: "line_at (xs @ ys) (length xs + i) = line_at ys i" "line_at (xs @ ys) (length xs) = line_at ys 0"
  by (simp_all add: line_at_def nth_append)

lemma line_at_Suc_append [simp]: "line_at (xs @ ys) (Suc (length xs)) = line_at ys 1"
  using line_at_append(1)[of xs ys 1] by simp

lemma find_index_None: "find_index P xs = None \<longleftrightarrow> (\<forall>x \<in> set xs. \<not> P x)"
  by (induction xs) auto

lemma find_index_Some:
  "find_index P xs = Some i \<Longrightarrow>
   \<exists>pre x post. xs = pre @ x # post \<and> length pre = i \<and> P x \<and> (\<forall>y \<in> set pre. \<not> P y)"
proof (induction xs arbitrary: i)
  case (Cons z zs)
  show ?case
  proof (cases "P z")
    case True
    then show ?thesis using Cons(2) by (intro exI[of _ "[]"]) auto
  next
    case False
    then obtain k where k: "find_index P zs = Some k" "i = Suc k" using Cons(2) by auto
    obtain pre x post where "zs = pre @ x # post" "length pre = k" "P x" "\<forall>y \<in> set pre. \<not> P y"
      using Cons(1)[OF k(1)] by blast
    then show ?thesis using False k(2) by (intro exI[of _ "z # pre"] exI[of _ x] exI[of _ post]) auto
  qed
qed simp

lemma find_index_append: "\<forall>y \<in> set pre. \<not> P y \<Longrightarrow> P x \<Longrightarrow> find_index P (pre @ x # post) = Some (length pre)"
  by (induction pre) auto

lemma find_index_cases [case_names Absent Found]:
  obtains "find_index P xs = None" "\<forall>x \<in> set xs. \<not> P x"
  | pre x post where "find_index P xs = Some (length pre)" "xs = pre @ x # post" "P x" "\<forall>y \<in> set pre. \<not> P y"
  using find_index_None[of P xs] find_index_Some[of P xs] by (cases "find_index P xs") auto

lemma splice_at_append [simp]: "splice_at (length pre) n new (pre @ post) = pre @ new @ drop n post"
  by (simp add: splice_at_def)

lemma splice_at_Suc_append [simp]:
  "splice_at (Suc (length pre)) n new (pre @ x # post) = pre @ x # new @ drop n post"
  using splice_at_append[of "pre @ [x]" n new post] by simp

text \<open>A text that ends without white space is what trimming its end leaves of the written file.\<close>

lemma trim_end_id: "s \<noteq> [] \<Longrightarrow> \<not> js_space (last s) \<Longrightarrow> trim_end s = s"
  by (simp add: trim_end_def dropWhile_id hd_rev)

lemma trim_end_newline: "trim_end (s @ [newline]) = trim_end s"
  by (simp add: trim_end_def js_space_def char_between_def code_def)

lemma last_join: "ls \<noteq> [] \<Longrightarrow> last ls \<noteq> [] \<Longrightarrow> join_with sep ls \<noteq> [] \<and> last (join_with sep ls) = last (last ls)"
  by (induction sep ls rule: join_with.induct) auto

lemma read_back_lines:
  assumes "ls \<noteq> []" and "list_all (\<lambda>l. newline \<notin> set l) ls" and "last ls \<noteq> []" and "\<not> js_space (last (last ls))"
  shows "split_on newline (trim_end (join_with [newline] ls @ [newline])) = ls"
  using assms last_join[OF assms(1,3)] by (simp add: trim_end_newline trim_end_id split_on_join)

subsection \<open>The contract of an editor\<close>

locale file_editor =
  fixes edit :: "'d \<Rightarrow> 'd option"
    and verdict :: "'d \<Rightarrow> check_result"
    and proper :: "'d \<Rightarrow> bool"
  assumes edit_proper: "proper d \<Longrightarrow> edit d = Some e \<Longrightarrow> proper e"
    and edit_settles: "proper d \<Longrightarrow> edit d = Some e \<Longrightarrow> verdict e = CheckOk"
    and no_edit_ok: "proper d \<Longrightarrow> edit d = None \<Longrightarrow> verdict d = CheckOk"
    and ok_keeps: "proper d \<Longrightarrow> verdict d = CheckOk \<Longrightarrow> edit d = None \<or> edit d = Some d"
begin

definition outcome :: "'d \<Rightarrow> 'd" where
  "outcome d = (case edit d of None \<Rightarrow> d | Some e \<Rightarrow> e)"

lemma outcome_proper: "proper d \<Longrightarrow> proper (outcome d)"
  by (auto simp: outcome_def dest: edit_proper split: option.split)

lemma outcome_ok: "proper d \<Longrightarrow> verdict (outcome d) = CheckOk"
  by (auto simp: outcome_def dest: edit_settles no_edit_ok split: option.split)

lemma ok_outcome: "proper d \<Longrightarrow> verdict d = CheckOk \<Longrightarrow> outcome d = d"
  using ok_keeps[of d] by (auto simp: outcome_def split: option.split)

lemma outcome_idem: "proper d \<Longrightarrow> outcome (outcome d) = outcome d"
  by (intro ok_outcome outcome_proper outcome_ok)

lemma check_predicts: "proper d \<Longrightarrow> (outcome d = d) = (verdict d = CheckOk)"
  using outcome_ok[of d] ok_outcome[of d] by auto

end

locale framed_editor = file_editor edit verdict proper
  for edit :: "'d \<Rightarrow> 'd option" and verdict :: "'d \<Rightarrow> check_result" and proper :: "'d \<Rightarrow> bool" +
  fixes foreign :: "'d \<Rightarrow> 'f"
  assumes edit_foreign: "proper d \<Longrightarrow> edit d = Some e \<Longrightarrow> foreign e = foreign d"
begin

lemma outcome_foreign: "proper d \<Longrightarrow> foreign (outcome d) = foreign d"
  by (auto simp: outcome_def dest: edit_foreign split: option.split)

text \<open>What a run of the editor leaves: converged, stable, and with the foreign parts untouched.\<close>

lemma outcome_spec:
  "proper d \<Longrightarrow> verdict (outcome d) = CheckOk \<and> outcome (outcome d) = outcome d \<and> foreign (outcome d) = foreign d"
  by (simp add: outcome_ok outcome_idem outcome_foreign)

end

end
