(* ===== verification/Cron.thy ===== *)
theory Cron
  imports ModuleScript MutexLock LineDiff
begin

text \<open>
  Cron jobs (\<^verbatim>\<open>modules/cron.ts\<close>, \<^verbatim>\<open>cronMutation.ts\<close>, \<^verbatim>\<open>cronWarningHelpers.ts\<close>,
  \<^verbatim>\<open>posixNames.ts\<close>): a managed job is a marker comment with the SHA-256 of the job, and the job on
  the line below it. The hash is the parameter \<open>sha\<close>, from a text to hexadecimal digits.
\<close>

subsection \<open>Names\<close>

fun user_name_rest :: "string \<Rightarrow> bool" where
  "user_name_rest [] = True"
| "user_name_rest (c # cs) =
     (if is_lower c \<or> is_digit c \<or> c = CHR ''_'' \<or> c = CHR ''-'' then user_name_rest cs
      else c = CHR ''$'' \<and> cs = [])"

definition user_name_pattern :: "string \<Rightarrow> bool" where
  "user_name_pattern name = (case name of [] \<Rightarrow> False | c # cs \<Rightarrow> (is_lower c \<or> c = CHR ''_'') \<and> user_name_rest cs)"

definition assert_valid_user_name :: "string \<Rightarrow> unit result" where
  "assert_valid_user_name name =
     (if user_name_pattern name then Inr ()
      else Inl (GenericError (''user name '' @ json_stringify name @ '' is invalid'')))"

definition assert_valid_group_name :: "string \<Rightarrow> unit result" where
  "assert_valid_group_name grp =
     (if user_name_pattern grp then Inr ()
      else Inl (GenericError (''group name '' @ json_stringify grp @ '' is invalid'')))"

definition cron_name_pattern :: "string \<Rightarrow> bool" where
  "cron_name_pattern name \<longleftrightarrow> name \<noteq> [] \<and> list_all (\<lambda>c. is_word c \<or> c = CHR ''.'' \<or> c = CHR ''-'') name"

definition assert_cron_name :: "string \<Rightarrow> unit result" where
  "assert_cron_name name =
     (if name = [] \<or> js_includes name ''..'' \<or> \<not> cron_name_pattern name
      then Inl (GenericError (''cron: name must match /^['' @ [backslash] @ ''w.'' @ [backslash] @ ''-]+$/v and must not contain ''
             @ [squote] @ ''..'' @ [squote] @ '', got: '' @ json_stringify name))
      else Inr ())"

subsection \<open>Markers\<close>

definition marker_hash_tag :: string where "marker_hash_tag = '' sha256=''"
definition marker_prefix :: string where "marker_prefix = ''# paratix: ''"

definition render_marker_line :: "(string \<Rightarrow> string) \<Rightarrow> string \<Rightarrow> string \<Rightarrow> string" where
  "render_marker_line sha name cron_job = marker_prefix @ name @ marker_hash_tag @ sha cron_job"

definition is_hex_lower :: "char \<Rightarrow> bool" where
  "is_hex_lower c \<longleftrightarrow> is_digit c \<or> char_between 97 102 c"

definition hex_digest :: "string \<Rightarrow> bool" where
  "hex_digest d \<longleftrightarrow> length d = 64 \<and> list_all is_hex_lower d"

definition read_marker_digest :: "string \<Rightarrow> string option" where
  "read_marker_digest marker_line =
     (case find_text marker_hash_tag marker_line of
        None \<Rightarrow> None
      | Some i \<Rightarrow>
          (let digest = trim (drop (i + length marker_hash_tag) marker_line)
           in if hex_digest digest then Some digest else None))"

definition is_marker :: "string \<Rightarrow> string \<Rightarrow> bool" where
  "is_marker name line \<longleftrightarrow>
     line = marker_prefix @ name \<or> starts_with line (marker_prefix @ name @ marker_hash_tag)"

definition find_marker_index :: "string list \<Rightarrow> string \<Rightarrow> nat option" where
  "find_marker_index lines name = find_index (is_marker name) lines"

definition has_marked_job :: "string list \<Rightarrow> string \<Rightarrow> string \<Rightarrow> bool" where
  "has_marked_job lines name cron_job =
     (case find_marker_index lines name of
        None \<Rightarrow> False
      | Some i \<Rightarrow> line_at lines (i + 1) = Some cron_job)"

definition find_orphan_duplicate_index :: "string list \<Rightarrow> string \<Rightarrow> nat option \<Rightarrow> nat option" where
  "find_orphan_duplicate_index lines cron_job marker_index =
     (let managed = map_option Suc marker_index
      in find_index (\<lambda>(line, i). Some i \<noteq> managed \<and> line = cron_job) (zip lines [0..<length lines]))"

definition compute_cron_job_present_verdict ::
  "string \<Rightarrow> bool \<Rightarrow> string list \<Rightarrow> string \<Rightarrow> nat option \<Rightarrow> check_result" where
  "compute_cron_job_present_verdict cron_job found lines marker marker_index =
     (if \<not> found then NeedsApply
      else (case marker_index of
              None \<Rightarrow> NeedsApply
            | Some i \<Rightarrow>
                (if line_at lines i \<noteq> Some marker then NeedsApply
                 else if find_orphan_duplicate_index lines cron_job marker_index = None then CheckOk
                 else NeedsApply)))"

subsection \<open>Mutations\<close>

definition looks_like_cron_job_line :: "string list \<Rightarrow> nat \<Rightarrow> bool" where
  "looks_like_cron_job_line lines index =
     (if length lines \<le> index then False
      else (let trimmed_line = trim (lines ! index)
            in trimmed_line \<noteq> [] \<and> \<not> starts_with trimmed_line ''#''))"

text \<open>The loop over the lines with the line before; \<open>prev\<close> is \<open>None\<close> at the first one.\<close>

fun remove_orphan_duplicates_from :: "string option \<Rightarrow> string \<Rightarrow> string \<Rightarrow> string list \<Rightarrow> string list" where
  "remove_orphan_duplicates_from prev cron_job marker [] = []"
| "remove_orphan_duplicates_from prev cron_job marker (line # lines) =
     (if line \<noteq> cron_job then [line] else if prev = Some marker then [line] else [])
     @ remove_orphan_duplicates_from (Some line) cron_job marker lines"

definition remove_orphan_duplicates :: "string list \<Rightarrow> string \<Rightarrow> string \<Rightarrow> string list" where
  "remove_orphan_duplicates lines cron_job marker = remove_orphan_duplicates_from None cron_job marker lines"

definition compute_present_mutation ::
  "bool \<Rightarrow> string \<Rightarrow> string list \<Rightarrow> string \<Rightarrow> nat option \<Rightarrow> string list option" where
  "compute_present_mutation adopt_orphans cron_job lines marker marker_index =
     (if (case marker_index of None \<Rightarrow> False
          | Some i \<Rightarrow> line_at lines i = Some marker \<and> line_at lines (i + 1) = Some cron_job)
      then None
      else (let next_lines =
              (case marker_index of
                 None \<Rightarrow>
                   (case find_index (\<lambda>l. l = cron_job) lines of
                      None \<Rightarrow> lines @ [marker, cron_job]
                    | Some orphan \<Rightarrow>
                        (if adopt_orphans then splice_at orphan 0 [marker] lines else lines @ [marker, cron_job]))
               | Some i \<Rightarrow>
                   (if looks_like_cron_job_line lines (i + 1)
                    then (lines[i := marker])[i + 1 := cron_job]
                    else splice_at (i + 1) 0 [cron_job] (lines[i := marker])))
            in Some (if adopt_orphans then remove_orphan_duplicates next_lines cron_job marker else next_lines)))"

datatype cron_state = CronPresent | CronAbsent

definition compute_cron_job_mutation ::
  "bool \<Rightarrow> string \<Rightarrow> string list \<Rightarrow> string \<Rightarrow> nat option \<Rightarrow> cron_state \<Rightarrow> string list option" where
  "compute_cron_job_mutation adopt_orphans cron_job lines marker marker_index state =
     (case state of
        CronPresent \<Rightarrow> compute_present_mutation adopt_orphans cron_job lines marker marker_index
      | CronAbsent \<Rightarrow>
          (case marker_index of
             None \<Rightarrow> None
           | Some i \<Rightarrow> Some (splice_at i (if line_at lines (i + 1) = Some cron_job then 2 else 1) [] lines)))"

definition follow_is_managed_job :: "(string \<Rightarrow> string) \<Rightarrow> string list \<Rightarrow> nat \<Rightarrow> bool" where
  "follow_is_managed_job sha lines i =
     (case read_marker_digest (case line_at lines i of None \<Rightarrow> [] | Some l \<Rightarrow> l) of
        None \<Rightarrow> False
      | Some digest \<Rightarrow> looks_like_cron_job_line lines (i + 1) \<and>
          sha (case line_at lines (i + 1) of None \<Rightarrow> [] | Some l \<Rightarrow> l) = digest)"

definition compute_cron_absent_lines :: "(string \<Rightarrow> string) \<Rightarrow> string list \<Rightarrow> string \<Rightarrow> string list option" where
  "compute_cron_absent_lines sha lines name =
     (case find_marker_index lines name of
        None \<Rightarrow> None
      | Some i \<Rightarrow> Some (splice_at i (if follow_is_managed_job sha lines i then 2 else 1) [] lines))"

subsection \<open>Warnings\<close>

fun collapse_blanks :: "bool \<Rightarrow> string \<Rightarrow> string" where
  "collapse_blanks after_blank [] = []"
| "collapse_blanks after_blank (c # cs) =
     (if c = CHR 0x20 \<or> c = CHR 0x09
      then (if after_blank then [] else [CHR 0x20]) @ collapse_blanks True cs
      else c # collapse_blanks False cs)"

definition normalize_cron_whitespace :: "string \<Rightarrow> string" where
  "normalize_cron_whitespace line = trim (collapse_blanks False line)"

definition build_whitespace_mismatch_hint :: "(string \<Rightarrow> string) \<Rightarrow> string \<Rightarrow> string \<Rightarrow> string option" where
  \<open>build_whitespace_mismatch_hint sha follow_line recorded_digest =
     (let normalized = normalize_cron_whitespace follow_line
      in if normalized = follow_line \<or> sha normalized \<noteq> recorded_digest then None
         else Some (''follow-up line differs from the recorded digest only in whitespace '' @ [CHR 0x97]
           @ '' keeping the user's line untouched. Re-run cron.job(state="present") if the reformatted line should become managed again.''))\<close>

definition select_cron_absent_warning :: "(string \<Rightarrow> string) \<Rightarrow> bool \<Rightarrow> string \<Rightarrow> bool \<Rightarrow> string option \<Rightarrow> string option" where
  "select_cron_absent_warning sha follow_managed follow_line follow_looks_like_job recorded_digest =
     (if \<not> follow_looks_like_job then None
      else (case recorded_digest of
              None \<Rightarrow> Some (''legacy marker without recorded digest '' @ [CHR 0x97]
                        @ '' keeping follow-up line and removing only the marker'')
            | Some digest \<Rightarrow>
                (if \<not> follow_managed then build_whitespace_mismatch_hint sha follow_line digest else None)))"

subsection \<open>Reading and writing the crontab\<close>

definition is_missing_crontab_result :: "string \<Rightarrow> string \<Rightarrow> string \<Rightarrow> bool" where
  "is_missing_crontab_result stdout stderr user =
     (let out = trim (stdout @ [newline] @ stderr)
      in out = [] \<or> js_includes (to_lower out) (''no crontab for '' @ to_lower user))"

text \<open>\<open>Inl\<close> is the error arm with the result of the command, \<open>Inr\<close> the lines.\<close>

definition read_crontab :: "string \<Rightarrow> (exec_result + string list) script" where
  "read_crontab user =
     script_bind (exec_script (''crontab -u '' @ shell_quote user @ '' -l'') probe_exec) (\<lambda>r.
       give (if er_code r = 0 then Inr (split_on newline (trim_end (er_stdout r)))
             else if is_missing_crontab_result (er_stdout r) (er_stderr r) user then Inr []
             else Inl r))"

definition write_crontab :: "string \<Rightarrow> string list \<Rightarrow> string \<Rightarrow> module_result option script" where
  "write_crontab failure_message lines user =
     (if lines = []
      then script_bind (exec_script (''crontab -u '' @ shell_quote user @ '' -r'') probe_exec) (\<lambda>r.
             if er_code r = 0 \<or> is_missing_crontab_result (er_stdout r) (er_stderr r) user then give None
             else script_bind (Done (failed_command failure_message r None)) (\<lambda>failure. give (Some failure)))
      else script_bind (exec_script (''crontab -u '' @ shell_quote user @ '' -'')
               (probe_exec\<lparr>eo_input := Some (join_with [newline] lines @ [newline])\<rparr>)) (\<lambda>r.
             if er_code r = 0 then give None
             else script_bind (Done (failed_command failure_message r None)) (\<lambda>failure. give (Some failure))))"

definition crontab_mutex_lock_name :: "(string \<Rightarrow> string) \<Rightarrow> string \<Rightarrow> string" where
  "crontab_mutex_lock_name sha user = ''cron-crontab-'' @ take 16 (sha user)"

subsection \<open>The modules\<close>

record cron_job_options =
  cj_adopt_orphans :: bool
  cj_job :: string
  cj_state :: cron_state

definition cron_job_section :: "(string \<Rightarrow> string) \<Rightarrow> string \<Rightarrow> string \<Rightarrow> cron_job_options \<Rightarrow> module_result script" where
  "cron_job_section sha user name options =
     script_bind (read_crontab user) (\<lambda>read.
       case read of
         Inl r \<Rightarrow> Done (failed_command (''[cron.job: '' @ name @ '' ('' @ user @ '')] crontab read failed'') r None)
       | Inr lines \<Rightarrow>
           (case compute_cron_job_mutation (cj_adopt_orphans options) (cj_job options) lines
                   (render_marker_line sha name (cj_job options)) (find_marker_index lines name) (cj_state options) of
              None \<Rightarrow> give (plain_result StOk)
            | Some next_lines \<Rightarrow>
                script_bind (write_crontab (''[cron.job: '' @ name @ '' ('' @ user @ '')] crontab removal failed'')
                    next_lines user) (\<lambda>failure.
                  give (case failure of Some f \<Rightarrow> f | None \<Rightarrow> plain_result StChanged))))"

definition unlocked :: "(module_result + module_result) script \<Rightarrow> module_result script" where
  "unlocked locked = script_bind locked (\<lambda>r. give (case r of Inl failure \<Rightarrow> failure | Inr v \<Rightarrow> v))"

definition apply_cron_job_state :: "(string \<Rightarrow> string) \<Rightarrow> string \<Rightarrow> string \<Rightarrow> cron_job_options \<Rightarrow> module_result script" where
  "apply_cron_job_state sha user name options =
     unlocked (with_mutex_lock (plain_mutex (''[cron.job: '' @ name @ '' ('' @ user @ '')] aborted'')
       (crontab_mutex_lock_name sha user) (\<lambda>handle. cron_job_section sha user name options)))"

definition cron_job_check :: "(string \<Rightarrow> string) \<Rightarrow> string \<Rightarrow> string \<Rightarrow> cron_job_options \<Rightarrow> check_result script" where
  "cron_job_check sha user name options =
     script_bind (read_crontab user) (\<lambda>read.
       give (case read of
               Inl r \<Rightarrow> NeedsApply
             | Inr lines \<Rightarrow>
                 (case cj_state options of
                    CronPresent \<Rightarrow>
                      compute_cron_job_present_verdict (cj_job options) (has_marked_job lines name (cj_job options)) lines
                        (render_marker_line sha name (cj_job options)) (find_marker_index lines name)
                  | CronAbsent \<Rightarrow> if find_marker_index lines name = None then CheckOk else NeedsApply)))"

definition build_crontab_dry_run_diff :: "(string list \<Rightarrow> string list option) \<Rightarrow> string \<Rightarrow> string option script" where
  "build_crontab_dry_run_diff compute_next user =
     script_catch
       (script_bind (read_crontab user) (\<lambda>read.
          give (case read of
                  Inl r \<Rightarrow> None
                | Inr lines \<Rightarrow>
                    (case compute_next lines of
                       None \<Rightarrow> None
                     | Some next_lines \<Rightarrow>
                         (let d = build_unified_diff (join_with [newline] lines) (join_with [newline] next_lines)
                                    \<lparr>do_context_lines = None, do_current_label = Some (''crontab('' @ user @ '')''),
                                     do_desired_label = Some ''desired''\<rparr>
                          in if d = [] then None else Some d)))))
       (\<lambda>e. give None)"

definition crontab_dry_run :: "(string list \<Rightarrow> string list option) \<Rightarrow> string \<Rightarrow> module_result script" where
  "crontab_dry_run compute_next user =
     script_bind (build_crontab_dry_run_diff compute_next user) (\<lambda>d.
       give ((plain_result StChanged)\<lparr>mr_diff := d\<rparr>))"

definition cron_job :: "(string \<Rightarrow> string) \<Rightarrow> string \<Rightarrow> string \<Rightarrow> cron_job_options \<Rightarrow> script_module result" where
  "cron_job sha user name options =
     (case assert_valid_user_name user of
        Inl e \<Rightarrow> Inl e
      | Inr _ \<Rightarrow>
          (case assert_cron_name name of
             Inl e \<Rightarrow> Inl e
           | Inr _ \<Rightarrow>
               (if newline \<in> set (cj_job options) \<or> carriage_return \<in> set (cj_job options)
                then Inl (GenericError (''cron.job: job must not contain newlines: '' @ json_stringify (cj_job options)))
                else Inr \<lparr>sm_name = ''cron.job: '' @ name @ '' ('' @ user @ '')'',
                   sm_missing = ''[cron.job: '' @ name @ '' ('' @ user @ '')] SSH connection is required'',
                   sm_check = cron_job_check sha user name options,
                   sm_apply = apply_cron_job_state sha user name options,
                   sm_dry_run = Some (crontab_dry_run (\<lambda>lines. compute_cron_job_mutation (cj_adopt_orphans options)
                       (cj_job options) lines (render_marker_line sha name (cj_job options))
                       (find_marker_index lines name) (cj_state options)) user)\<rparr>)))"

definition apply_cron_absent_mutation ::
  "(string \<Rightarrow> string) \<Rightarrow> string list \<Rightarrow> nat \<Rightarrow> string \<Rightarrow> string \<Rightarrow> module_result script" where
  "apply_cron_absent_mutation sha lines i name user =
     (let recorded_digest = read_marker_digest (case line_at lines i of None \<Rightarrow> [] | Some l \<Rightarrow> l);
          follow_line = (case line_at lines (i + 1) of None \<Rightarrow> [] | Some l \<Rightarrow> l);
          follow_looks_like_job = looks_like_cron_job_line lines (i + 1);
          managed = (case recorded_digest of None \<Rightarrow> False
                     | Some digest \<Rightarrow> follow_looks_like_job \<and> sha follow_line = digest);
          warning = select_cron_absent_warning sha managed follow_line follow_looks_like_job recorded_digest;
          next_lines = splice_at i (if managed then 2 else 1) [] lines
      in script_bind (write_crontab (''[cron.absent: '' @ name @ '' ('' @ user @ '')] crontab removal failed'') next_lines user)
           (\<lambda>failure. give (case failure of Some f \<Rightarrow> f | None \<Rightarrow> (plain_result StChanged)\<lparr>mr_detail := warning\<rparr>)))"

definition cron_absent_section :: "(string \<Rightarrow> string) \<Rightarrow> string \<Rightarrow> string \<Rightarrow> module_result script" where
  "cron_absent_section sha user name =
     script_bind (read_crontab user) (\<lambda>read.
       case read of
         Inl r \<Rightarrow> Done (failed_command (''[cron.absent: '' @ name @ '' ('' @ user @ '')] crontab read failed'') r None)
       | Inr lines \<Rightarrow>
           (case find_marker_index lines name of
              None \<Rightarrow> give (plain_result StOk)
            | Some i \<Rightarrow> apply_cron_absent_mutation sha lines i name user))"

definition cron_absent :: "(string \<Rightarrow> string) \<Rightarrow> string \<Rightarrow> string \<Rightarrow> script_module result" where
  "cron_absent sha user name =
     (case assert_valid_user_name user of
        Inl e \<Rightarrow> Inl e
      | Inr _ \<Rightarrow>
          (case assert_cron_name name of
             Inl e \<Rightarrow> Inl e
           | Inr _ \<Rightarrow> Inr \<lparr>sm_name = ''cron.absent: '' @ name @ '' ('' @ user @ '')'',
               sm_missing = ''[cron.absent: '' @ name @ '' ('' @ user @ '')] SSH connection is required'',
               sm_check = script_bind (read_crontab user) (\<lambda>read.
                 give (case read of Inl r \<Rightarrow> NeedsApply
                       | Inr lines \<Rightarrow> if find_marker_index lines name = None then CheckOk else NeedsApply)),
               sm_apply = unlocked (with_mutex_lock (plain_mutex (''[cron.absent: '' @ name @ '' ('' @ user @ '')] aborted'')
                 (crontab_mutex_lock_name sha user) (\<lambda>handle. cron_absent_section sha user name))),
               sm_dry_run = Some (crontab_dry_run (\<lambda>lines. compute_cron_absent_lines sha lines name) user)\<rparr>))"

end
