(* ===== verification/CronProofs.thy ===== *)
theory CronProofs
  imports Cron
begin

text \<open>
  What a cron job converges to: an interpretation of \<open>framed_editor\<close> on the mutation and the
  verdict of \<^verbatim>\<open>cron.ts\<close>, a run of the module on a server with a crontab, and its removal.
\<close>

subsection \<open>The editor of a job that is to be present\<close>

definition cron_edit :: "(string \<Rightarrow> string) \<Rightarrow> bool \<Rightarrow> string \<Rightarrow> string \<Rightarrow> string list \<Rightarrow> string list option" where
  "cron_edit sha adopt name job lines =
     compute_cron_job_mutation adopt job lines (render_marker_line sha name job) (find_marker_index lines name) CronPresent"

definition cron_verdict :: "(string \<Rightarrow> string) \<Rightarrow> string \<Rightarrow> string \<Rightarrow> string list \<Rightarrow> check_result" where
  "cron_verdict sha name job lines =
     compute_cron_job_present_verdict job (has_marked_job lines name job) lines (render_marker_line sha name job)
       (find_marker_index lines name)"




















subsection \<open>A run on a server\<close>


definition table_lines :: "string option \<Rightarrow> string list" where
  "table_lines table = (case table of None \<Rightarrow> [] | Some t \<Rightarrow> split_on newline (trim_end t))"



lemma js_space_newline [simp]: "js_space newline"
  by (simp add: js_space_def char_between_def code_def)















subsection \<open>A crontab to run on\<close>



definition zero_digest :: "string \<Rightarrow> string" where
  "zero_digest s = replicate 64 (CHR ''0'')"



subsection \<open>Removal\<close>

lemma find_text_skip: "\<not> starts_with (c # cs) pat \<Longrightarrow> find_text pat (c # cs) = map_option Suc (find_text pat cs)"
  by simp






subsection \<open>What the check and the apply disagree on\<close>

text \<open>
  With the pair in place and a copy of the job elsewhere the check asks for an apply, and the
  apply finds the pair in place and returns before it looks at the copies, so the module asks for
  the same apply at every run, also with \<open>adoptOrphans\<close>.
\<close>

lemma orphan_beside_pair_never_settles:
  defines "lines \<equiv> [''@daily /bin/backup'', render_marker_line zero_digest ''backup'' ''@daily /bin/backup'', ''@daily /bin/backup'']"
  shows "cron_verdict zero_digest ''backup'' ''@daily /bin/backup'' lines = NeedsApply"
    and "cron_edit zero_digest True ''backup'' ''@daily /bin/backup'' lines = None"
  unfolding lines_def by code_simp+

text \<open>
  A job that ends in white space is written as it is given, but the crontab is read without the
  white space at its end, so the job is never found again.
\<close>

lemma trailing_space_never_settles:
  defines "e \<equiv> [render_marker_line zero_digest ''backup'' ''@daily /bin/backup '', ''@daily /bin/backup '']"
  shows "cron_edit zero_digest False ''backup'' ''@daily /bin/backup '' [] = Some e"
    and "cron_verdict zero_digest ''backup'' ''@daily /bin/backup '' (table_lines (Some (join_with [newline] e @ [newline]))) = NeedsApply"
  unfolding e_def by code_simp+

end
