(* ===== verification/ArchiveListing.thy ===== *)
theory ArchiveListing
  imports ModuleScript
begin

text \<open>
  The listing of an archive (\<^verbatim>\<open>archiveTarListing.ts\<close>, \<^verbatim>\<open>archiveTarListingParser.ts\<close> and
  \<^verbatim>\<open>archiveMemberValidation.ts\<close> under \<^verbatim>\<open>modules\<close>): the script that lists, its first line, the decoding
  of the names, the parsers of the lines of \<^verbatim>\<open>tar -tv\<close> and \<^verbatim>\<open>unzip -Zs\<close>, and the rules for a single
  member. The decoder from UTF-8 is the parameter \<open>utf8\<close>. A name is a list of the first code points,
  which the replacement character is not one of, so the rules about it have no character to refuse.
\<close>

subsection \<open>The mode of a listing\<close>

datatype tar_listing_flavor = FlavorBsd | FlavorGnu | FlavorOther
datatype tar_listing_locale = LocaleCUtf8 | LocaleCutf8 | LocaleC

record tar_listing_mode =
  tm_flavor :: tar_listing_flavor
  tm_locale :: tar_listing_locale

definition tar_listing_mode_prefix :: string where "tar_listing_mode_prefix = ''paratix-tar-listing''"

fun flavor_text :: "tar_listing_flavor \<Rightarrow> string" where
  "flavor_text FlavorBsd = ''bsd''"
| "flavor_text FlavorGnu = ''gnu''"
| "flavor_text FlavorOther = ''other''"

fun locale_text :: "tar_listing_locale \<Rightarrow> string" where
  "locale_text LocaleCUtf8 = ''C.UTF-8''"
| "locale_text LocaleCutf8 = ''C.utf8''"
| "locale_text LocaleC = ''C''"

definition tar_listing_flavors :: "tar_listing_flavor list" where
  "tar_listing_flavors = [FlavorBsd, FlavorGnu, FlavorOther]"

definition tar_listing_locales :: "tar_listing_locale list" where
  "tar_listing_locales = [LocaleCUtf8, LocaleCutf8, LocaleC]"

definition mode_line_of :: "tar_listing_flavor \<Rightarrow> tar_listing_locale \<Rightarrow> string" where
  "mode_line_of f l = tar_listing_mode_prefix @ '' '' @ flavor_text f @ '' '' @ locale_text l"

text \<open>The modes whose line is the given one.\<close>

definition tar_listing_mode_line_pattern :: "string \<Rightarrow> tar_listing_mode option" where
  "tar_listing_mode_line_pattern line =
     find (\<lambda>m. mode_line_of (tm_flavor m) (tm_locale m) = line)
       (concat (map (\<lambda>f. map (\<lambda>l. \<lparr>tm_flavor = f, tm_locale = l\<rparr>) tar_listing_locales) tar_listing_flavors))"

definition mode_line_quote_limit :: nat where "mode_line_quote_limit = 200"

definition tar_listing_script :: "string \<Rightarrow> string \<Rightarrow> string" where
  \<open>tar_listing_script flags archive_path =
     (let archive = shell_quote archive_path
      in join_with [newline]
        [''case $(LC_ALL=C tar --version 2>/dev/null) in'',
         ''  'tar (GNU tar) '*) paratix_tar_flavor=gnu ;;'',
         ''  'bsdtar '*) paratix_tar_flavor=bsd ;;'',
         ''  *) paratix_tar_flavor=other ;;'',
         ''esac'',
         ''paratix_tar_locale=C'',
         ''if [ "$paratix_tar_flavor" != bsd ]; then'',
         ''  for paratix_tar_candidate in C.UTF-8 C.utf8; do'',
         ''    if [ "$(LC_ALL=$paratix_tar_candidate locale charmap 2>/dev/null)" = UTF-8 ]; then'',
         ''      paratix_tar_locale=$paratix_tar_candidate'',
         ''      break'',
         ''    fi'',
         ''  done'',
         ''fi'',
         ''printf '%s %s %s'' @ [backslash] @ ''n' '' @ tar_listing_mode_prefix
           @ '' "$paratix_tar_flavor" "$paratix_tar_locale"'',
         ''if [ "$paratix_tar_flavor" = gnu ]; then'',
         ''  LC_ALL=$paratix_tar_locale tar --quoting-style=escape '' @ flags @ '' '' @ archive,
         ''else'',
         ''  LC_ALL=$paratix_tar_locale tar '' @ flags @ '' '' @ archive,
         ''fi''])\<close>

text \<open>A refused listing is \<open>Inl\<close> of the reason.\<close>

definition split_tar_listing_mode_line :: "string \<Rightarrow> string + string \<times> tar_listing_mode" where
  "split_tar_listing_mode_line stdout =
     (let first_line = (case index_of newline stdout of None \<Rightarrow> stdout | Some i \<Rightarrow> take i stdout)
      in case tar_listing_mode_line_pattern first_line of
           None \<Rightarrow> Inl (''tar listing does not start with the expected listing mode line: ''
                     @ json_stringify (take mode_line_quote_limit first_line))
         | Some mode \<Rightarrow> Inr (case index_of newline stdout of None \<Rightarrow> [] | Some i \<Rightarrow> drop (i + 1) stdout, mode))"

definition tar_listing_decodes_names :: "tar_listing_mode \<Rightarrow> bool" where
  "tar_listing_decodes_names mode \<longleftrightarrow> tm_flavor mode \<noteq> FlavorOther"

subsection \<open>Decoding names\<close>

definition tar_letter_escapes :: "(char \<times> char) list" where
  "tar_letter_escapes =
     [(backslash, backslash), (CHR ''a'', CHR 0x07), (CHR ''b'', CHR 0x08), (CHR ''f'', CHR 0x0C),
      (CHR ''n'', newline), (CHR ''r'', carriage_return), (CHR ''t'', CHR 0x09), (CHR ''v'', CHR 0x0B)]"

definition octal_digit :: "char \<Rightarrow> bool" where
  "octal_digit c \<longleftrightarrow> char_between 48 55 c"

text \<open>An escape sequence at the start of a text: what it stands for, and the rest.\<close>

definition tar_escape_bytes :: "string \<Rightarrow> (char \<times> string) option" where
  "tar_escape_bytes s =
     (case s of
        b # d1 # rest \<Rightarrow>
          (if b \<noteq> backslash then None
           else (case map_of tar_letter_escapes d1 of
                   Some c \<Rightarrow> Some (c, rest)
                 | None \<Rightarrow>
                     (case rest of
                        d2 # d3 # rest' \<Rightarrow>
                          (if char_between 48 51 d1 \<and> octal_digit d2 \<and> octal_digit d3
                           then Some (char_of ((code d1 - 48) * 64 + (code d2 - 48) * 8 + (code d3 - 48)), rest')
                           else None)
                      | _ \<Rightarrow> None)))
      | _ \<Rightarrow> None)"

lemma tar_escape_bytes_shorter: "tar_escape_bytes s = Some (c, rest) \<Longrightarrow> length rest < length s"
  by (auto simp: tar_escape_bytes_def split: list.splits option.splits if_splits)

text \<open>The parts \<^verbatim>\<open>split\<close> gives: texts and the bytes of the escapes between them.\<close>

datatype name_part = TextPart string | EscapePart char

function split_escapes :: "string \<Rightarrow> string \<Rightarrow> name_part list" where
  "split_escapes acc s =
     (case s of
        [] \<Rightarrow> [TextPart acc]
      | c # cs \<Rightarrow>
          (case tar_escape_bytes s of
             Some (b, rest) \<Rightarrow> TextPart acc # EscapePart b # split_escapes [] rest
           | None \<Rightarrow> split_escapes (acc @ [c]) cs))"
  by pat_completeness auto
termination
  by (relation "measure (\<lambda>(acc, s). length s)") (auto dest: tar_escape_bytes_shorter)

declare split_escapes.simps [simp del]

definition tar_longest_escape_length :: nat where "tar_longest_escape_length = 4"

definition utf8_encode_char :: "char \<Rightarrow> string" where
  "utf8_encode_char c =
     (if code c < 128 then [c] else [char_of (192 + code c div 64), char_of (128 + code c mod 64)])"

definition utf8_encode :: "string \<Rightarrow> string" where
  "utf8_encode s = concat (map utf8_encode_char s)"

definition stray_part :: "name_part \<Rightarrow> string option" where
  "stray_part p = (case p of TextPart t \<Rightarrow> (case index_of backslash t of None \<Rightarrow> None | Some i \<Rightarrow> Some (drop i t))
                   | EscapePart c \<Rightarrow> None)"

definition part_bytes :: "name_part \<Rightarrow> string" where
  "part_bytes p = (case p of TextPart t \<Rightarrow> utf8_encode t | EscapePart c \<Rightarrow> [c])"

definition tar_listing_name_bytes :: "string \<Rightarrow> string + string" where
  "tar_listing_name_bytes listed =
     (let parts = split_escapes [] listed
      in case List.map_filter stray_part parts of
           stray # _ \<Rightarrow> Inl (''invalid escape sequence '' @ json_stringify (take tar_longest_escape_length stray))
         | [] \<Rightarrow> Inr (concat (map part_bytes parts)))"

definition decode_tar_listing_name :: "(string \<Rightarrow> string option) \<Rightarrow> string \<Rightarrow> string + string" where
  "decode_tar_listing_name utf8 listed =
     (if backslash \<notin> set listed then Inr listed
      else (case tar_listing_name_bytes listed of
              Inl reason \<Rightarrow> Inl reason
            | Inr bytes \<Rightarrow>
                (case utf8 bytes of
                   None \<Rightarrow> Inl ''the decoded bytes are not valid UTF-8''
                 | Some name \<Rightarrow> Inr name)))"

subsection \<open>Members\<close>

datatype archive_format = TarFormat | ZipFormat
datatype member_kind = DirectoryMember | FileMember | HardlinkMember | SpecialMember | SymlinkMember

record archive_member =
  am_format :: archive_format
  am_kind :: member_kind
  am_link_target :: "string option"
  am_mode :: string
  am_path :: string

datatype member_parse_result = InvalidLine string | ParsedMember archive_member | IgnoredLine

definition tar_link_arrow :: string where "tar_link_arrow = '' -> ''"
definition tar_hardlink_target :: string where "tar_hardlink_target = '' link to ''"

definition type_char :: "char \<Rightarrow> bool" where "type_char c \<longleftrightarrow> c \<in> set ''-bcdhlps''"
definition zip_type_char :: "char \<Rightarrow> bool" where "zip_type_char c \<longleftrightarrow> c \<in> set ''-bcdlps''"
definition permission_char :: "char \<Rightarrow> bool" where "permission_char c \<longleftrightarrow> c \<in> set ''-rwxStTs''"

text \<open>
  A column of a line: white space, then a word. The patterns of the lines are a mode, a number of
  columns, white space and the rest, which does not start with white space and has no line end.
\<close>

definition skip_column :: "string \<Rightarrow> string option" where
  "skip_column s =
     (let word = dropWhile js_space s
      in if s = word \<or> word = [] then None else Some (dropWhile (\<lambda>c. \<not> js_space c) word))"

fun skip_columns :: "nat \<Rightarrow> string \<Rightarrow> string option" where
  "skip_columns 0 s = Some s"
| "skip_columns (Suc n) s = (case skip_column s of None \<Rightarrow> None | Some s' \<Rightarrow> skip_columns n s')"

definition line_rest :: "string \<Rightarrow> string option" where
  "line_rest s =
     (let rest = dropWhile js_space s
      in if s = rest \<or> rest = [] \<or> newline \<in> set rest \<or> carriage_return \<in> set rest then None else Some rest)"

definition listing_columns :: "(char \<Rightarrow> bool) \<Rightarrow> nat \<Rightarrow> string \<Rightarrow> (string \<times> string) option" where
  "listing_columns first_char n line =
     (if length line < 10 \<or> \<not> first_char (hd line) \<or> \<not> list_all permission_char (take 9 (tl line)) then None
      else (case skip_columns n (drop 10 line) of
              None \<Rightarrow> None
            | Some s \<Rightarrow> map_option (\<lambda>rest. (take 10 line, rest)) (line_rest s)))"

definition tar_verbose_line_pattern :: "string \<Rightarrow> (string \<times> string) option" where
  "tar_verbose_line_pattern line = listing_columns type_char 4 line"

definition tar_bsd_verbose_line_pattern :: "string \<Rightarrow> (string \<times> string) option" where
  "tar_bsd_verbose_line_pattern line = listing_columns type_char 7 line"

definition zip_info_line_pattern :: "string \<Rightarrow> (string \<times> string) option" where
  "zip_info_line_pattern line = listing_columns zip_type_char 7 line"

definition archive_member_kind_from_mode :: "string \<Rightarrow> member_kind" where
  "archive_member_kind_from_mode mode =
     (if starts_with mode ''d'' then DirectoryMember
      else if starts_with mode ''l'' then SymlinkMember
      else if starts_with mode ''h'' then HardlinkMember
      else if \<not> starts_with mode ''-'' then SpecialMember
      else FileMember)"

definition tar_listing_member_kind :: "string \<Rightarrow> string \<Rightarrow> tar_listing_flavor \<Rightarrow> member_kind" where
  "tar_listing_member_kind mode rest flavor =
     (let kind = archive_member_kind_from_mode mode;
          has_separator = js_includes rest tar_link_arrow \<or> js_includes rest tar_hardlink_target
      in if flavor = FlavorBsd \<and> kind \<noteq> SpecialMember \<and> js_includes rest tar_hardlink_target then HardlinkMember
         else if flavor = FlavorOther \<and> kind = FileMember \<and> has_separator then HardlinkMember
         else kind)"

definition ambiguous_tar_link_line :: "string \<Rightarrow> string \<Rightarrow> member_parse_result" where
  "ambiguous_tar_link_line line detail =
     InvalidLine (''ambiguous tar listing line ('' @ detail @ ''): '' @ json_stringify line)"

definition parse_tar_link_member ::
  "member_kind \<Rightarrow> string \<Rightarrow> string \<Rightarrow> string \<Rightarrow> string \<Rightarrow> member_parse_result option" where
  "parse_tar_link_member kind line mode rest separator =
     (case find_text separator rest of
        None \<Rightarrow> None
      | Some i \<Rightarrow>
          Some (if js_includes (drop (i + length separator) rest) separator
                then ambiguous_tar_link_line line
                       (''link separator '' @ json_stringify separator @ '' occurs more than once'')
                else ParsedMember \<lparr>am_format = TarFormat, am_kind = kind,
                       am_link_target = Some (drop (i + length separator) rest), am_mode = mode,
                       am_path = take i rest\<rparr>))"

definition parse_tar_link_remainder ::
  "member_kind \<Rightarrow> string \<Rightarrow> string \<Rightarrow> string \<Rightarrow> member_parse_result option" where
  "parse_tar_link_remainder kind line mode rest =
     (if kind = FileMember then None
      else if kind \<noteq> HardlinkMember then parse_tar_link_member kind line mode rest tar_link_arrow
      else if js_includes rest tar_link_arrow \<and> js_includes rest tar_hardlink_target
      then Some (ambiguous_tar_link_line line
                   (''hardlink contains both '' @ json_stringify tar_link_arrow @ '' and '' @ json_stringify tar_hardlink_target))
      else (case parse_tar_link_member kind line mode rest tar_link_arrow of
              Some r \<Rightarrow> Some r
            | None \<Rightarrow> parse_tar_link_member kind line mode rest tar_hardlink_target))"

definition unmappable_tar_name :: "string \<Rightarrow> string \<Rightarrow> member_parse_result" where
  "unmappable_tar_name listed detail =
     InvalidLine (''member name '' @ json_stringify listed
       @ '' in the tar listing cannot be mapped to the extracted name ('' @ detail @ '')'')"

definition decode_tar_member_names :: "(string \<Rightarrow> string option) \<Rightarrow> member_parse_result \<Rightarrow> member_parse_result" where
  "decode_tar_member_names utf8 parsed =
     (case parsed of
        ParsedMember member \<Rightarrow>
          (case decode_tar_listing_name utf8 (am_path member) of
             Inl reason \<Rightarrow> unmappable_tar_name (am_path member) reason
           | Inr path \<Rightarrow>
               (case am_link_target member of
                  None \<Rightarrow> ParsedMember (member\<lparr>am_path := path\<rparr>)
                | Some listed \<Rightarrow>
                    (case decode_tar_listing_name utf8 listed of
                       Inl reason \<Rightarrow> unmappable_tar_name listed reason
                     | Inr target \<Rightarrow> ParsedMember (member\<lparr>am_link_target := Some target, am_path := path\<rparr>))))
      | _ \<Rightarrow> parsed)"

definition without_trailing_return :: "string \<Rightarrow> string" where
  "without_trailing_return line = (if line \<noteq> [] \<and> last line = carriage_return then butlast line else line)"

definition parse_listed_tar_verbose_line :: "string \<Rightarrow> tar_listing_mode \<Rightarrow> member_parse_result" where
  "parse_listed_tar_verbose_line line listing_mode =
     (let trimmed_line = without_trailing_return line
      in if trimmed_line = [] then IgnoredLine
         else (case (if tm_flavor listing_mode = FlavorBsd then tar_bsd_verbose_line_pattern trimmed_line
                     else tar_verbose_line_pattern trimmed_line) of
                 None \<Rightarrow> InvalidLine (''could not parse tar listing line: '' @ json_stringify trimmed_line)
               | Some (mode, rest) \<Rightarrow>
                   (let kind = tar_listing_member_kind mode rest (tm_flavor listing_mode)
                    in case parse_tar_link_remainder kind trimmed_line mode rest of
                         Some r \<Rightarrow> r
                       | None \<Rightarrow> ParsedMember \<lparr>am_format = TarFormat, am_kind = kind, am_link_target = None,
                                    am_mode = mode, am_path = rest\<rparr>)))"

definition parse_tar_verbose_line :: "(string \<Rightarrow> string option) \<Rightarrow> string \<Rightarrow> tar_listing_mode \<Rightarrow> member_parse_result" where
  "parse_tar_verbose_line utf8 line listing_mode =
     (let parsed = parse_listed_tar_verbose_line line listing_mode
      in if tar_listing_decodes_names listing_mode then decode_tar_member_names utf8 parsed else parsed)"

fun collect_members :: "(string \<Rightarrow> member_parse_result) \<Rightarrow> string list \<Rightarrow> string + archive_member list" where
  "collect_members parse [] = Inr []"
| "collect_members parse (line # lines) =
     (case parse line of
        InvalidLine reason \<Rightarrow> Inl reason
      | ParsedMember m \<Rightarrow> (case collect_members parse lines of Inl e \<Rightarrow> Inl e | Inr ms \<Rightarrow> Inr (m # ms))
      | IgnoredLine \<Rightarrow> collect_members parse lines)"

definition parse_tar_listing :: "(string \<Rightarrow> string option) \<Rightarrow> string \<Rightarrow> string + archive_member list" where
  "parse_tar_listing utf8 stdout =
     (case split_tar_listing_mode_line stdout of
        Inl reason \<Rightarrow> Inl reason
      | Inr (body, mode) \<Rightarrow>
          collect_members (\<lambda>line. parse_tar_verbose_line utf8 line mode) (split_on newline body))"

subsection \<open>Listings of zip archives\<close>

text \<open>The pieces of the two patterns for lines that are no members.\<close>

datatype line_piece = Literal string | Spaces | Digits | DigitsOrDots | OptionalS

fun match_pieces :: "line_piece list \<Rightarrow> string \<Rightarrow> bool" where
  "match_pieces [] s = (s = [])"
| "match_pieces (p # ps) s =
     (case p of
        Literal l \<Rightarrow> starts_with s l \<and> match_pieces ps (drop (length l) s)
      | Spaces \<Rightarrow> takeWhile js_space s \<noteq> [] \<and> match_pieces ps (dropWhile js_space s)
      | Digits \<Rightarrow> takeWhile is_digit s \<noteq> [] \<and> match_pieces ps (dropWhile is_digit s)
      | DigitsOrDots \<Rightarrow>
          takeWhile (\<lambda>c. is_digit c \<or> c = CHR ''.'') s \<noteq> [] \<and>
          match_pieces ps (dropWhile (\<lambda>c. is_digit c \<or> c = CHR ''.'') s)
      | OptionalS \<Rightarrow> match_pieces ps (if starts_with s ''s'' then tl s else s))"

definition zip_info_size_line_pattern :: "string \<Rightarrow> bool" where
  "zip_info_size_line_pattern line =
     match_pieces [Literal ''Zip file size:'', Spaces, Digits, Spaces, Literal ''bytes,'', Spaces,
       Literal ''number of entries:'', Spaces, Digits] line"

definition zip_info_summary_line_pattern :: "string \<Rightarrow> bool" where
  "zip_info_summary_line_pattern line =
     match_pieces [Digits, Spaces, Literal ''file'', OptionalS, Literal '','', Spaces, Digits, Spaces,
       Literal ''bytes uncompressed,'', Spaces, Digits, Spaces, Literal ''bytes compressed:'', Spaces,
       DigitsOrDots, Literal ''%''] line"

definition is_ignored_zip_info_line :: "string \<Rightarrow> bool" where
  "is_ignored_zip_info_line line \<longleftrightarrow>
     starts_with line ''Archive:'' \<or> zip_info_size_line_pattern line \<or> zip_info_summary_line_pattern line"

definition parse_zip_info_line :: "string \<Rightarrow> member_parse_result" where
  "parse_zip_info_line line =
     (let trimmed_line = without_trailing_return line
      in if trimmed_line = [] then IgnoredLine
         else if is_ignored_zip_info_line trimmed_line then IgnoredLine
         else (case zip_info_line_pattern trimmed_line of
                 None \<Rightarrow> InvalidLine (''could not parse zip listing line: '' @ json_stringify trimmed_line)
               | Some (mode, path) \<Rightarrow>
                   ParsedMember \<lparr>am_format = ZipFormat, am_kind = archive_member_kind_from_mode mode,
                     am_link_target = None, am_mode = mode, am_path = path\<rparr>))"

definition parse_zip_listing :: "string \<Rightarrow> string + archive_member list" where
  "parse_zip_listing stdout = collect_members parse_zip_info_line (split_on newline stdout)"

subsection \<open>Paths\<close>

definition archive_member_control_character :: "string \<Rightarrow> bool" where
  "archive_member_control_character s \<longleftrightarrow> list_ex (\<lambda>c. code c < 32) s"

fun normalize_segments :: "string list \<Rightarrow> string list \<Rightarrow> string list option" where
  "normalize_segments stack [] = Some stack"
| "normalize_segments stack (segment # segments) =
     (if segment = [] \<or> segment = ''.'' then normalize_segments stack segments
      else if segment = ''..''
      then (if stack = [] then None else normalize_segments (butlast stack) segments)
      else normalize_segments (stack @ [segment]) segments)"

definition normalize_archive_member_path :: "string \<Rightarrow> string option" where
  "normalize_archive_member_path path =
     (if archive_member_control_character path then None
      else map_option (join_with ''/'') (normalize_segments [] (split_on (CHR ''/'') path)))"

definition last_slash :: "string \<Rightarrow> nat option" where
  "last_slash s = map_option (\<lambda>i. length s - 1 - i) (index_of (CHR ''/'') (rev s))"

definition archive_member_parent_path :: "string \<Rightarrow> string" where
  "archive_member_parent_path path = (case last_slash path of None \<Rightarrow> [] | Some i \<Rightarrow> take i path)"

definition member_escapes_destination :: "archive_member \<Rightarrow> bool" where
  "member_escapes_destination m =
     (if starts_with (am_path m) ''/'' then True
      else (case normalize_archive_member_path (am_path m) of
              None \<Rightarrow> True
            | Some member_path \<Rightarrow>
                (case am_link_target m of
                   None \<Rightarrow> False
                 | Some link_target \<Rightarrow>
                     (if starts_with link_target ''/'' then True
                      else (let anchor = (if am_kind m = SymlinkMember then archive_member_parent_path member_path else []);
                                anchored_target = (if anchor = [] then link_target else anchor @ ''/'' @ link_target)
                            in normalize_archive_member_path anchored_target = None)))))"

definition mode_has_setuid_or_setgid :: "string \<Rightarrow> bool" where
  "mode_has_setuid_or_setgid mode \<longleftrightarrow>
     (3 < length mode \<and> (mode ! 3 = CHR ''s'' \<or> mode ! 3 = CHR ''S'')) \<or>
     (6 < length mode \<and> (mode ! 6 = CHR ''s'' \<or> mode ! 6 = CHR ''S''))"

subsection \<open>The rules for one member\<close>

definition member_link_text :: "archive_member \<Rightarrow> string \<Rightarrow> string" where
  "member_link_text m target = ''member '' @ json_stringify (am_path m) @ '' -> '' @ json_stringify target"

definition control_character_reason :: "archive_member \<Rightarrow> string option" where
  "control_character_reason m =
     (if archive_member_control_character (am_path m)
      then Some (''member '' @ json_stringify (am_path m) @ '' contains control characters'')
      else (case am_link_target m of
              None \<Rightarrow> None
            | Some t \<Rightarrow> (if archive_member_control_character t
                         then Some (member_link_text m t @ '' link target contains control characters'') else None)))"

definition ambiguous_name_hint :: string where
  "ambiguous_name_hint = ''member names with a backslash are refused in every listing, because a listing that Paratix does not decode (a tar other than GNU tar or bsdtar, or unzip) cannot tell a real backslash from an escape sequence, and a U+FFFD may stand for bytes a listing tool replaced''"

definition ambiguous_name_reason :: "archive_member \<Rightarrow> string option" where
  "ambiguous_name_reason m =
     (if backslash \<in> set (am_path m)
      then Some (''member '' @ json_stringify (am_path m)
             @ '' contains a backslash or a U+FFFD replacement character; '' @ ambiguous_name_hint)
      else (case am_link_target m of
              None \<Rightarrow> None
            | Some t \<Rightarrow> (if backslash \<in> set t
                         then Some (member_link_text m t
                                @ '' link target contains a backslash or a U+FFFD replacement character; '' @ ambiguous_name_hint)
                         else None)))"

definition has_parent_segment :: "string \<Rightarrow> bool" where
  "has_parent_segment path \<longleftrightarrow> ''..'' \<in> set (split_on (CHR ''/'') path)"

definition parent_segment_reason :: "archive_member \<Rightarrow> string option" where
  \<open>parent_segment_reason m =
     (if has_parent_segment (am_path m)
      then Some (''member '' @ json_stringify (am_path m) @ '' contains a ".." path segment'')
      else (case am_link_target m of
              None \<Rightarrow> None
            | Some t \<Rightarrow> (if am_kind m = HardlinkMember \<and> has_parent_segment t
                         then Some (member_link_text m t @ '' hardlink target contains a ".." path segment'') else None)))\<close>

definition or_else :: "'a option \<Rightarrow> 'a option \<Rightarrow> 'a option" where
  "or_else a b = (case a of Some x \<Rightarrow> Some x | None \<Rightarrow> b)"

lemma or_else_None [simp]: "or_else a b = None \<longleftrightarrow> a = None \<and> b = None"
  by (simp add: or_else_def split: option.split)

definition archive_member_unsafe_reason :: "archive_member \<Rightarrow> string option" where
  "archive_member_unsafe_reason m =
     (if am_format m = ZipFormat \<and> am_kind m = SymlinkMember
      then Some (''member '' @ json_stringify (am_path m) @ '' is a symlink'')
      else if am_kind m = SpecialMember
      then Some (''member '' @ json_stringify (am_path m) @ '' is a special file'')
      else if mode_has_setuid_or_setgid (am_mode m)
      then Some (''member '' @ json_stringify (am_path m) @ '' has setuid or setgid bit set (mode '' @ am_mode m @ '')'')
      else (case or_else (control_character_reason m) (or_else (ambiguous_name_reason m) (parent_segment_reason m)) of
              Some reason \<Rightarrow> Some reason
            | None \<Rightarrow>
                (if \<not> member_escapes_destination m then None
                 else Some ((case am_link_target m of
                               None \<Rightarrow> ''member '' @ json_stringify (am_path m)
                             | Some t \<Rightarrow> member_link_text m t) @ '' would escape destination''))))"

subsection \<open>Listing an archive\<close>

definition tar_list_flags :: "string \<Rightarrow> string option" where
  "tar_list_flags lower_source =
     (if ends_with lower_source ''.tar.gz'' \<or> ends_with lower_source ''.tgz'' then Some ''-tvzf''
      else if ends_with lower_source ''.tar.bz2'' then Some ''-tvjf''
      else if ends_with lower_source ''.tar.xz'' then Some ''-tvJf''
      else if ends_with lower_source ''.tar'' then Some ''-tvf''
      else None)"

definition is_zip_source :: "string \<Rightarrow> bool" where
  "is_zip_source lower_source = ends_with lower_source ''.zip''"

definition list_archive_members_command :: "string \<Rightarrow> string \<Rightarrow> string option" where
  "list_archive_members_command source archive_path =
     (let lower = to_lower source
      in case tar_list_flags lower of
           Some flags \<Rightarrow> Some (tar_listing_script flags archive_path)
         | None \<Rightarrow> (if is_zip_source lower then Some (''unzip -Zs '' @ shell_quote archive_path) else None))"

definition archive_capture_limit_bytes :: int where "archive_capture_limit_bytes = 16777216"

definition list_archive_members ::
  "(string \<Rightarrow> string option) \<Rightarrow> string \<Rightarrow> string \<Rightarrow> (string + archive_member list) script" where
  "list_archive_members utf8 archive_path source =
     (case list_archive_members_command source archive_path of
        None \<Rightarrow> give (Inl (''unsupported archive format for '' @ source))
      | Some cmd \<Rightarrow>
          script_bind (attempt (exec_script cmd (probe_exec\<lparr>eo_max_output_bytes := Some (Finite (of_int archive_capture_limit_bytes)),
                          eo_strict_utf8_stdout := True\<rparr>))) (\<lambda>outcome.
            case outcome of
              Inl e \<Rightarrow>
                (case e of
                   InvalidUtf8Err msg \<Rightarrow> give (Inl (''archive listing for '' @ source
                     @ '' is not valid UTF-8; refusing to validate member names that cannot be mapped to the extracted names reliably (a member name whose bytes are not valid UTF-8 cannot be mapped)''))
                 | _ \<Rightarrow> throw e)
            | Inr r \<Rightarrow>
                give (if ends_with (er_stdout r) capture_truncation_marker \<or> ends_with (er_stderr r) capture_truncation_marker
                      then Inl (''archive listing for '' @ source @ '' was truncated at the captured-output limit of ''
                             @ show_int archive_capture_limit_bytes @ '' bytes; refusing to validate incomplete member data'')
                      else if er_code r \<noteq> 0
                      then Inl (''failed to list members of '' @ source @ '': '' @ trim (er_stderr r))
                      else if is_zip_source (to_lower source) then parse_zip_listing (er_stdout r)
                      else parse_tar_listing utf8 (er_stdout r))))"

end
