(* ===== verification/ArchiveLinks.thy ===== *)
theory ArchiveLinks
  imports ArchiveListing
begin

text \<open>
  Where the symbolic links of an archive lead (\<^verbatim>\<open>archiveSymlinkResolver.ts\<close>,
  \<^verbatim>\<open>archiveContainmentScope.ts\<close>, \<^verbatim>\<open>archiveLinkAnalysis.ts\<close>, \<^verbatim>\<open>archiveLinkValidation.ts\<close>,
  \<^verbatim>\<open>archiveListingValidation.ts\<close>): the bounded resolver with its memo, the key under which two
  spellings of a path count as one name, and the rules for the links of an archive. Maps are association lists in insertion order, sets are lists.
  One round of the folding of names uses the Unicode tables of the platform; it is the parameter
  \<open>fold_round\<close>. The caches of a variant key are not modelled: they hold values of a function.
\<close>

subsection \<open>Names that may collide\<close>

definition symlink_resolution_limit :: nat where "symlink_resolution_limit = 40"
definition variant_key_round_limit :: nat where "variant_key_round_limit = 4"

fun variant_key_rounds :: "(string \<Rightarrow> string) \<Rightarrow> nat \<Rightarrow> string \<Rightarrow> string" where
  "variant_key_rounds fold_round 0 key = key"
| "variant_key_rounds fold_round (Suc n) key =
     (let following = fold_round key
      in if following = key then key else variant_key_rounds fold_round n following)"

definition path_name_variant_key :: "(string \<Rightarrow> string) \<Rightarrow> string \<Rightarrow> string" where
  "path_name_variant_key fold_round path =
     variant_key_rounds fold_round (variant_key_round_limit - 1) (fold_round path)"

fun ancestors_from :: "string \<Rightarrow> string \<Rightarrow> string list" where
  "ancestors_from before [] = []"
| "ancestors_from before (c # cs) =
     (if c = CHR ''/'' then [before] else []) @ ancestors_from (before @ [c]) cs"

definition proper_ancestors :: "string \<Rightarrow> string list" where
  "proper_ancestors key = ancestors_from [] key"

text \<open>The index of the symbolic links by variant key; the first path of a key stays.\<close>

type_synonym variant_index = "(string \<times> string) list"

definition symlink_variant_index :: "(string \<Rightarrow> string) \<Rightarrow> string list \<Rightarrow> variant_index" where
  "symlink_variant_index fold_round keys =
     foldl (\<lambda>index key.
       (let v = path_name_variant_key fold_round key
        in if map_of index v = None then index @ [(v, key)] else index)) [] keys"

definition first_some :: "('a \<Rightarrow> 'b option) \<Rightarrow> 'a list \<Rightarrow> 'b option" where
  "first_some f xs = (case List.map_filter f xs of [] \<Rightarrow> None | y # _ \<Rightarrow> Some y)"

definition symlink_ancestor :: "(string \<Rightarrow> string) \<Rightarrow> variant_index \<Rightarrow> string \<Rightarrow> string option" where
  "symlink_ancestor fold_round index key =
     (if index = [] then None
      else first_some (\<lambda>ancestor. map_of index (path_name_variant_key fold_round ancestor)) (proper_ancestors key))"

definition symlink_at :: "(string \<Rightarrow> string) \<Rightarrow> variant_index \<Rightarrow> string \<Rightarrow> string option" where
  "symlink_at fold_round index key =
     (if index = [] then None else map_of index (path_name_variant_key fold_round key))"

subsection \<open>The resolver\<close>

datatype walk_target = WalkOutside | WalkParent string | WalkRoot string

datatype symlink_resolution =
    RUnreadable string
  | Resolved nat "string list" "string list"
  | RDepth
  | REscape
  | RLimit
  | RUnmappable string
  | RVariant string string

text \<open>
  \<open>Resolved hops prefixes segments\<close>; \<open>RVariant link prefix\<close>. A resolution is tracked with the
  flag of its walk, whether it touched a path the archive writes.
\<close>

record tracked_resolution =
  tk_resolution :: symlink_resolution
  tk_touched :: bool

record resolver_scope =
  rs_unmappable :: "string list"
  rs_unreadable :: "string list"
  rs_written :: "string list"

definition empty_scope :: resolver_scope where
  "empty_scope = \<lparr>rs_unmappable = [], rs_unreadable = [], rs_written = []\<rparr>"

record resolver =
  rv_member_keys :: "string list"
  rv_targets :: "(string \<times> walk_target) list"
  rv_unmappable :: "string list"
  rv_unreadable :: "(string \<times> string) list"
  rv_variants :: "(string \<times> string list) list"
  rv_written :: "string list"

definition map_set :: "'k \<Rightarrow> 'v \<Rightarrow> ('k \<times> 'v) list \<Rightarrow> ('k \<times> 'v) list" where
  "map_set k v m = (if map_of m k = None then m @ [(k, v)] else map (\<lambda>(k', v'). (k', if k' = k then v else v')) m)"

definition add_variant :: "(string \<Rightarrow> string) \<Rightarrow> string \<Rightarrow> (string \<times> string list) list \<Rightarrow> (string \<times> string list) list" where
  "add_variant fold_round key variants =
     (let v = path_name_variant_key fold_round key
      in map_set v ((case map_of variants v of None \<Rightarrow> [] | Some known \<Rightarrow> known) @ [key]) variants)"

definition new_resolver ::
  "(string \<Rightarrow> string) \<Rightarrow> (string \<times> walk_target) list \<Rightarrow> string list \<Rightarrow> resolver_scope \<Rightarrow> resolver" where
  "new_resolver fold_round targets member_keys scope =
     \<lparr>rv_member_keys = member_keys, rv_targets = targets, rv_unmappable = rs_unmappable scope,
      rv_unreadable = foldl (\<lambda>m d. map_set (path_name_variant_key fold_round d) d m) [] (rs_unreadable scope),
      rv_variants = foldl (\<lambda>m key. add_variant fold_round key m) [] (map fst targets),
      rv_written = rs_written scope\<rparr>"

type_synonym resolution_memo = "(string \<times> tracked_resolution) list"

record walk_state =
  wk_hops :: nat
  wk_prefixes :: "string list"
  wk_segments :: "string list"

text \<open>
  What a walk changes besides its state: the flag on top of the stack of flags, and the memo. The
  stack of links in progress is an argument of the recursion.
\<close>

record walk_store =
  st_touched :: bool
  st_memo :: resolution_memo

definition mark_touched :: "walk_store \<Rightarrow> walk_store" where
  "mark_touched st = st\<lparr>st_touched := True\<rparr>"

definition unreadable_at :: "(string \<Rightarrow> string) \<Rightarrow> resolver \<Rightarrow> string \<Rightarrow> string \<Rightarrow> symlink_resolution option" where
  "unreadable_at fold_round rv p variant_key =
     (if rv_unreadable rv = [] then None
      else map_option RUnreadable
        (first_some (\<lambda>key. map_of (rv_unreadable rv) key)
           (variant_key # map (path_name_variant_key fold_round) (proper_ancestors p))))"

definition variant_of :: "resolver \<Rightarrow> string \<Rightarrow> string \<Rightarrow> symlink_resolution option" where
  "variant_of rv p variant_key =
     (case map_of (rv_variants rv) variant_key of
        None \<Rightarrow> None
      | Some known \<Rightarrow> map_option (\<lambda>link. RVariant link p) (find (\<lambda>candidate. candidate \<noteq> p) known))"

fun ancestor_variant_from ::
  "(string \<Rightarrow> string) \<Rightarrow> resolver \<Rightarrow> string list \<Rightarrow> walk_store \<Rightarrow> symlink_resolution option \<times> walk_store" where
  "ancestor_variant_from fold_round rv [] st = (None, st)"
| "ancestor_variant_from fold_round rv (ancestor # ancestors) st =
     (let variant_key = path_name_variant_key fold_round ancestor
      in case variant_of rv ancestor variant_key of
           Some variant \<Rightarrow> (Some variant, if variant_key \<in> set (rv_written rv) then mark_touched st else st)
         | None \<Rightarrow> ancestor_variant_from fold_round rv ancestors st)"

definition ancestor_variant ::
  "(string \<Rightarrow> string) \<Rightarrow> resolver \<Rightarrow> string \<Rightarrow> walk_store \<Rightarrow> symlink_resolution option \<times> walk_store" where
  "ancestor_variant fold_round rv key st = ancestor_variant_from fold_round rv (proper_ancestors key) st"

type_synonym link_resolver = "string \<Rightarrow> resolution_memo \<Rightarrow> tracked_resolution \<times> resolution_memo"

text \<open>\<open>follow\<close>: the resolution of the link at a path, the prefixes with the path added, and the store.\<close>

definition follow ::
  "(string \<Rightarrow> string) \<Rightarrow> resolver \<Rightarrow> link_resolver \<Rightarrow> string \<Rightarrow> string list \<Rightarrow> walk_store \<Rightarrow>
   (symlink_resolution option \<times> string list) \<times> walk_store" where
  "follow fold_round rv resolve p passed st0 =
     (let variant_key = path_name_variant_key fold_round p;
          st = (if variant_key \<in> set (rv_written rv) then mark_touched st0 else st0)
      in case unreadable_at fold_round rv p variant_key of
           Some failure \<Rightarrow> ((Some failure, passed), st)
         | None \<Rightarrow>
             (case variant_of rv p variant_key of
                Some failure \<Rightarrow> ((Some failure, passed), st)
              | None \<Rightarrow>
                  (if map_of (rv_targets rv) p \<noteq> None
                   then (case resolve p (st_memo st) of (followed, memo) \<Rightarrow>
                          ((Some (tk_resolution followed), passed),
                           \<lparr>st_touched = st_touched st \<or> tk_touched followed, st_memo = memo\<rparr>))
                   else ((None, if p \<in> set (rv_member_keys rv) then passed else passed @ [p]), st))))"

text \<open>\<open>Inl\<close> is a failure that ends the walk.\<close>

definition walk_step ::
  "(string \<Rightarrow> string) \<Rightarrow> resolver \<Rightarrow> link_resolver \<Rightarrow> walk_state \<Rightarrow> string \<Rightarrow> walk_store \<Rightarrow>
   (symlink_resolution + walk_state) \<times> walk_store" where
  "walk_step fold_round rv resolve state segment st =
     (if segment = [] \<or> segment = ''.'' then (Inr state, st)
      else if segment = ''..''
      then (if wk_segments state = [] then (Inl REscape, st)
            else (Inr (state\<lparr>wk_segments := butlast (wk_segments state)\<rparr>), st))
      else (let segments = wk_segments state @ [segment]
            in case follow fold_round rv resolve (join_with ''/'' segments) (wk_prefixes state) st of
                 ((followed, passed), st1) \<Rightarrow>
                   (case followed of
                      None \<Rightarrow> (Inr (state\<lparr>wk_segments := segments, wk_prefixes := passed\<rparr>), st1)
                    | Some (Resolved hops _ target_segments) \<Rightarrow>
                        (if wk_hops state + hops > symlink_resolution_limit then (Inl RLimit, st1)
                         else (Inr \<lparr>wk_hops = wk_hops state + hops, wk_prefixes = passed, wk_segments = target_segments\<rparr>, st1))
                    | Some failure \<Rightarrow> (Inl failure, st1))))"

fun walk_steps ::
  "(string \<Rightarrow> string) \<Rightarrow> resolver \<Rightarrow> link_resolver \<Rightarrow> string list \<Rightarrow> walk_state \<Rightarrow> walk_store \<Rightarrow>
   symlink_resolution \<times> walk_store" where
  "walk_steps fold_round rv resolve [] state st =
     (Resolved (wk_hops state) (wk_prefixes state) (wk_segments state), st)"
| "walk_steps fold_round rv resolve (segment # segments) state st =
     (case walk_step fold_round rv resolve state segment st of
        (Inl failure, st1) \<Rightarrow> (failure, st1)
      | (Inr state1, st1) \<Rightarrow> walk_steps fold_round rv resolve segments state1 st1)"

definition path_segments :: "string \<Rightarrow> string list" where
  "path_segments start = (if start = [] then [] else split_on (CHR ''/'') start)"

definition walk_from ::
  "(string \<Rightarrow> string) \<Rightarrow> resolver \<Rightarrow> link_resolver \<Rightarrow> string \<Rightarrow> string \<Rightarrow> string \<Rightarrow> walk_store \<Rightarrow>
   symlink_resolution \<times> walk_store" where
  "walk_from fold_round rv resolve key start path st =
     (case ancestor_variant fold_round rv key st of
        (Some failure, st1) \<Rightarrow> (failure, st1)
      | (None, st1) \<Rightarrow>
          walk_steps fold_round rv resolve (split_on (CHR ''/'') path)
            \<lparr>wk_hops = 1, wk_prefixes = [], wk_segments = path_segments start\<rparr> st1)"

definition walk ::
  "(string \<Rightarrow> string) \<Rightarrow> resolver \<Rightarrow> link_resolver \<Rightarrow> string \<Rightarrow> walk_store \<Rightarrow> symlink_resolution \<times> walk_store" where
  "walk fold_round rv resolve key st =
     (case map_of (rv_targets rv) key of
        None \<Rightarrow> (REscape, st)
      | Some WalkOutside \<Rightarrow> (REscape, st)
      | Some (WalkParent path) \<Rightarrow> walk_from fold_round rv resolve key (archive_member_parent_path key) path st
      | Some (WalkRoot path) \<Rightarrow> walk_from fold_round rv resolve key [] path st)"

function resolve_tracked ::
  "(string \<Rightarrow> string) \<Rightarrow> resolver \<Rightarrow> string list \<Rightarrow> string \<Rightarrow> resolution_memo \<Rightarrow> tracked_resolution \<times> resolution_memo" where
  "resolve_tracked fold_round rv in_progress key memo =
     (case map_of memo key of
        Some known \<Rightarrow> (known, memo)
      | None \<Rightarrow>
          (if key \<in> set in_progress then (\<lparr>tk_resolution = RLimit, tk_touched = False\<rparr>, memo)
           else if symlink_resolution_limit \<le> length in_progress
           then (\<lparr>tk_resolution = RDepth, tk_touched = False\<rparr>, memo)
           else (case walk fold_round rv (\<lambda>k m. resolve_tracked fold_round rv (key # in_progress) k m) key
                        \<lparr>st_touched = False, st_memo = memo\<rparr> of
                   (walked, st) \<Rightarrow>
                     (let resolution = (if key \<in> set (rv_unmappable rv) then RUnmappable key else walked);
                          tracked = \<lparr>tk_resolution = resolution, tk_touched = st_touched st\<rparr>
                      in (tracked, if resolution = RDepth then st_memo st else (key, tracked) # st_memo st)))))"
  by pat_completeness auto
termination
  by (relation "measure (\<lambda>(fold_round, rv, in_progress, key, memo). symlink_resolution_limit - length in_progress)") auto

declare resolve_tracked.simps [simp del]

definition resolve_link ::
  "(string \<Rightarrow> string) \<Rightarrow> resolver \<Rightarrow> string \<Rightarrow> resolution_memo \<Rightarrow> symlink_resolution \<times> resolution_memo" where
  "resolve_link fold_round rv key memo =
     (case resolve_tracked fold_round rv [] key memo of (tracked, memo1) \<Rightarrow> (tk_resolution tracked, memo1))"

definition variant_description :: "string \<Rightarrow> string \<Rightarrow> string" where
  "variant_description link p =
     ''passes through '' @ json_stringify p @ '', a name that differs from existing symlink '' @ json_stringify link
     @ '' only by letter case or Unicode normalization; a case-insensitive or normalizing filesystem may follow that symlink instead''"

subsection \<open>Members with their keys\<close>

definition keyed_members :: "archive_member list \<Rightarrow> (string \<times> archive_member) list" where
  "keyed_members members =
     List.map_filter (\<lambda>m. map_option (\<lambda>key. (key, m)) (normalize_archive_member_path (am_path m))) members"

record containment_scope =
  cs_archive_links :: "string list"
  cs_written :: "string list"

definition normalized_member_keys :: "archive_member list \<Rightarrow> string list" where
  "normalized_member_keys members = filter (\<lambda>key. key \<noteq> []) (rev (remdups (rev (map fst (keyed_members members)))))"

definition unreadable_directory_index :: "(string \<Rightarrow> string) \<Rightarrow> string list \<Rightarrow> (string \<times> string) list" where
  "unreadable_directory_index fold_round unreadable =
     foldl (\<lambda>m path. map_set (path_name_variant_key fold_round path) path m) [] unreadable"

definition unreadable_directory_at :: "(string \<Rightarrow> string) \<Rightarrow> string \<Rightarrow> (string \<times> string) list \<Rightarrow> string option" where
  "unreadable_directory_at fold_round key index =
     (if index = [] \<or> key = [] then None
      else (let segments = split_on (CHR ''/'') key
            in first_some (\<lambda>n. map_of index (path_name_variant_key fold_round (join_with ''/'' (take n segments))))
                 [1..<length segments + 1]))"

definition archive_containment_scope :: "(string \<Rightarrow> string) \<Rightarrow> archive_member list \<Rightarrow> containment_scope" where
  "archive_containment_scope fold_round members =
     foldl (\<lambda>scope (key, m).
       (if key = [] then scope
        else \<lparr>cs_archive_links = cs_archive_links scope
                 @ (if am_kind m = SymlinkMember then [path_name_variant_key fold_round key] else []),
              cs_written = cs_written scope @ path_name_variant_key fold_round key
                 # map (path_name_variant_key fold_round) (proper_ancestors key)\<rparr>))
       \<lparr>cs_archive_links = [], cs_written = []\<rparr> (keyed_members members)"

definition archive_has_symlinks :: "archive_member list \<Rightarrow> bool" where
  "archive_has_symlinks members = list_ex (\<lambda>m. am_kind m = SymlinkMember) members"

definition archive_targets :: "(string \<times> archive_member) list \<Rightarrow> (string \<times> walk_target) list" where
  "archive_targets entries =
     foldl (\<lambda>targets (key, m).
       (if am_kind m = SymlinkMember
        then map_set key (WalkParent (case am_link_target m of None \<Rightarrow> [] | Some t \<Rightarrow> t)) targets
        else targets)) [] entries"

definition archive_resolver :: "(string \<Rightarrow> string) \<Rightarrow> (string \<times> archive_member) list \<Rightarrow> resolver" where
  "archive_resolver fold_round entries =
     new_resolver fold_round (archive_targets entries) (map fst entries) empty_scope"

subsection \<open>The rules for the links of an archive\<close>

definition is_link :: "archive_member \<Rightarrow> bool" where
  "is_link m \<longleftrightarrow> am_kind m = SymlinkMember \<or> am_kind m = HardlinkMember"

definition hardlink_target_key :: "archive_member \<Rightarrow> string option" where
  "hardlink_target_key m =
     (if am_kind m \<noteq> HardlinkMember then None
      else (case am_link_target m of None \<Rightarrow> None | Some t \<Rightarrow> normalize_archive_member_path t))"

definition root_link_reason :: "(string \<times> archive_member) list \<Rightarrow> string option" where
  "root_link_reason entries =
     map_option (\<lambda>(key, m). ''member '' @ json_stringify (am_path m) @ '' is a link at the destination root'')
       (find (\<lambda>(key, m). key = [] \<and> is_link m) entries)"

definition conflicting_duplicate :: "(string \<times> archive_member) list \<Rightarrow> (string \<times> archive_member) option" where
  "conflicting_duplicate same =
     (case same of
        [] \<Rightarrow> None
      | [e] \<Rightarrow> None
      | e # _ \<Rightarrow>
          (if \<not> list_ex (\<lambda>(key, m). am_kind m = SymlinkMember) same then None
           else if list_ex (\<lambda>(key, m). am_kind m \<noteq> am_kind (snd e) \<or> am_link_target m \<noteq> am_link_target (snd e)) same
           then Some e else None))"

definition duplicate_groups ::
  "(string \<Rightarrow> string) \<Rightarrow> (string \<times> archive_member) list \<Rightarrow> (string \<times> (string \<times> archive_member) list) list" where
  "duplicate_groups fold_round entries =
     foldl (\<lambda>groups e.
       (let v = path_name_variant_key fold_round (fst e)
        in map_set v ((case map_of groups v of None \<Rightarrow> [] | Some same \<Rightarrow> same) @ [e]) groups)) [] entries"

definition duplicate_in_group :: "(string \<times> archive_member) list \<Rightarrow> string option" where
  "duplicate_in_group same =
     (case conflicting_duplicate same of
        None \<Rightarrow> None
      | Some (key, m) \<Rightarrow>
          Some (''member '' @ json_stringify (am_path m) @ '' occurs more than once with conflicting link types or targets''
            @ (case find (\<lambda>e. fst e \<noteq> key) same of
                 None \<Rightarrow> []
               | Some other \<Rightarrow> '' (also spelled '' @ json_stringify (am_path (snd other)) @ '')'')))"

definition duplicate_reason :: "(string \<Rightarrow> string) \<Rightarrow> (string \<times> archive_member) list \<Rightarrow> string option" where
  "duplicate_reason fold_round entries =
     first_some duplicate_in_group (map snd (duplicate_groups fold_round entries))"

definition ancestor_reason_of ::
  "(string \<Rightarrow> string) \<Rightarrow> variant_index \<Rightarrow> string \<times> archive_member \<Rightarrow> string option" where
  "ancestor_reason_of fold_round symlinks e =
     (case symlink_ancestor fold_round symlinks (fst e) of
        Some ancestor \<Rightarrow>
          Some (''member '' @ json_stringify (am_path (snd e)) @ '' is below archive symlink '' @ json_stringify ancestor)
      | None \<Rightarrow>
          (case hardlink_target_key (snd e) of
             None \<Rightarrow> None
           | Some target_key \<Rightarrow>
               map_option (\<lambda>ancestor. ''member '' @ json_stringify (am_path (snd e))
                     @ '' hardlinks to archive symlink '' @ json_stringify ancestor)
                 (symlink_ancestor fold_round symlinks target_key)))"

definition ancestor_reason ::
  "(string \<Rightarrow> string) \<Rightarrow> (string \<times> archive_member) list \<Rightarrow> variant_index \<Rightarrow> string option" where
  "ancestor_reason fold_round entries symlinks = first_some (ancestor_reason_of fold_round symlinks) entries"

definition hardlink_to_symlink_reason ::
  "(string \<Rightarrow> string) \<Rightarrow> (string \<times> archive_member) list \<Rightarrow> variant_index \<Rightarrow> string option" where
  "hardlink_to_symlink_reason fold_round entries symlinks =
     first_some (\<lambda>e.
       (case hardlink_target_key (snd e) of
          None \<Rightarrow> None
        | Some target_key \<Rightarrow>
            map_option (\<lambda>symlink. ''member '' @ json_stringify (am_path (snd e))
                  @ '' hardlinks to archive symlink '' @ json_stringify symlink)
              (symlink_at fold_round symlinks target_key))) entries"

definition resolution_failure_text :: "archive_member \<Rightarrow> symlink_resolution \<Rightarrow> string option" where
  "resolution_failure_text m resolution =
     (let detail = ''member '' @ json_stringify (am_path m) @ '' -> ''
            @ (case am_link_target m of None \<Rightarrow> ''null'' | Some t \<Rightarrow> json_stringify t)
      in case resolution of
           Resolved _ _ _ \<Rightarrow> None
         | RVariant link p \<Rightarrow> Some (detail @ '' '' @ variant_description link p)
         | REscape \<Rightarrow> Some (detail @ '' would escape destination'')
         | _ \<Rightarrow> Some (detail @ '' exceeds the symlink resolution limit''))"

text \<open>The loop over the links with the memo of the resolver, which later calls share.\<close>

fun resolution_reason ::
  "(string \<Rightarrow> string) \<Rightarrow> resolver \<Rightarrow> (string \<times> archive_member) list \<Rightarrow> resolution_memo \<Rightarrow> string option \<times> resolution_memo" where
  "resolution_reason fold_round rv [] memo = (None, memo)"
| "resolution_reason fold_round rv ((key, m) # entries) memo =
     (if am_kind m \<noteq> SymlinkMember then resolution_reason fold_round rv entries memo
      else (case resolve_link fold_round rv key memo of
              (resolution, memo1) \<Rightarrow>
                (case resolution_failure_text m resolution of
                   Some reason \<Rightarrow> (Some reason, memo1)
                 | None \<Rightarrow> resolution_reason fold_round rv entries memo1)))"

definition archive_link_unsafe_reason :: "(string \<Rightarrow> string) \<Rightarrow> archive_member list \<Rightarrow> string option" where
  "archive_link_unsafe_reason fold_round members =
     (let entries = keyed_members members;
          symlinks = symlink_variant_index fold_round
            (map fst (filter (\<lambda>(key, m). am_kind m = SymlinkMember) entries))
      in or_else (root_link_reason entries)
        (or_else (duplicate_reason fold_round entries)
        (or_else (ancestor_reason fold_round entries symlinks)
        (or_else (hardlink_to_symlink_reason fold_round entries symlinks)
          (fst (resolution_reason fold_round (archive_resolver fold_round entries) entries []))))))"

fun collect_prefixes ::
  "(string \<Rightarrow> string) \<Rightarrow> resolver \<Rightarrow> (string \<times> archive_member) list \<Rightarrow> (string \<times> string) list \<Rightarrow> resolution_memo \<Rightarrow>
   (string \<times> string) list" where
  "collect_prefixes fold_round rv [] visited memo = visited"
| "collect_prefixes fold_round rv ((key, m) # entries) visited memo =
     (if am_kind m \<noteq> SymlinkMember then collect_prefixes fold_round rv entries visited memo
      else (case resolve_link fold_round rv key memo of
              (Resolved _ passed _, memo1) \<Rightarrow>
                collect_prefixes fold_round rv entries
                  (foldl (\<lambda>v p. if map_of v p = None then v @ [(p, am_path m)] else v) visited passed) memo1
            | (_, memo1) \<Rightarrow> collect_prefixes fold_round rv entries visited memo1))"

text \<open>The resolver of a list of members is shared, so \<open>memo\<close> is what earlier calls have left in it.\<close>

definition archive_symlink_target_prefixes ::
  "(string \<Rightarrow> string) \<Rightarrow> archive_member list \<Rightarrow> resolution_memo \<Rightarrow> (string \<times> string) list" where
  "archive_symlink_target_prefixes fold_round members memo =
     (let entries = keyed_members members
      in collect_prefixes fold_round (archive_resolver fold_round entries) entries [] memo)"

definition validated_archive_members ::
  "(string \<Rightarrow> string) \<Rightarrow> (string \<Rightarrow> string option) \<Rightarrow> string \<Rightarrow> string \<Rightarrow> (module_result + archive_member list) script" where
  "validated_archive_members fold_round utf8 archive_path source =
     script_bind (list_archive_members utf8 archive_path source) (\<lambda>listing.
       give (case listing of
               Inl reason \<Rightarrow> Inl (failed_result (''[archive.extract] '' @ reason))
             | Inr members \<Rightarrow>
                 (case or_else (first_some archive_member_unsafe_reason members)
                         (archive_link_unsafe_reason fold_round members) of
                    Some reason \<Rightarrow> Inl (failed_result (''[archive.extract] refusing to extract '' @ source @ '': '' @ reason))
                  | None \<Rightarrow> Inr members)))"

end
