(* ===== verification/LinkWalk.thy ===== *)
theory LinkWalk
  imports ArchiveLinks
begin

text \<open>
  What the rules for the links of an archive are worth: the resolver never asks a host, so it is
  compared with the walk of a kernel over the tree that holds the links.
\<close>

subsection \<open>The walk of a kernel\<close>

text \<open>
  A link tree gives the target of the link at a path below the destination, if there is one. A
  lookup walks a path by its segments, follows links, and gives up after a number of them; it
  leaves the destination when \<^verbatim>\<open>..\<close> is walked at its root, or through a link to an absolute path
  outside. A path without a file ends a real lookup earlier; here it is walked on.
\<close>

type_synonym link_tree = "string list \<Rightarrow> walk_target option"

datatype lookup = Reached "string list" | Outside | TooManyLinks

function kernel_lookup :: "link_tree \<Rightarrow> nat \<Rightarrow> string list \<Rightarrow> string list \<Rightarrow> lookup" where
  "kernel_lookup L n cur [] = Reached cur"
| "kernel_lookup L n cur (s # rest) =
     (if s = [] \<or> s = ''.'' then kernel_lookup L n cur rest
      else if s = ''..'' then (if cur = [] then Outside else kernel_lookup L n (butlast cur) rest)
      else (case L (cur @ [s]) of
              None \<Rightarrow> kernel_lookup L n (cur @ [s]) rest
            | Some target \<Rightarrow>
                (case n of
                   0 \<Rightarrow> TooManyLinks
                 | Suc k \<Rightarrow>
                     (case target of
                        WalkOutside \<Rightarrow> Outside
                      | WalkParent p \<Rightarrow> kernel_lookup L k cur (split_on (CHR ''/'') p @ rest)
                      | WalkRoot p \<Rightarrow> kernel_lookup L k [] (split_on (CHR ''/'') p @ rest)))))"
  by pat_completeness auto
termination
  by (relation "measures [\<lambda>(L, n, cur, rest). n, \<lambda>(L, n, cur, rest). length rest]") auto

text \<open>
  The tree has a link for each path of \<open>targets\<close>, and each of its links is one of them, possibly
  under another spelling of its name that the key of variants identifies.
\<close>

definition holds_links :: "(string \<Rightarrow> string) \<Rightarrow> (string \<times> walk_target) list \<Rightarrow> link_tree \<Rightarrow> bool" where
  "holds_links fold_round targets L \<longleftrightarrow>
     (\<forall>k \<in> set (map fst targets). L (path_segments k) \<noteq> None) \<and>
     (\<forall>q t. L q = Some t \<longrightarrow>
        (\<exists>k. map_of targets k = Some t \<and>
           path_name_variant_key fold_round k = path_name_variant_key fold_round (join_with ''/'' q)))"

subsection \<open>Segments\<close>

definition slash_free :: "string list \<Rightarrow> bool" where
  "slash_free segs \<longleftrightarrow> list_all (\<lambda>s. CHR ''/'' \<notin> set s \<and> s \<noteq> []) segs"

lemma slash_free_simps [simp]:
  "slash_free []" "slash_free (s # segs) \<longleftrightarrow> CHR ''/'' \<notin> set s \<and> s \<noteq> [] \<and> slash_free segs"
  "slash_free (xs @ ys) \<longleftrightarrow> slash_free xs \<and> slash_free ys"
  by (auto simp: slash_free_def)

lemma slash_free_butlast: "slash_free segs \<Longrightarrow> slash_free (butlast segs)"
  by (auto simp: slash_free_def list_all_iff dest: in_set_butlastD)

lemma path_segments_join: "slash_free segs \<Longrightarrow> path_segments (join_with ''/'' segs) = segs"
proof -
  assume s: "slash_free segs"
  have "segs \<noteq> [] \<Longrightarrow> join_with ''/'' segs \<noteq> []"
    using s by (cases segs; cases "tl segs") auto
  moreover have "segs \<noteq> [] \<Longrightarrow> split_on (CHR ''/'') (join_with [CHR ''/''] segs) = segs"
    using s by (intro split_on_join) (auto simp: slash_free_def list_all_iff)
  ultimately show ?thesis by (cases "segs = []") (simp_all add: path_segments_def)
qed

lemma last_slash_append: "CHR ''/'' \<notin> set s \<Longrightarrow> last_slash (a @ CHR ''/'' # s) = Some (length a)"
  by (simp add: last_slash_def index_of_append)

lemma last_slash_None: "CHR ''/'' \<notin> set s \<Longrightarrow> last_slash s = None"
  by (simp add: last_slash_def index_of_None)

lemma join_snoc: "segs \<noteq> [] \<Longrightarrow> join_with ''/'' (segs @ [s]) = join_with ''/'' segs @ CHR ''/'' # s"
  using join_with_snoc[of segs "''/''" s] by simp

lemma parent_of_join:
  assumes "slash_free (segs @ [s])"
  shows "archive_member_parent_path (join_with ''/'' (segs @ [s])) = join_with ''/'' segs"
proof (cases "segs = []")
  case True
  then show ?thesis using assms by (simp add: archive_member_parent_path_def last_slash_None)
next
  case False
  then show ?thesis using assms by (simp add: archive_member_parent_path_def join_snoc last_slash_append)
qed

lemma split_slash_free: "s \<in> set (split_on (CHR ''/'') p) \<Longrightarrow> CHR ''/'' \<notin> set s"
  by (rule split_on_no_sep)

subsection \<open>The maps of the resolver\<close>

lemma map_of_map_set [simp]: "map_of (map_set k v m) = (map_of m)(k \<mapsto> v)"
proof -
  have "map_of (map (\<lambda>(k', v'). (k', if k' = k then v else v')) m) x =
      (if x = k \<and> map_of m k \<noteq> None then Some v else map_of m x)" for x
    by (induction m) auto
  then show ?thesis by (auto simp: map_set_def fun_eq_iff map_add_def split: option.split)
qed

lemma variants_complete:
  "k \<in> set keys \<Longrightarrow>
   \<exists>known. map_of (foldl (\<lambda>m key. add_variant f key m) [] keys) (path_name_variant_key f k) = Some known \<and> k \<in> set known"
proof (induction keys rule: rev_induct)
  case (snoc x xs)
  then show ?case
    by (cases "k = x") (auto simp: add_variant_def Let_def split: option.split)
qed simp

lemma variant_of_None:
  assumes "variant_of (new_resolver f targets mk sc) p (path_name_variant_key f p) = None"
    and "k \<in> set (map fst targets)" and "path_name_variant_key f k = path_name_variant_key f p"
  shows "k = p"
proof -
  obtain known where "map_of (rv_variants (new_resolver f targets mk sc)) (path_name_variant_key f p) = Some known" "k \<in> set known"
    using variants_complete[OF assms(2), of f] assms(3) by (auto simp: new_resolver_def)
  then show ?thesis using assms(1) by (auto simp: variant_of_def find_None_iff)
qed

subsection \<open>Soundness of the resolver\<close>

text \<open>
  What a resolved link promises: from where its target is walked, a kernel with a budget of
  further links continues at the segments, or runs out of budget.
\<close>

definition target_base :: "string \<Rightarrow> walk_target \<Rightarrow> string list \<Rightarrow> string \<Rightarrow> bool" where
  "target_base key t base p \<longleftrightarrow>
     (t = WalkParent p \<and> base = path_segments (archive_member_parent_path key)) \<or> (t = WalkRoot p \<and> base = [])"

definition continues_at :: "link_tree \<Rightarrow> string list \<Rightarrow> string list \<Rightarrow> nat \<Rightarrow> string list \<Rightarrow> bool" where
  "continues_at L cur segs h cur' \<longleftrightarrow>
     (\<forall>n rest. kernel_lookup L n cur (segs @ rest) =
        (if h \<le> n then kernel_lookup L (n - h) cur' rest else TooManyLinks))"

definition link_law :: "link_tree \<Rightarrow> (string \<times> walk_target) list \<Rightarrow> string \<Rightarrow> symlink_resolution \<Rightarrow> bool" where
  "link_law L targets key r \<longleftrightarrow>
     (case r of
        Resolved hops _ segs \<Rightarrow>
          slash_free segs \<and> 0 < hops \<and> hops \<le> symlink_resolution_limit \<and>
          (\<exists>t base p. map_of targets key = Some t \<and> target_base key t base p \<and>
             continues_at L base (split_on (CHR ''/'') p) (hops - 1) segs)
      | _ \<Rightarrow> True)"

definition memo_law :: "link_tree \<Rightarrow> (string \<times> walk_target) list \<Rightarrow> resolution_memo \<Rightarrow> bool" where
  "memo_law L targets memo \<longleftrightarrow> (\<forall>k t. map_of memo k = Some t \<longrightarrow> link_law L targets k (tk_resolution t))"

definition sound_resolver :: "link_tree \<Rightarrow> (string \<times> walk_target) list \<Rightarrow> link_resolver \<Rightarrow> bool" where
  "sound_resolver L targets resolve \<longleftrightarrow>
     (\<forall>k m. slash_free (path_segments (archive_member_parent_path k)) \<longrightarrow> memo_law L targets m \<longrightarrow>
        link_law L targets k (tk_resolution (fst (resolve k m))) \<and> memo_law L targets (snd (resolve k m)))"

lemma continues_Nil [simp]: "continues_at L cur [] h cur' \<longleftrightarrow> h = 0 \<and> cur' = cur"
proof
  assume c: "continues_at L cur [] h cur'"
  from c[unfolded continues_at_def, rule_format, of 0 "[]"] have "h = 0" by (auto split: if_splits)
  moreover from c[unfolded continues_at_def, rule_format, of h "[]"] have "cur' = cur" by simp
  ultimately show "h = 0 \<and> cur' = cur" by simp
qed (simp add: continues_at_def)

lemma continues_Cons:
  assumes "continues_at L cur [s] h cur1" and "continues_at L cur1 segs h' cur2"
  shows "continues_at L cur (s # segs) (h + h') cur2"
proof -
  have "kernel_lookup L n cur (s # segs @ rest) =
      (if h + h' \<le> n then kernel_lookup L (n - (h + h')) cur2 rest else TooManyLinks)" for n rest
  proof (cases "h \<le> n")
    case True
    then have "kernel_lookup L n cur (s # segs @ rest) = kernel_lookup L (n - h) cur1 (segs @ rest)"
      using assms(1) unfolding continues_at_def by simp
    also have "\<dots> = (if h' \<le> n - h then kernel_lookup L (n - h - h') cur2 rest else TooManyLinks)"
      using assms(2) unfolding continues_at_def by blast
    finally show ?thesis using True by auto
  next
    case False
    then show ?thesis using assms(1) unfolding continues_at_def by simp
  qed
  then show ?thesis by (simp add: continues_at_def)
qed

locale link_walk =
  fixes fold_round :: "string \<Rightarrow> string" and targets :: "(string \<times> walk_target) list" and L :: link_tree
    and member_keys :: "string list" and scope :: resolver_scope
  assumes holds: "holds_links fold_round targets L"
begin

abbreviation rv :: resolver where "rv \<equiv> new_resolver fold_round targets member_keys scope"

lemma rv_targets_new [simp]: "rv_targets rv = targets"
  by (simp add: new_resolver_def)

text \<open>Without a variant of its name a path has a link in the tree exactly when it is a target.\<close>

lemma tree_is_targets:
  assumes "slash_free q" and "q \<noteq> []"
    and "variant_of rv (join_with ''/'' q) (path_name_variant_key fold_round (join_with ''/'' q)) = None"
  shows "L q = map_of targets (join_with ''/'' q)"
proof (cases "L q")
  case None
  then have "join_with ''/'' q \<notin> set (map fst targets)"
    using holds path_segments_join[OF assms(1)] unfolding holds_links_def by metis
  then show ?thesis using None by (metis map_of_eq_None_iff list.set_map)
next
  case (Some t)
  then obtain k where "map_of targets k = Some t"
    "path_name_variant_key fold_round k = path_name_variant_key fold_round (join_with ''/'' q)"
    using holds unfolding holds_links_def by blast
  moreover from this have "k \<in> set (map fst targets)"
    by (metis map_of_eq_None_iff option.distinct(1) list.set_map)
  ultimately show ?thesis using variant_of_None[OF assms(3)] Some by metis
qed

lemma target_at:
  assumes "slash_free cur" and "CHR ''/'' \<notin> set s" and "s \<noteq> []"
    and "target_base (join_with ''/'' (cur @ [s])) t base p"
  shows "(t = WalkParent p \<and> base = cur) \<or> (t = WalkRoot p \<and> base = [])"
  using assms parent_of_join[of cur s] path_segments_join[of cur] by (auto simp: target_base_def)

lemma follow_sound:
  assumes resolve: "sound_resolver L targets resolve" and memo: "memo_law L targets (st_memo st)"
    and seg: "CHR ''/'' \<notin> set s" "s \<noteq> []" "s \<noteq> ''.''" "s \<noteq> ''..''" and cur: "slash_free cur"
    and run: "follow fold_round rv resolve (join_with ''/'' (cur @ [s])) passed st = ((followed, passed1), st1)"
  shows "memo_law L targets (st_memo st1)" and "followed = None \<Longrightarrow> continues_at L cur [s] 0 (cur @ [s])"
    and "followed = Some (Resolved hops pre segs) \<Longrightarrow>
      slash_free segs \<and> 0 < hops \<and> hops \<le> symlink_resolution_limit \<and> continues_at L cur [s] hops segs"
proof -
  let ?p = "join_with ''/'' (cur @ [s])"
  let ?v = "path_name_variant_key fold_round ?p"
  let ?st = "if ?v \<in> set (rv_written rv) then mark_touched st else st"
  have q: "slash_free (cur @ [s])" using seg cur by simp
  have "slash_free (path_segments (archive_member_parent_path ?p))"
    using parent_of_join[OF q] path_segments_join[OF cur] cur by simp
  then have resolve: "memo_law L targets m \<Longrightarrow>
        link_law L targets ?p (tk_resolution (fst (resolve ?p m))) \<and> memo_law L targets (snd (resolve ?p m))" for m
    using resolve unfolding sound_resolver_def by blast
  have m: "memo_law L targets (st_memo ?st)" using memo by (simp add: mark_touched_def)
  have tree: "L (cur @ [s]) = map_of targets ?p" if "variant_of rv ?p ?v = None"
    using tree_is_targets[OF q _ that] by simp
  show "memo_law L targets (st_memo st1)"
    using run m resolve[OF m]
    by (auto simp: follow_def Let_def split: option.splits if_splits prod.splits)
  show "continues_at L cur [s] 0 (cur @ [s])" if "followed = None"
  proof -
    have "variant_of rv ?p ?v = None" "map_of targets ?p = None"
      using run that by (auto simp: follow_def Let_def split: option.splits if_splits prod.splits)
    then show ?thesis using tree seg by (simp add: continues_at_def)
  qed
  show "slash_free segs \<and> 0 < hops \<and> hops \<le> symlink_resolution_limit \<and> continues_at L cur [s] hops segs"
    if "followed = Some (Resolved hops pre segs)"
  proof -
    have v: "variant_of rv ?p ?v = None" and r: "tk_resolution (fst (resolve ?p (st_memo ?st))) = Resolved hops pre segs"
      using run that
      by (auto simp: follow_def Let_def unreadable_at_def variant_of_def split: option.splits if_splits prod.splits)
    then have "link_law L targets ?p (Resolved hops pre segs)"
      using resolve[OF m] by metis
    then obtain t base p where law: "slash_free segs" "0 < hops" "hops \<le> symlink_resolution_limit"
      "map_of targets ?p = Some t" "target_base ?p t base p" "continues_at L base (split_on (CHR ''/'') p) (hops - 1) segs"
      by (auto simp: link_law_def)
    have "L (cur @ [s]) = Some t" using tree[OF v] law(4) by simp
    then have "kernel_lookup L n cur (s # rest) =
        (if hops \<le> n then kernel_lookup L (n - hops) segs rest else TooManyLinks)" for n rest
      using target_at[OF cur seg(1,2) law(5)] law(2,6) seg
      by (cases n) (auto simp: continues_at_def split: nat.split)
    then show ?thesis using law by (simp add: continues_at_def)
  qed
qed

lemma walk_step_sound:
  assumes "sound_resolver L targets resolve" and "memo_law L targets (st_memo st)"
    and "CHR ''/'' \<notin> set segment" and "slash_free (wk_segments state)" and "wk_hops state \<le> symlink_resolution_limit"
    and "walk_step fold_round rv resolve state segment st = (r, st1)"
  shows "memo_law L targets (st_memo st1) \<and>
    (\<forall>state1. r = Inr state1 \<longrightarrow> slash_free (wk_segments state1) \<and> wk_hops state \<le> wk_hops state1 \<and>
       wk_hops state1 \<le> symlink_resolution_limit \<and>
       continues_at L (wk_segments state) [segment] (wk_hops state1 - wk_hops state) (wk_segments state1))"
proof (cases "segment = [] \<or> segment = ''.'' \<or> segment = ''..''")
  case True
  then show ?thesis using assms(2-6)
    by (auto simp: walk_step_def continues_at_def slash_free_butlast split: if_splits)
next
  case False
  let ?p = "join_with ''/'' (wk_segments state @ [segment])"
  obtain followed passed st2 where f: "follow fold_round rv resolve ?p (wk_prefixes state) st = ((followed, passed), st2)"
    by (metis surj_pair)
  note sound = follow_sound[OF assms(1,2,3) _ _ _ assms(4) f]
  show ?thesis
  proof (cases followed)
    case None
    then show ?thesis using False assms(3-6) f sound by (auto simp: walk_step_def)
  next
    case (Some resolution)
    then show ?thesis using False assms(3-6) f sound
      by (cases resolution) (auto simp: walk_step_def split: if_splits)
  qed
qed

lemma walk_steps_sound:
  assumes "sound_resolver L targets resolve" and "list_all (\<lambda>s. CHR ''/'' \<notin> set s) segs"
  shows "memo_law L targets (st_memo st) \<Longrightarrow> slash_free (wk_segments state) \<Longrightarrow>
    wk_hops state \<le> symlink_resolution_limit \<Longrightarrow> walk_steps fold_round rv resolve segs state st = (r, st1) \<Longrightarrow>
    memo_law L targets (st_memo st1) \<and>
    (\<forall>hops pre inside. r = Resolved hops pre inside \<longrightarrow> slash_free inside \<and> wk_hops state \<le> hops \<and>
       hops \<le> symlink_resolution_limit \<and> continues_at L (wk_segments state) segs (hops - wk_hops state) inside)"
  using assms(2)
proof (induction segs arbitrary: state st)
  case (Cons s segs)
  obtain r1 st2 where step: "walk_step fold_round rv resolve state s st = (r1, st2)" by (metis surj_pair)
  note sound = walk_step_sound[OF assms(1) Cons.prems(1) _ Cons.prems(2,3) step]
  show ?case
  proof (cases r1)
    case (Inl failure)
    have "\<forall>h p i. failure \<noteq> Resolved h p i"
      using step Inl by (auto simp: walk_step_def Let_def split: if_splits prod.splits option.splits symlink_resolution.splits)
    then show ?thesis using Cons.prems sound step Inl by auto
  next
    case (Inr state1)
    have "memo_law L targets (st_memo st1) \<and>
      (\<forall>hops pre inside. r = Resolved hops pre inside \<longrightarrow> slash_free inside \<and> wk_hops state1 \<le> hops \<and>
         hops \<le> symlink_resolution_limit \<and> continues_at L (wk_segments state1) segs (hops - wk_hops state1) inside)"
      using Cons.prems sound step Inr by (intro Cons.IH) auto
    moreover have "continues_at L (wk_segments state) (s # segs) (hops - wk_hops state) inside"
      if "wk_hops state1 \<le> hops" "continues_at L (wk_segments state1) segs (hops - wk_hops state1) inside" for hops inside
      using continues_Cons[of L "wk_segments state" s "wk_hops state1 - wk_hops state" "wk_segments state1" segs "hops - wk_hops state1" inside]
        sound Inr that Cons.prems by auto
    ultimately show ?thesis using sound Inr Cons.prems by fastforce
  qed
qed auto

lemma ancestor_variant_memo: "ancestor_variant_from fold_round rv ancestors st = (r, st1) \<Longrightarrow> st_memo st1 = st_memo st"
  by (induction ancestors) (auto simp: Let_def mark_touched_def split: option.splits if_splits)

lemma walk_sound:
  assumes "sound_resolver L targets resolve" and "memo_law L targets (st_memo st)"
    and "walk fold_round rv resolve key st = (r, st1)"
    and "slash_free (path_segments (archive_member_parent_path key))"
  shows "memo_law L targets (st_memo st1) \<and> link_law L targets key r"
proof -
  have from_base: "memo_law L targets (st_memo st1) \<and> link_law L targets key r"
    if t: "map_of targets key = Some t" "target_base key t base p" and b: "slash_free base"
      and run: "walk_from fold_round rv resolve key start p st = (r, st1)" and start: "base = path_segments start" for t base p start
  proof -
    obtain a st2 where anc: "ancestor_variant fold_round rv key st = (a, st2)" by (metis surj_pair)
    have m2: "memo_law L targets (st_memo st2)"
      using anc ancestor_variant_memo assms(2) by (simp add: ancestor_variant_def)
    have anc_fail: "\<And>f h pre i. a = Some f \<Longrightarrow> f \<noteq> Resolved h pre i"
    proof -
      have "ancestor_variant_from fold_round rv xs s = (Some f, s') \<Longrightarrow> f \<noteq> Resolved h pre i" for xs s s' f h pre i
        by (induction xs) (auto simp: Let_def variant_of_def split: option.splits)
      then show "\<And>f h pre i. a = Some f \<Longrightarrow> f \<noteq> Resolved h pre i" using anc by (auto simp: ancestor_variant_def)
    qed
    show ?thesis
    proof (cases a)
      case (Some f)
      then have "r = f" "st1 = st2" using run anc by (simp_all add: walk_from_def)
      then show ?thesis using m2 anc_fail[OF Some] by (simp add: link_law_def split: symlink_resolution.split)
    next
      case None
      let ?w = "\<lparr>wk_hops = 1, wk_prefixes = [], wk_segments = path_segments start\<rparr>"
      have steps: "walk_steps fold_round rv resolve (split_on (CHR ''/'') p) ?w st2 = (r, st1)"
        using run anc None by (simp add: walk_from_def)
      have "memo_law L targets (st_memo st1) \<and>
        (\<forall>hops pre inside. r = Resolved hops pre inside \<longrightarrow> slash_free inside \<and> 1 \<le> hops \<and>
         hops \<le> symlink_resolution_limit \<and> continues_at L base (split_on (CHR ''/'') p) (hops - 1) inside)"
        using walk_steps_sound[OF assms(1) _ m2 _ _ steps] b start split_slash_free
        by (simp add: list_all_iff symlink_resolution_limit_def)
      then show ?thesis using t by (cases r) (auto simp: link_law_def)
    qed
  qed
  show ?thesis
  proof (cases "map_of targets key")
    case None
    then show ?thesis using assms(2,3) by (auto simp: walk_def link_law_def)
  next
    case (Some t)
    then show ?thesis
    proof (cases t)
      case WalkOutside
      then show ?thesis using Some assms(2,3) by (auto simp: walk_def link_law_def)
    next
      case (WalkParent p)
      then show ?thesis using Some assms(3,4) by (intro from_base[of t]) (auto simp: walk_def target_base_def)
    next
      case (WalkRoot p)
      then show ?thesis using Some assms(3)
        by (intro from_base[of t "[]" p "[]"]) (auto simp: walk_def target_base_def path_segments_def)
    qed
  qed
qed

lemma resolve_tracked_sound:
  "memo_law L targets memo \<Longrightarrow> slash_free (path_segments (archive_member_parent_path key)) \<Longrightarrow>
   link_law L targets key (tk_resolution (fst (resolve_tracked fold_round rv in_progress key memo))) \<and>
   memo_law L targets (snd (resolve_tracked fold_round rv in_progress key memo))"
proof (induction "symlink_resolution_limit - length in_progress" arbitrary: in_progress key memo rule: less_induct)
  case less
  consider (known) t where "map_of memo key = Some t"
    | (again) "map_of memo key = None" "key \<in> set in_progress \<or> symlink_resolution_limit \<le> length in_progress"
    | (walks) "map_of memo key = None" "key \<notin> set in_progress" "length in_progress < symlink_resolution_limit"
    by (cases "map_of memo key"; cases "key \<in> set in_progress \<or> symlink_resolution_limit \<le> length in_progress")
       (auto simp: not_le)
  then show ?case
  proof cases
    case known
    then show ?thesis using less.prems by (simp add: resolve_tracked.simps memo_law_def)
  next
    case again
    then show ?thesis using less.prems by (auto simp: resolve_tracked.simps[of _ _ in_progress] link_law_def)
  next
    case walks
    let ?resolve = "\<lambda>k m. resolve_tracked fold_round rv (key # in_progress) k m"
    have "sound_resolver L targets ?resolve"
      unfolding sound_resolver_def using walks(3) by (auto intro: less.hyps[THEN conjunct1] less.hyps[THEN conjunct2])
    moreover obtain walked st where w: "walk fold_round rv ?resolve key \<lparr>st_touched = False, st_memo = memo\<rparr> = (walked, st)"
      by (metis surj_pair)
    ultimately have "memo_law L targets (st_memo st) \<and> link_law L targets key walked"
      using walk_sound[of ?resolve "\<lparr>st_touched = False, st_memo = memo\<rparr>" key walked st] less.prems by simp
    then show ?thesis using walks w
      by (auto simp: resolve_tracked.simps[of _ _ in_progress] memo_law_def link_law_def Let_def)
  qed
qed

end

interpretation exact: link_walk fold_round targets "\<lambda>q. map_of targets (join_with ''/'' q)" member_keys scope
  for fold_round targets member_keys scope
proof
  have "join_with ''/'' (path_segments k) = k" for k
    by (simp add: path_segments_def join_split_on)
  then show "holds_links fold_round targets (\<lambda>q. map_of targets (join_with ''/'' q))"
    by (auto simp: holds_links_def map_of_eq_None_iff)
qed

end
