(* ===== verification/ArchiveContainment.thy ===== *)
theory ArchiveContainment
  imports LinkWalk
begin

text \<open>
  What the rules for an archive are worth: an archive that passes them, extracted into a tree that
  has its links and no other, stays below the destination, and no path leaves it afterwards.
\<close>

subsection \<open>Paths of members\<close>

definition named :: "string \<Rightarrow> bool" where
  "named s \<longleftrightarrow> s \<noteq> [] \<and> s \<noteq> ''.''"

lemma normalize_without_parents:
  "''..'' \<notin> set segs \<Longrightarrow> normalize_segments stack segs = Some (stack @ filter named segs)"
  by (induction segs arbitrary: stack) (auto simp: named_def)

lemma normalize_slash_free:
  "normalize_segments stack segs = Some q \<Longrightarrow> slash_free stack \<Longrightarrow> list_all (\<lambda>s. CHR ''/'' \<notin> set s) segs \<Longrightarrow> slash_free q"
  by (induction segs arbitrary: stack) (auto simp: slash_free_butlast split: if_splits)

lemma normalize_path_segments:
  assumes "normalize_archive_member_path p = Some key"
  obtains q where "key = join_with ''/'' q" and "slash_free q"
    and "''..'' \<notin> set (split_on (CHR ''/'') p) \<Longrightarrow> q = filter named (split_on (CHR ''/'') p)"
proof -
  obtain q where q: "normalize_segments [] (split_on (CHR ''/'') p) = Some q" "key = join_with ''/'' q"
    using assms by (auto simp: normalize_archive_member_path_def split: if_splits)
  have "slash_free q"
    using normalize_slash_free[OF q(1)] split_slash_free by (auto simp: list_all_iff)
  then show ?thesis using that q normalize_without_parents[of "split_on (CHR ''/'') p" "[]"] by auto
qed

lemma ancestors_from_join:
  "slash_free q \<Longrightarrow> ancestors_from before (join_with ''/'' q) =
     map (\<lambda>i. before @ join_with ''/'' (take i q)) [1..<length q]"
proof (induction q arbitrary: before)
  case (Cons s q)
  have plain: "CHR ''/'' \<notin> set w \<Longrightarrow> ancestors_from b (w @ rest) = ancestors_from (b @ w) rest" for b w rest
    by (induction w arbitrary: b) auto
  show ?case
  proof (cases q)
    case Nil
    then show ?thesis using Cons.prems plain[of s before "[]"] by simp
  next
    case (Cons s' q')
    then have "ancestors_from before (join_with ''/'' (s # q)) =
        (before @ s) # ancestors_from (before @ s @ ''/'') (join_with ''/'' q)"
      using Cons.prems plain[of s before "CHR ''/'' # join_with ''/'' q"] by simp
    also have "\<dots> = (before @ s) # map (\<lambda>i. before @ s @ ''/'' @ join_with ''/'' (take i q)) [1..<length q]"
      using Cons.IH[of "before @ s @ ''/''"] Cons.prems by simp
    also have "map (\<lambda>i. before @ s @ ''/'' @ join_with ''/'' (take i q)) [1..<length q]
        = map (\<lambda>i. before @ join_with ''/'' (take (Suc i) (s # q))) [1..<length q]"
      using Cons by (intro map_cong) (auto simp: take_Cons split: nat.split)
    also have "\<dots> = map (\<lambda>i. before @ join_with ''/'' (take i (s # q))) [2..<Suc (length q)]"
      unfolding numeral_2_eq_2 One_nat_def map_Suc_upt[symmetric] by (simp add: comp_def)
    also have "(before @ s) # map (\<lambda>i. before @ join_with ''/'' (take i (s # q))) [2..<Suc (length q)]
        = map (\<lambda>i. before @ join_with ''/'' (take i (s # q))) [1..<length (s # q)]"
      using Cons upt_conv_Cons[of 1 "length (s # q)"] by (simp add: numeral_2_eq_2 del: upt_Suc)
    finally show ?thesis .
  qed
qed simp

lemma proper_ancestors_join:
  "slash_free q \<Longrightarrow> proper_ancestors (join_with ''/'' q) = map (\<lambda>i. join_with ''/'' (take i q)) [1..<length q]"
  by (simp add: proper_ancestors_def ancestors_from_join)

lemma parent_segments: "slash_free q \<Longrightarrow> path_segments (archive_member_parent_path (join_with ''/'' q)) = butlast q"
proof (cases q rule: rev_cases)
  case (snoc q' s)
  then show "slash_free q \<Longrightarrow> ?thesis" using parent_of_join[of q' s] path_segments_join[of q'] by simp
qed (simp add: archive_member_parent_path_def last_slash_def path_segments_def)

text \<open>A path on which there is no link is walked as it is.\<close>

lemma lookup_without_links:
  assumes "\<And>i. 0 < i \<Longrightarrow> i \<le> length (filter named segs) \<Longrightarrow> L (cur @ take i (filter named segs)) = None"
    and "''..'' \<notin> set segs"
  shows "kernel_lookup L n cur (segs @ rest) = kernel_lookup L n (cur @ filter named segs) rest"
  using assms
proof (induction segs arbitrary: cur)
  case (Cons s segs)
  show ?case
  proof (cases "named s")
    case True
    then have "L (cur @ [s]) = None" using Cons.prems(1)[of 1] by simp
    moreover have "kernel_lookup L n (cur @ [s]) (segs @ rest) = kernel_lookup L n ((cur @ [s]) @ filter named segs) rest"
      using Cons.prems(1)[of "Suc i" for i] Cons.prems(2) True by (intro Cons.IH) auto
    moreover have "s \<noteq> []" "s \<noteq> ''.''" using True by (simp_all add: named_def)
    ultimately show ?thesis using True Cons.prems(2) by auto
  next
    case False
    then have "s = [] \<or> s = ''.''" by (auto simp: named_def)
    then show ?thesis using Cons False by auto
  qed
qed simp

subsection \<open>The links of the members\<close>

lemma keyed_members_iff:
  "(key, m) \<in> set (keyed_members members) \<longleftrightarrow> m \<in> set members \<and> normalize_archive_member_path (am_path m) = Some key"
  by (induction members) (auto simp: keyed_members_def List.map_filter_simps split: option.splits)

definition symlink_keys :: "(string \<times> archive_member) list \<Rightarrow> string list" where
  "symlink_keys entries = map fst (filter (\<lambda>(key, m). am_kind m = SymlinkMember) entries)"

lemma archive_targets_snoc:
  "archive_targets (entries @ [(key, m)]) =
     (if am_kind m = SymlinkMember
      then map_set key (WalkParent (case am_link_target m of None \<Rightarrow> [] | Some t \<Rightarrow> t)) (archive_targets entries)
      else archive_targets entries)"
  by (simp add: archive_targets_def)

lemma archive_targets_keys: "map_of (archive_targets entries) key \<noteq> None \<longleftrightarrow> key \<in> set (symlink_keys entries)"
  by (induction entries rule: rev_induct) (auto simp: archive_targets_snoc symlink_keys_def archive_targets_def[of "[]"])

lemma variant_index_law:
  "(map_of (symlink_variant_index f keys) v = None \<longrightarrow> (\<forall>k \<in> set keys. path_name_variant_key f k \<noteq> v)) \<and>
   (symlink_variant_index f keys = [] \<longrightarrow> keys = [])"
  by (induction keys rule: rev_induct)
     (auto simp: symlink_variant_index_def Let_def map_add_def split: if_splits option.splits)

lemma first_some_None: "first_some f xs = None \<longleftrightarrow> (\<forall>x \<in> set xs. f x = None)"
proof -
  have "List.map_filter f xs = [] \<longleftrightarrow> (\<forall>x \<in> set xs. f x = None)"
    by (induction xs) (auto simp: List.map_filter_simps split: option.split)
  then show ?thesis by (auto simp: first_some_def split: list.split)
qed

lemma no_symlink_ancestor:
  assumes "symlink_ancestor f (symlink_variant_index f keys) key = None" and "a \<in> set (proper_ancestors key)" and "k \<in> set keys"
  shows "path_name_variant_key f k \<noteq> path_name_variant_key f a"
  using assms variant_index_law[of f keys "path_name_variant_key f a"]
  by (auto simp: symlink_ancestor_def first_some_None split: if_splits)

lemma no_symlink_at:
  assumes "symlink_at f (symlink_variant_index f keys) key = None" and "k \<in> set keys"
  shows "path_name_variant_key f k \<noteq> path_name_variant_key f key"
  using assms variant_index_law[of f keys "path_name_variant_key f key"]
  by (auto simp: symlink_at_def split: if_splits)

lemma duplicate_groups_filter:
  "map_of (duplicate_groups f entries) v =
     (let same = filter (\<lambda>e. path_name_variant_key f (fst e) = v) entries in if same = [] then None else Some same)"
proof (induction entries arbitrary: v rule: rev_induct)
  case (snoc e entries)
  then show ?case by (auto simp: duplicate_groups_def Let_def)
qed (simp add: duplicate_groups_def)

lemma same_variant_same_link:
  assumes "duplicate_reason f entries = None" and "(k, m) \<in> set entries" and "(k', m') \<in> set entries"
    and "am_kind m = SymlinkMember" and "path_name_variant_key f k' = path_name_variant_key f k"
  shows "am_kind m' = SymlinkMember \<and> am_link_target m' = am_link_target m"
proof (cases "(k, m) = (k', m')")
  case False
  let ?g = "filter (\<lambda>e. path_name_variant_key f (fst e) = path_name_variant_key f k) entries"
  have in_group: "(k, m) \<in> set ?g" "(k', m') \<in> set ?g" using assms by auto
  then have "?g \<noteq> []" by (cases ?g) simp_all
  then have "map_of (duplicate_groups f entries) (path_name_variant_key f k) = Some ?g"
    by (simp only: duplicate_groups_filter Let_def if_False)
  then have "?g \<in> set (map snd (duplicate_groups f entries))" by (force dest: map_of_SomeD)
  then have none: "conflicting_duplicate ?g = None"
    using assms(1) unfolding duplicate_reason_def first_some_None duplicate_in_group_def by (fastforce split: option.splits)
  obtain e e' es where g: "?g = e # e' # es"
    using in_group False by (cases ?g; cases "tl ?g") auto
  have ex: "list_ex (\<lambda>(key, m). am_kind m = SymlinkMember) ?g"
    using in_group(1) assms(4) by (force simp: list_ex_iff)
  have "\<not> list_ex (\<lambda>(key, m). am_kind m \<noteq> am_kind (snd e) \<or> am_link_target m \<noteq> am_link_target (snd e)) ?g"
    using none ex unfolding g by (simp add: conflicting_duplicate_def split: if_splits)
  then have "\<forall>x \<in> set ?g. am_kind (snd x) = am_kind (snd e) \<and> am_link_target (snd x) = am_link_target (snd e)"
    by (auto simp: list_ex_iff)
  then show ?thesis using in_group assms(4) by (metis snd_conv)
qed (use assms in auto)

lemma no_duplicate_symlink:
  assumes "duplicate_reason f entries = None" and "(key, m) \<in> set entries" and "am_kind m \<noteq> SymlinkMember"
    and "k \<in> set (symlink_keys entries)"
  shows "path_name_variant_key f k \<noteq> path_name_variant_key f key"
  using same_variant_same_link[OF assms(1) _ assms(2)] assms(3,4) by (force simp: symlink_keys_def)

lemma archive_target_member:
  "map_of (archive_targets entries) key = Some t \<Longrightarrow>
   \<exists>m. (key, m) \<in> set entries \<and> am_kind m = SymlinkMember \<and>
     t = WalkParent (case am_link_target m of None \<Rightarrow> [] | Some p \<Rightarrow> p)"
  by (induction entries rule: rev_induct)
     (auto simp: archive_targets_snoc archive_targets_def[of "[]"] split: if_splits)

subsection \<open>A resolved archive\<close>

lemma resolution_reason_law:
  assumes "holds_links f targets L" and "memo_law L targets memo"
    and "fst (resolution_reason f (new_resolver f targets mk sc) entries memo) = None"
    and "\<And>key m. (key, m) \<in> set entries \<Longrightarrow> slash_free (path_segments (archive_member_parent_path key))"
    and "(key, m) \<in> set entries" and "am_kind m = SymlinkMember"
  shows "\<exists>hops pre segs. link_law L targets key (Resolved hops pre segs)"
  using assms(2-5)
proof (induction entries arbitrary: memo)
  case (Cons e entries)
  obtain k m' where e: "e = (k, m')" by (metis surj_pair)
  let ?rv = "new_resolver f targets mk sc"
  show ?case
  proof (cases "am_kind m' = SymlinkMember")
    case False
    show ?thesis by (rule Cons.IH[OF Cons.prems(1)]) (use Cons.prems e False assms(6) in auto)
  next
    case True
    obtain tracked memo1 where run: "resolve_tracked f ?rv [] k memo = (tracked, memo1)"
      by (metis surj_pair)
    have law: "link_law L targets k (tk_resolution tracked)" and memo1: "memo_law L targets memo1"
      using link_walk.resolve_tracked_sound[OF link_walk.intro[OF assms(1)] Cons.prems(1), of k mk sc "[]"]
        Cons.prems(3)[of k m'] e unfolding run by simp_all
    have link: "resolve_link f ?rv k memo = (tk_resolution tracked, memo1)"
      using run by (simp add: resolve_link_def)
    have good: "resolution_failure_text m' (tk_resolution tracked) = None"
      and later: "fst (resolution_reason f ?rv entries memo1) = None"
      using Cons.prems(2) True link e by (auto split: option.splits)
    obtain hops pre segs where r: "tk_resolution tracked = Resolved hops pre segs"
      using good by (cases "tk_resolution tracked") (auto simp: resolution_failure_text_def)
    show ?thesis
    proof (cases "(key, m) = e")
      case True
      then show ?thesis using law r e by auto
    next
      case False
      show ?thesis by (rule Cons.IH[OF memo1 later]) (use Cons.prems False in auto)
    qed
  qed
qed simp

subsection \<open>Containment\<close>

text \<open>An archive that passed both sets of rules, extracted into a tree with its links.\<close>

definition extracted_into :: "(string \<Rightarrow> string) \<Rightarrow> archive_member list \<Rightarrow> link_tree \<Rightarrow> bool" where
  "extracted_into f members L \<longleftrightarrow>
     list_all (\<lambda>m. archive_member_unsafe_reason m = None) members \<and>
     archive_link_unsafe_reason f members = None \<and>
     holds_links f (archive_targets (keyed_members members)) L"

lemma accepted_member_path:
  assumes "archive_member_unsafe_reason m = None"
  obtains q where "normalize_archive_member_path (am_path m) = Some (join_with ''/'' q)" and "slash_free q"
    and "q = filter named (split_on (CHR ''/'') (am_path m))" and "''..'' \<notin> set (split_on (CHR ''/'') (am_path m))"
proof -
  have no: "''..'' \<notin> set (split_on (CHR ''/'') (am_path m))"
    using assms by (auto simp: archive_member_unsafe_reason_def parent_segment_reason_def has_parent_segment_def
        split: if_splits option.splits)
  moreover obtain key where k: "normalize_archive_member_path (am_path m) = Some key"
    using assms by (auto simp: archive_member_unsafe_reason_def member_escapes_destination_def split: if_splits option.splits)
  ultimately show ?thesis using normalize_path_segments[OF k] that by blast
qed

lemma accepted_hardlink_path:
  assumes "archive_member_unsafe_reason m = None" and "am_kind m = HardlinkMember" and "am_link_target m = Some t"
  obtains q where "hardlink_target_key m = Some (join_with ''/'' q)" and "slash_free q"
    and "q = filter named (split_on (CHR ''/'') t)" and "''..'' \<notin> set (split_on (CHR ''/'') t)"
proof -
  have no: "''..'' \<notin> set (split_on (CHR ''/'') t)"
    using assms by (auto simp: archive_member_unsafe_reason_def parent_segment_reason_def has_parent_segment_def
        split: if_splits option.splits)
  moreover obtain key where k: "normalize_archive_member_path t = Some key"
    using assms by (auto simp: archive_member_unsafe_reason_def member_escapes_destination_def split: if_splits option.splits)
  moreover from this have "hardlink_target_key m = Some key" using assms by (simp add: hardlink_target_key_def)
  ultimately show ?thesis using normalize_path_segments[OF k] that by blast
qed

text \<open>A path no symbolic link of the archive is a variant of has no link in the tree.\<close>

lemma no_link_there:
  assumes "holds_links f (archive_targets entries) L"
    and "\<And>k. k \<in> set (symlink_keys entries) \<Longrightarrow> path_name_variant_key f k \<noteq> path_name_variant_key f (join_with ''/'' q)"
  shows "L q = None"
proof (rule ccontr)
  assume "L q \<noteq> None"
  then obtain k t where "map_of (archive_targets entries) k = Some t"
    "path_name_variant_key f k = path_name_variant_key f (join_with ''/'' q)"
    using assms(1) unfolding holds_links_def by blast
  moreover from this(1) have "k \<in> set (symlink_keys entries)" using archive_targets_keys[of entries k] by simp
  ultimately show False using assms(2) by blast
qed

lemma no_link_above:
  assumes "holds_links f (archive_targets entries) L" and "slash_free q"
    and "symlink_ancestor f (symlink_variant_index f (symlink_keys entries)) (join_with ''/'' q) = None"
    and "0 < i" and "i < length q"
  shows "L (take i q) = None"
proof (rule no_link_there[OF assms(1)])
  fix k assume k: "k \<in> set (symlink_keys entries)"
  have "join_with ''/'' (take i q) \<in> set (proper_ancestors (join_with ''/'' q))"
    using assms(2,4,5) by (auto simp: proper_ancestors_join)
  then show "path_name_variant_key f k \<noteq> path_name_variant_key f (join_with ''/'' (take i q))"
    by (rule no_symlink_ancestor[OF assms(3) _ k])
qed

lemma filter_named_idem: "slash_free q \<Longrightarrow> q = filter named segs \<Longrightarrow> filter named q = q \<and> (''..'' \<notin> set segs \<longrightarrow> ''..'' \<notin> set q)"
  by auto

lemma take_butlast_none:
  assumes "\<And>i. 0 < i \<Longrightarrow> i < length q \<Longrightarrow> L (take i q) = None"
  shows "0 < i \<Longrightarrow> i \<le> length (butlast q) \<Longrightarrow> L (take i (butlast q)) = None"
  using assms[of i] by (simp add: take_butlast)

lemma last_named_split:
  assumes "filter named segs = q @ [s]"
  obtains a b where "segs = a @ s # b" and "filter named a = q" and "filter named b = []" and "named s"
  using assms
proof (induction segs arbitrary: q thesis)
  case (Cons x xs)
  show ?case
  proof (cases "named x")
    case True
    show ?thesis
    proof (cases q)
      case Nil
      then show ?thesis using Cons.prems True by (intro Cons.prems(1)[of "[]" xs]) auto
    next
      case (Cons y ys)
      then have "filter named xs = ys @ [s]" "y = x" using Cons.prems True by auto
      from Cons.IH[OF _ this(1)] obtain a b where "xs = a @ s # b" "filter named a = ys" "filter named b = []" "named s" by blast
      then show ?thesis using Cons.prems(1)[of "x # a" b] True Cons \<open>y = x\<close> by auto
    qed
  next
    case False
    then have "filter named xs = q @ [s]" using Cons.prems by simp
    from Cons.IH[OF _ this] obtain a b where "xs = a @ s # b" "filter named a = q" "filter named b = []" "named s" by blast
    then show ?thesis using Cons.prems(1)[of "x # a" b] False by auto
  qed
qed simp

lemma lookup_unnamed: "filter named b = [] \<Longrightarrow> kernel_lookup L n cur b = Reached cur"
  by (induction b) (auto simp: named_def split: if_splits)

lemma extracted_rules:
  assumes "extracted_into f members L"
  shows "holds_links f (archive_targets (keyed_members members)) L"
    and "root_link_reason (keyed_members members) = None"
    and "duplicate_reason f (keyed_members members) = None"
    and "e \<in> set (keyed_members members) \<Longrightarrow>
      ancestor_reason_of f (symlink_variant_index f (symlink_keys (keyed_members members))) e = None"
    and "(key, m) \<in> set (keyed_members members) \<Longrightarrow> hardlink_target_key m = Some t \<Longrightarrow>
      symlink_at f (symlink_variant_index f (symlink_keys (keyed_members members))) t = None"
    and "fst (resolution_reason f (new_resolver f (archive_targets (keyed_members members))
      (map fst (keyed_members members)) empty_scope) (keyed_members members) []) = None"
    and "m \<in> set members \<Longrightarrow> archive_member_unsafe_reason m = None"
  using assms
  by (auto simp: extracted_into_def list_all_iff archive_link_unsafe_reason_def symlink_keys_def Let_def archive_resolver_def
      ancestor_reason_def hardlink_to_symlink_reason_def first_some_None)

text \<open>Below no link, and no variant of one: such a path is met literally.\<close>

lemma literal_path:
  assumes "extracted_into f members L" and "slash_free p" and "p = filter named raw" and "''..'' \<notin> set raw"
    and "symlink_ancestor f (symlink_variant_index f (symlink_keys (keyed_members members))) (join_with ''/'' p) = None"
    and "\<And>k. k \<in> set (symlink_keys (keyed_members members)) \<Longrightarrow>
      path_name_variant_key f k \<noteq> path_name_variant_key f (join_with ''/'' p)"
  shows "L p = None \<and> kernel_lookup L n [] raw = Reached p"
proof -
  note holds = extracted_rules(1)[OF assms(1)]
  have here: "L p = None" by (rule no_link_there[OF holds assms(6)])
  have "L (take i p) = None" if "0 < i" "i \<le> length p" for i
    using no_link_above[OF holds assms(2,5) that(1)] here that by (cases "i = length p") auto
  then show ?thesis using lookup_without_links[of raw L "[]" n "[]"] assms(3,4) here by simp
qed

lemma member_directory:
  assumes "extracted_into f members L" and "(join_with ''/'' q, m) \<in> set (keyed_members members)" and "slash_free q"
  shows "0 < i \<Longrightarrow> i < length q \<Longrightarrow> L (take i q) = None"
    and "symlink_ancestor f (symlink_variant_index f (symlink_keys (keyed_members members))) (join_with ''/'' q) = None"
proof -
  show anc: "symlink_ancestor f (symlink_variant_index f (symlink_keys (keyed_members members))) (join_with ''/'' q) = None"
    using extracted_rules(4)[OF assms(1,2)] by (auto simp: ancestor_reason_of_def split: option.splits)
  show "0 < i \<Longrightarrow> i < length q \<Longrightarrow> L (take i q) = None"
    by (rule no_link_above[OF extracted_rules(1)[OF assms(1)] assms(3) anc])
qed

text \<open>The law of the resolver for each symbolic link of the archive.\<close>

lemma symlink_law:
  assumes "extracted_into f members L" and "(join_with ''/'' q, m) \<in> set (keyed_members members)" and "slash_free q"
    and "am_kind m = SymlinkMember"
  obtains hops inside p where "0 < hops" and "hops \<le> symlink_resolution_limit" and "slash_free inside"
    and "map_of (archive_targets (keyed_members members)) (join_with ''/'' q) = Some (WalkParent p)"
    and "continues_at L (butlast q) (split_on (CHR ''/'') p) (hops - 1) inside"
proof -
  let ?T = "archive_targets (keyed_members members)"
  have "\<exists>hops pre inside. link_law L ?T (join_with ''/'' q) (Resolved hops pre inside)"
  proof (rule resolution_reason_law[OF extracted_rules(1)[OF assms(1)] _ extracted_rules(6)[OF assms(1)] _ assms(2,4)])
    fix k m' assume "(k, m') \<in> set (keyed_members members)"
    then obtain p where "k = join_with ''/'' p" "slash_free p"
      by (auto simp: keyed_members_iff elim: normalize_path_segments)
    then show "slash_free (path_segments (archive_member_parent_path k))"
      by (simp add: parent_segments slash_free_butlast)
  qed (simp add: memo_law_def)
  then obtain hops pre inside t base p where law: "slash_free inside" "hops \<le> symlink_resolution_limit" "0 < hops"
    "map_of ?T (join_with ''/'' q) = Some t" "target_base (join_with ''/'' q) t base p"
    "continues_at L base (split_on (CHR ''/'') p) (hops - 1) inside"
    by (auto simp: link_law_def)
  moreover have "t = WalkParent p \<and> base = butlast q"
    using law(4,5) archive_target_member[OF law(4)] parent_segments[OF assms(3)] by (auto simp: target_base_def)
  ultimately show ?thesis using that by blast
qed

text \<open>Another spelling of the link has the same target.\<close>

lemma link_in_tree:
  assumes "extracted_into f members L" and "slash_free q"
    and "map_of (archive_targets (keyed_members members)) (join_with ''/'' q) = Some t"
  shows "L q = Some t"
proof -
  let ?E = "keyed_members members"
  note holds = extracted_rules(1)[OF assms(1)]
  have "join_with ''/'' q \<in> set (map fst (archive_targets ?E))"
    using assms(3) by (metis map_of_eq_None_iff option.distinct(1) list.set_map)
  then obtain t' where t': "L q = Some t'"
    using holds path_segments_join[OF assms(2)] unfolding holds_links_def by fastforce
  obtain k' where k': "map_of (archive_targets ?E) k' = Some t'"
    "path_name_variant_key f k' = path_name_variant_key f (join_with ''/'' q)"
    using holds t' unfolding holds_links_def by blast
  have "t' = t"
    using archive_target_member[OF k'(1)] archive_target_member[OF assms(3)]
      same_variant_same_link[OF extracted_rules(3)[OF assms(1)]] k'(2) by metis
  then show ?thesis using t' by simp
qed

lemma accepted_symlink:
  assumes "extracted_into f members L" and "(join_with ''/'' q, m) \<in> set (keyed_members members)" and "slash_free q"
    and "q = filter named raw" and "''..'' \<notin> set raw" and "am_kind m = SymlinkMember"
  shows "\<exists>inside. kernel_lookup L symlink_resolution_limit [] raw = Reached inside"
proof -
  let ?n = symlink_resolution_limit
  have "q \<noteq> []"
    using extracted_rules(2)[OF assms(1)] assms(2,6) by (auto simp: root_link_reason_def find_None_iff is_link_def)
  then obtain q' s where qs: "q = q' @ [s]" by (cases q rule: rev_cases) auto
  obtain a b where ab: "raw = a @ s # b" "filter named a = q'" "filter named b = []" "named s"
    using last_named_split[of raw q' s] assms(4) qs by metis
  obtain hops inside p where law: "0 < hops" "hops \<le> ?n"
    "map_of (archive_targets (keyed_members members)) (join_with ''/'' q) = Some (WalkParent p)"
    "continues_at L (butlast q) (split_on (CHR ''/'') p) (hops - 1) inside"
    by (rule symlink_law[OF assms(1,2,3,6)])
  have link: "L (q' @ [s]) = Some (WalkParent p)" using link_in_tree[OF assms(1,3) law(3)] qs by simp
  have "kernel_lookup L ?n [] (a @ s # b) = kernel_lookup L ?n q' (s # b)"
    using lookup_without_links[of a L "[]" ?n "s # b"] ab assms(5) member_directory(1)[OF assms(1-3)] qs by (simp add: take_butlast)
  also have "\<dots> = kernel_lookup L (?n - 1) q' (split_on (CHR ''/'') p @ b)"
    using link ab(1,4) assms(5) by (auto simp: named_def symlink_resolution_limit_def)
  also have "\<dots> = kernel_lookup L (?n - 1 - (hops - 1)) inside b"
  proof -
    have "hops - 1 \<le> ?n - 1" using law(2) by simp
    then show ?thesis using law(4) qs unfolding continues_at_def by simp
  qed
  also have "\<dots> = Reached inside" by (rule lookup_unnamed[OF ab(3)])
  finally show ?thesis using ab(1) by blast
qed

text \<open>
  C2: an archive the rules accept stays inside its destination. In every tree that holds its links,
  with names the file system may fold as it likes within the variants, the directory of each
  member is walked to literally, the path of a member that is no symbolic link and the target of
  a hard link are met literally and no link stands there, and a symbolic link leads to a path
  inside within the number of links a kernel follows.
\<close>

theorem accepted_archive_is_contained:
  assumes "extracted_into f members L" and "m \<in> set members"
  shows "\<exists>key. normalize_archive_member_path (am_path m) = Some key \<and>
    kernel_lookup L symlink_resolution_limit [] (path_segments (archive_member_parent_path key)) =
      Reached (path_segments (archive_member_parent_path key)) \<and>
    (am_kind m \<noteq> SymlinkMember \<longrightarrow> L (path_segments key) = None \<and>
       kernel_lookup L symlink_resolution_limit [] (split_on (CHR ''/'') (am_path m)) = Reached (path_segments key)) \<and>
    (am_kind m = SymlinkMember \<longrightarrow>
       (\<exists>inside. kernel_lookup L symlink_resolution_limit [] (split_on (CHR ''/'') (am_path m)) = Reached inside)) \<and>
    (\<forall>t. am_kind m = HardlinkMember \<and> am_link_target m = Some t \<longrightarrow>
       (\<exists>target_key. hardlink_target_key m = Some target_key \<and> L (path_segments target_key) = None \<and>
          kernel_lookup L symlink_resolution_limit [] (split_on (CHR ''/'') t) = Reached (path_segments target_key)))"
proof -
  let ?E = "keyed_members members"
  note safe = extracted_rules(7)[OF assms]
  obtain q where key: "normalize_archive_member_path (am_path m) = Some (join_with ''/'' q)" and sf: "slash_free q"
    and q: "q = filter named (split_on (CHR ''/'') (am_path m))" and nop: "''..'' \<notin> set (split_on (CHR ''/'') (am_path m))"
    using accepted_member_path[OF safe] by blast
  have entry: "(join_with ''/'' q, m) \<in> set ?E" using assms(2) key by (simp add: keyed_members_iff)
  note dir = member_directory[OF assms(1) entry sf]
  have "filter named (butlast q) = butlast q" "''..'' \<notin> set (butlast q)"
    using q nop by (auto simp: filter_id_conv dest: in_set_butlastD)
  then have "kernel_lookup L symlink_resolution_limit [] (butlast q) = Reached (butlast q)"
    using lookup_without_links[of "butlast q" L "[]" _ "[]"] take_butlast_none[of q L] dir(1) by simp
  moreover have "L q = None \<and> kernel_lookup L symlink_resolution_limit [] (split_on (CHR ''/'') (am_path m)) = Reached q"
    if "am_kind m \<noteq> SymlinkMember"
    using literal_path[OF assms(1) sf q nop dir(2)] no_duplicate_symlink[OF extracted_rules(3)[OF assms(1)] entry that] by blast
  moreover have "\<exists>target_key. hardlink_target_key m = Some target_key \<and> L (path_segments target_key) = None \<and>
      kernel_lookup L symlink_resolution_limit [] (split_on (CHR ''/'') t) = Reached (path_segments target_key)"
    if h: "am_kind m = HardlinkMember" "am_link_target m = Some t" for t
  proof -
    obtain p where p: "hardlink_target_key m = Some (join_with ''/'' p)" "slash_free p"
      "p = filter named (split_on (CHR ''/'') t)" "''..'' \<notin> set (split_on (CHR ''/'') t)"
      using accepted_hardlink_path[OF safe h] by blast
    have "symlink_ancestor f (symlink_variant_index f (symlink_keys ?E)) (join_with ''/'' p) = None"
      using extracted_rules(4)[OF assms(1) entry] p(1) dir(2) by (auto simp: ancestor_reason_of_def split: option.splits)
    then show ?thesis
      using literal_path[OF assms(1) p(2-4)] no_symlink_at[OF extracted_rules(5)[OF assms(1) entry p(1)]] p(1)
        path_segments_join[OF p(2)] by metis
  qed
  ultimately show ?thesis
    using key accepted_symlink[OF assms(1) entry sf q nop] path_segments_join[OF sf] parent_segments[OF sf] by simp
qed

subsection \<open>No way out\<close>

lemma lookup_stays_inside:
  assumes "extracted_into f members (\<lambda>q. map_of (archive_targets (keyed_members members)) (join_with ''/'' q))"
    and "list_all (\<lambda>s. CHR ''/'' \<notin> set s \<and> s \<noteq> ''..'') path"
  shows "slash_free cur \<Longrightarrow>
    kernel_lookup (\<lambda>q. map_of (archive_targets (keyed_members members)) (join_with ''/'' q)) n cur path \<noteq> Outside"
  using assms(2)
proof (induction path arbitrary: n cur)
  case (Cons s path)
  let ?T = "archive_targets (keyed_members members)"
  let ?L = "\<lambda>q. map_of ?T (join_with ''/'' q)"
  show ?case
  proof (cases "named s")
    case False
    then show ?thesis using Cons by (auto simp: named_def)
  next
    case True
    then have sf: "slash_free (cur @ [s])" using Cons.prems by (simp add: named_def)
    show ?thesis
    proof (cases "?L (cur @ [s])")
      case None
      then show ?thesis using True Cons sf by (auto simp: named_def)
    next
      case (Some t)
      then obtain m where m: "(join_with ''/'' (cur @ [s]), m) \<in> set (keyed_members members)" "am_kind m = SymlinkMember"
        using archive_target_member by blast
      obtain hops inside p where law: "0 < hops" "slash_free inside" "?L (cur @ [s]) = Some (WalkParent p)"
        "continues_at ?L (butlast (cur @ [s])) (split_on (CHR ''/'') p) (hops - 1) inside"
        by (rule symlink_law[OF assms(1) m(1) sf m(2)])
      have "kernel_lookup ?L k cur (split_on (CHR ''/'') p @ path) \<noteq> Outside" for k
        using law(4) Cons.IH[OF law(2), of "k - (hops - 1)"] Cons.prems(2)
        unfolding continues_at_def by (simp split: if_split)
      then show ?thesis using True law(3) Cons.prems(2) by (auto simp: named_def split: nat.split)
    qed
  qed
qed simp

text \<open>
  C8: below an extracted archive there is no way out: whichever path without \<^verbatim>\<open>..\<close> is looked up,
  through as many of the archive's links as it likes, the lookup does not leave the destination.
\<close>

theorem no_path_leaves_extracted_archive:
  assumes "extracted_into f members (\<lambda>q. map_of (archive_targets (keyed_members members)) (join_with ''/'' q))"
    and "''..'' \<notin> set (split_on (CHR ''/'') path)"
  shows "kernel_lookup (\<lambda>q. map_of (archive_targets (keyed_members members)) (join_with ''/'' q)) n []
           (split_on (CHR ''/'') path) \<noteq> Outside"
  using lookup_stays_inside[OF assms(1), of "split_on (CHR ''/'') path" "[]" n] assms(2) split_slash_free
  by (auto simp: list_all_iff)

subsection \<open>An archive\<close>

definition tar_member :: "member_kind \<Rightarrow> string \<Rightarrow> string option \<Rightarrow> archive_member" where
  "tar_member kind path target =
     \<lparr>am_format = TarFormat, am_kind = kind, am_link_target = target, am_mode = ''-rw-r--r--'', am_path = path\<rparr>"

lemma tar_member_simps [simp]:
  "am_kind (tar_member kind path target) = kind" "am_path (tar_member kind path target) = path"
  "am_link_target (tar_member kind path target) = target"
  by (simp_all add: tar_member_def)

definition sample_archive :: "archive_member list" where
  "sample_archive =
     [tar_member DirectoryMember ''./bin/'' None, tar_member FileMember ''./lib/f'' None,
      tar_member SymlinkMember ''bin/f'' (Some ''../lib/f''), tar_member SymlinkMember ''here'' (Some ''bin/../lib''),
      tar_member HardlinkMember ''g'' (Some ''./lib/f'')]"

definition sample_tree :: link_tree where
  "sample_tree q = map_of (archive_targets (keyed_members sample_archive)) (join_with ''/'' q)"

lemma sample_extracted: "extracted_into to_lower sample_archive sample_tree"
proof -
  have "list_all (\<lambda>m. archive_member_unsafe_reason m = None) sample_archive" by code_simp
  moreover have "archive_link_unsafe_reason to_lower sample_archive = None" by code_simp
  moreover have "holds_links to_lower (archive_targets (keyed_members sample_archive)) sample_tree"
    using exact.holds by (simp add: sample_tree_def[abs_def])
  ultimately show ?thesis by (simp add: extracted_into_def)
qed

theorem accepted_archive_is_contained_witness:
  "\<exists>inside. kernel_lookup sample_tree symlink_resolution_limit [] (split_on (CHR ''/'') ''here'') = Reached inside"
proof -
  have "tar_member SymlinkMember ''here'' (Some ''bin/../lib'') \<in> set sample_archive" by (simp add: sample_archive_def)
  from accepted_archive_is_contained[OF sample_extracted this] show ?thesis by (auto simp only: tar_member_simps)
qed

theorem no_path_leaves_extracted_archive_witness:
  "kernel_lookup (\<lambda>q. map_of (archive_targets (keyed_members sample_archive)) (join_with ''/'' q)) 40 []
     (split_on (CHR ''/'') ''here/f/x'') \<noteq> Outside"
  by (rule no_path_leaves_extracted_archive[OF sample_extracted[unfolded sample_tree_def[abs_def]]]) code_simp

end
