(* ===== verification/ArchiveLines.thy ===== *)
theory ArchiveLines
  imports ArchiveContainment
begin

text \<open>
  What the parser of a listing is worth: names and lines of GNU tar as they are printed, read back
  to the member they were printed for, and the two kinds of line that are misread.
\<close>

subsection \<open>Names and lines\<close>

text \<open>How GNU tar and bsdtar list a name in the C locale.\<close>

definition octal_escape :: "char \<Rightarrow> string" where
  "octal_escape c =
     [backslash, char_of (48 + code c div 64), char_of (48 + code c div 8 mod 8), char_of (48 + code c mod 8)]"

definition listed_char :: "char \<Rightarrow> string" where
  "listed_char c =
     (if c = backslash then [backslash, backslash]
      else if char_between 32 126 c then [c]
      else concat (map octal_escape (utf8_encode_char c)))"

definition listed_name :: "string \<Rightarrow> string" where
  "listed_name name = concat (map listed_char name)"







lemma utf8_encode_simps [simp]:
  "utf8_encode [] = []" "utf8_encode (a @ b) = utf8_encode a @ utf8_encode b" "utf8_encode (c # s) = utf8_encode_char c @ utf8_encode s"
  by (simp_all add: utf8_encode_def)








subsection \<open>Lines\<close>







subsection \<open>A printed line\<close>

text \<open>
  A line of \<^verbatim>\<open>tar -tv\<close>: the mode, the columns for owner, size, date and time, then the listed name
  and, for a link, its separator and listed target, which are printed without quotes.
\<close>

definition tar_columns :: "string \<Rightarrow> string list \<Rightarrow> string" where
  "tar_columns mode columns = mode @ concat (map (\<lambda>c. CHR '' '' # c) columns) @ '' ''"

definition listed_link :: "string \<Rightarrow> string \<Rightarrow> string \<Rightarrow> string" where
  "listed_link name sep target = listed_name name @ sep @ listed_name target"

definition link_separator :: "string \<Rightarrow> string option" where
  "link_separator mode =
     (if hd mode = CHR ''l'' then Some tar_link_arrow else if hd mode = CHR ''h'' then Some tar_hardlink_target else None)"



lemma js_space_blank [simp]: "js_space (CHR '' '')"
  by (simp add: js_space_def char_between_def code_def)














definition listed_tar_line :: "string \<Rightarrow> string list \<Rightarrow> string \<Rightarrow> string option \<Rightarrow> string" where
  "listed_tar_line mode columns name target =
     tar_columns mode columns @
     (case (link_separator mode, target) of (Some sep, Some t) \<Rightarrow> listed_link name sep t | _ \<Rightarrow> listed_name name)"

definition tar_listed_member :: "string \<Rightarrow> string \<Rightarrow> string option \<Rightarrow> archive_member" where
  "tar_listed_member mode name target =
     \<lparr>am_format = TarFormat, am_kind = archive_member_kind_from_mode mode, am_link_target = target, am_mode = mode,
      am_path = name\<rparr>"











subsection \<open>Where a line is misread\<close>

text \<open>
  The two provisos are needed. A symlink \<^verbatim>\<open>x ->\<close> to \<^verbatim>\<open>../y\<close> is read as \<^verbatim>\<open>x\<close>, a link
  to \<^verbatim>\<open>-> ../y\<close> that stays inside: the printed separator overlaps the one in the name, and the
  test for a second separator starts after the first.
\<close>

definition gnu_mode :: tar_listing_mode where
  "gnu_mode = \<lparr>tm_flavor = FlavorGnu, tm_locale = LocaleC\<rparr>"

definition symlink_line :: "string \<Rightarrow> string \<Rightarrow> string" where
  "symlink_line name target =
     listed_tar_line ''lrwxrwxrwx'' [''root/root'', ''0'', ''2024-01-01'', ''10:00''] name (Some target)"

abbreviation link_of :: "string \<Rightarrow> string \<Rightarrow> archive_member" where
  "link_of name target \<equiv> tar_listed_member ''lrwxrwxrwx'' name (Some target)"

lemma overlapping_separator_accepted:
  "parse_tar_verbose_line Some (symlink_line ''x ->'' ''../y'') gnu_mode = ParsedMember (link_of ''x'' ''-> ../y'') \<and>
   archive_member_unsafe_reason (link_of ''x'' ''-> ../y'') = None \<and>
   archive_link_unsafe_reason id [link_of ''x'' ''-> ../y''] = None \<and>
   archive_member_unsafe_reason (link_of ''x ->'' ''../y'') \<noteq> None"
  by code_simp

text \<open>
  A space before a name is taken for the white space between the columns: the links \<^verbatim>\<open> d\<close> to
  \<^verbatim>\<open>.\<close> and \<^verbatim>\<open>l\<close> to \<^verbatim>\<open> d/..\<close> are accepted, since the first is read as \<^verbatim>\<open>d\<close>;
  extracted, \<^verbatim>\<open>l\<close> leads out of the destination.
\<close>

lemma leading_space_accepted:
  "parse_tar_verbose_line Some (symlink_line '' d'' ''.'') gnu_mode = ParsedMember (link_of ''d'' ''.'') \<and>
   parse_tar_verbose_line Some (symlink_line ''l'' '' d/..'') gnu_mode = ParsedMember (link_of ''l'' '' d/..'') \<and>
   list_all (\<lambda>m. archive_member_unsafe_reason m = None) [link_of ''d'' ''.'', link_of ''l'' '' d/..''] \<and>
   archive_link_unsafe_reason id [link_of ''d'' ''.'', link_of ''l'' '' d/..''] = None \<and>
   archive_link_unsafe_reason id [link_of '' d'' ''.'', link_of ''l'' '' d/..''] \<noteq> None"
  by code_simp

end
