(* ===== verification/Spec2Isabelle.thy ===== *)
theory Spec2Isabelle
  imports EnvResolver Conditional SecretPrewarm Runner TerminalSanitizer StreamOutput KnownHosts SecretSink Totp Template ModuleFilter Remote ExecChannel SudoSession SessionChannels Builtins ServerDefinition LineDiff Script FlagLock MutexLock LockProtocol LockBounds ModuleScript Cron CronProofs ArchiveListing ArchiveLinks LinkWalk ArchiveContainment ArchiveLines
begin

text \<open>
  Paratix applies a list of modules to a server over one SSH session. The program under
  \<^verbatim>\<open>src/packages/paratix/src\<close> is modelled here as HOL functions over explicit states; file and
  function names below are those of that directory.

  \<^bold>\<open>Parts and theories\<close>

  \<^item> Prelude: results (\<open>exn + 'a\<close>), effects (functions from a state to a result and a state), the
    sequencing \<open>and_then\<close> and \<open>catching\<close> with their splits, JavaScript objects as association
    lists in insertion order, the collections \<open>effect_simps\<close> and \<open>status_simps\<close>. JsString: the
    string operations of the language that the program uses. Loops: the contract of the
    program's loops that leave early, a locale interpreted by the recipe, dry-run, conditional
    and runner loops.
  \<^item> Environment (environment.ts, collectEnvironment of cli.ts): the dotenv loader and the merge
    of environment maps. EnvResolver (environmentResolutionPolicy.ts and the memoized resolver
    of meta.ts): resolvers as step functions over requests and settlements. HostLabel
    (hostValidation.ts). Meta (meta.ts).
  \<^item> Orchestration (types.ts and the statistics of runner.ts): module, result, meta, the state of
    a run and its log. Signals (signalOrchestration.ts), Recipe (recipe.ts), DryRun
    (dryRunRecipe.ts, dryRunDispatch.ts), Conditional (conditionalExecution.ts,
    conditionalModules.ts), SecretPrewarm (secretPrewarm.ts), Runner (runner.ts,
    runnerHelpers.ts): the run from the header to the exit code.
  \<^item> SshSession and Reconnect (ssh.ts, transport.ts): the session record, the credentials that
    are tried, the loop over the ports, and the reconnect loop with back-off and deadline.
  \<^item> TerminalSanitizer (terminalSanitizer.ts), ShellText and StreamOutput (sshHelpers.ts):
    quoting, masking, bounded capture and the collector that settles a command.
  \<^item> Base64, HostPatterns and KnownHosts (knownHostPatterns.ts, hostCertificates.ts,
    knownHosts.ts): the trust store, the verifier of a handshake, trust on first use.
  \<^item> SecretSink (secretSink.ts): the registry of secrets and its holders. Totp (totp.ts) and Template
    (template.ts): one-time passwords, placeholders and their modifiers. ModuleFilter
    (moduleFilter.ts): the selection of modules by name.
  \<^item> Remote (moduleFailure.ts and the results of remote commands), ExecChannel, SudoSession and
    SessionChannels (ssh.ts): a command on a channel with its timer, sudo with its cached password,
    and the queue that shares the channels of a client between the commands.
  \<^item> Builtins (the built-in modules), ServerDefinition (serverDefinition.ts), LineDiff
    (modules/diffHelpers.ts).
  \<^item> Script: a run on the server as a tree of commands and replies, with its runs, its bounds on
    commands and its interleavings; the modules and the locks below are scripts. FlagLock and
    MutexLock (modules/flagLock.ts, flagLockWait.ts, flagLockScripts.ts, mutexLock.ts), with the
    protocol of several processes in LockProtocol and the budget of a wait in LockBounds.
  \<^item> ModuleScript: modules as scripts and the contract of an editor of a file, as the locales
    \<open>file_editor\<close> and \<open>framed_editor\<close>. Cron and CronProofs (modules/cron.ts, cronMutation.ts).
  \<^item> ArchiveListing (modules/archiveTarListing.ts, archiveTarListingParser.ts,
    archiveMemberValidation.ts) and ArchiveLinks (modules/archiveSymlinkResolver.ts,
    archiveContainmentScope.ts, archiveLinkAnalysis.ts, archiveLinkValidation.ts): what an archive
    lists and where its links lead. LinkWalk, ArchiveContainment and ArchiveLines hold what these
    rules are worth: the resolver against the walk of a kernel (locale \<open>link_walk\<close>), containment
    of an extracted archive, and the reading of printed lines.

  \<^bold>\<open>How code becomes definitions\<close>

  A class or a closure with mutable variables is a record, and its methods are functions that
  return the updated record. A \<^verbatim>\<open>throw\<close> or a rejected promise is \<open>Inl\<close> of an \<open>exn\<close>. An awaited
  call is a call: where the order of events matters (a promise that settles while others
  wait, the events of a channel, requests for a cached secret) the events are a list and the
  component is a step function over it. A module is a datatype with the functions of its
  hooks as parameters over the world; the world itself is not interpreted.
  A string is a list of characters below 256 that stand for the first code points; the dash
  and the ellipsis of some messages are written with their Windows-1252 codes. The lengths
  in bytes are those of UTF-8. A buffer is a list of bytes, written as characters.
  Parameters stand for what is not in the repository: the transport and its clock
  (\<open>network\<close>), hashes (\<open>crypto\<close>), the decoders of the standard library, the file system
  where a function reads a file.

  \<^bold>\<open>What the lemmas show\<close>

  Each theory closes with the properties of its component, and each property stands after a
  text with its number. Invariants are preserved by every operation and lifted to the loops
  by the contract in Loops; optimised routines (the host pattern matcher, the chunk-wise
  capture, the stream masker) are compared with a reference definition; error paths are
  branches of the same definitions.

  \<^bold>\<open>Bounds and fuel\<close>

  The reconnect loop takes a number of rounds; \<open>reconnect_terminates\<close> gives a number that
  always suffices, computed from its window, since every round sleeps at least 750
  milliseconds. The host pattern loop is a \<open>partial_function\<close> and is proved to return. The
  other loops are structural or have a measure.
  A wait for a lock polls a number of times that its budget bounds (\<open>lock_wait_is_bounded\<close>). The
  resolver of archive links carries the number of links it may still enter as its fuel, which is
  the limit of the code itself (40), and the folding of a name takes at most four rounds, as the
  code does.

  \<^bold>\<open>What is not modelled\<close>

  The native client and its bindings, sftp, process handling, argument parsing of the command
  line and the rendering of the output are input and output around the logic.
  Of the modules library, the modules that are not named above are left out: they run commands
  whose effect is that of other programs. Of the archive modules, the cross-check with the
  kernel of the server, the trail of a link, the merge into the destination and its locks are
  left out. Custom acquisitions of a mutex are left out. Tables of Unicode (case folding,
  normalization, the replacement character) are outside the character model or a parameter.
\<close>

end
